(* ===== verification/Prelude.thy ===== *)
theory Prelude
  imports Main "HOL-Library.AList" "HOL-Library.Sublist"
begin

text \<open>
  Shared vocabulary of the development: the errors the handlers raise, actions that thread a
  state and may raise (an exception does not roll the state back), JavaScript objects as
  association lists in insertion order, JavaScript string helpers, and the lemma collections
  the component theories feed to the simplifier.
\<close>

subsection \<open>Lemma collections\<close>

named_theorems act_simps
  \<comment> \<open>how the action combinators run\<close>
named_theorems vocab_simps
  \<comment> \<open>the vocabulary constants, unfolded where a witness evaluates them\<close>

subsection \<open>Errors\<close>

text \<open>
  \<open>RequiredClaim\<close> of \<open>errors/NeedInfoError.ts\<close>. All fields are optional there.
\<close>

record required_claim =
  rc_claim_token_format :: "string option"
  rc_claim_type :: "string option"
  rc_friendly_name :: "string option"
  rc_issuer :: "string option"
  rc_name :: "string option"
  rc_derivation_resource_id :: "string option"
  rc_resource_scopes :: "string list option"

definition empty_claim :: required_claim where
  "empty_claim = \<lparr>rc_claim_token_format = None, rc_claim_type = None, rc_friendly_name = None,
     rc_issuer = None, rc_name = None, rc_derivation_resource_id = None,
     rc_resource_scopes = None\<rparr>"

text \<open>
  The HTTP error classes the sources throw. \<open>PlainError\<close> is a bare \<open>Error\<close> or a
  \<open>TypeError\<close> (no status code), \<open>NeedInfo\<close> is \<open>NeedInfoError\<close>, a subclass of
  \<open>ForbiddenHttpError\<close> that carries a ticket and the required claims. Messages are not kept.
\<close>

datatype error =
    BadRequest
  | Unauthorized
  | Forbidden
  | NotFound
  | MethodNotAllowed
  | Conflict
  | UnsupportedMediaType
  | InternalServer
  | NotImplemented
  | PlainError
  | NeedInfo (need_ticket: string) (need_claims: "required_claim list")

text \<open>\<open>util/Result.ts\<close>: success and failure values that are not exceptions.\<close>

datatype ('s, 'f) result = Success 's | Failure 'f

subsection \<open>Actions: state and exceptions\<close>

type_synonym ('s, 'a) act = "'s \<Rightarrow> (error + 'a) \<times> 's"

definition return :: "'a \<Rightarrow> ('s, 'a) act" where
  "return x = (\<lambda>s. (Inr x, s))"

definition throw :: "error \<Rightarrow> ('s, 'a) act" where
  "throw e = (\<lambda>s. (Inl e, s))"

definition bind :: "('s, 'a) act \<Rightarrow> ('a \<Rightarrow> ('s, 'b) act) \<Rightarrow> ('s, 'b) act" where
  "bind m f = (\<lambda>s. case m s of (Inl e, s') \<Rightarrow> (Inl e, s') | (Inr x, s') \<Rightarrow> f x s')"

definition gets :: "('s \<Rightarrow> 'a) \<Rightarrow> ('s, 'a) act" where
  "gets f = (\<lambda>s. (Inr (f s), s))"

definition modify :: "('s \<Rightarrow> 's) \<Rightarrow> ('s, unit) act" where
  "modify f = (\<lambda>s. (Inr (), f s))"

text \<open>A value that may be an error, lifted to an action.\<close>

definition lift :: "error + 'a \<Rightarrow> ('s, 'a) act" where
  "lift r = (\<lambda>s. (r, s))"

definition guard :: "bool \<Rightarrow> error \<Rightarrow> ('s, unit) act" where
  "guard b e = (if b then return () else throw e)"

text \<open>A \<open>for .. of\<close> loop with an accumulator.\<close>

fun fold_act :: "('b \<Rightarrow> 'a \<Rightarrow> ('s, 'b) act) \<Rightarrow> 'b \<Rightarrow> 'a list \<Rightarrow> ('s, 'b) act" where
  "fold_act f acc [] = return acc"
| "fold_act f acc (x # xs) = bind (f acc x) (\<lambda>acc'. fold_act f acc' xs)"

text \<open>\<open>try { m } catch { h }\<close>: the handler sees the state the failing body left.\<close>

definition catch :: "('s, 'a) act \<Rightarrow> (error \<Rightarrow> ('s, 'a) act) \<Rightarrow> ('s, 'a) act" where
  "catch m h = (\<lambda>s. case m s of (Inl e, s') \<Rightarrow> h e s' | (Inr x, s') \<Rightarrow> (Inr x, s'))"

lemma fold_act_inv:
  assumes "fold_act f acc xs s = (Inr out, t)" and "P acc s"
    and "\<And>acc x s acc' s'. x \<in> set xs \<Longrightarrow> P acc s \<Longrightarrow> f acc x s = (Inr acc', s') \<Longrightarrow> P acc' s'"
  shows "P out t"
  using assms
proof (induction xs arbitrary: acc s)
  case (Cons x xs)
  obtain acc' s' where step: "f acc x s = (Inr acc', s')"
    and rest: "fold_act f acc' xs s' = (Inr out, t)"
    using Cons.prems(1) by (auto simp: bind_def split: prod.splits sum.splits)
  have "P acc' s'" by (rule Cons.prems(3) [OF _ Cons.prems(2) step]) simp
  then show ?case by (rule Cons.IH [OF rest]) (rule Cons.prems(3), simp_all)
qed (simp add: return_def)

lemma return_run [act_simps]: "return x s = (Inr x, s)"
  by (simp add: return_def)

lemma throw_run [act_simps]: "throw e s = (Inl e, s)"
  by (simp add: throw_def)

lemma gets_run [simp, act_simps]: "gets f s = (Inr (f s), s)"
  by (simp add: gets_def)

lemma modify_run [simp, act_simps]: "modify f s = (Inr (), f s)"
  by (simp add: modify_def)

lemma lift_run [act_simps]: "lift r s = (r, s)"
  by (simp add: lift_def)

text \<open>
  As rewrite rules, the three run lemmas above would also fire on unapplied actions; these do not.
\<close>

lemma return_eq [simp]: "return x s = (r, t) \<longleftrightarrow> r = Inr x \<and> t = s"
  by (auto simp: return_def)

lemma throw_eq [simp]: "throw e s = (r, t) \<longleftrightarrow> r = Inl e \<and> t = s"
  by (auto simp: throw_def)

lemma lift_eq [simp]: "lift v s = (r, t) \<longleftrightarrow> v = r \<and> t = s"
  by (auto simp: lift_def)

lemma run_sel [simp]:
  "fst (return x s) = Inr x" "snd (return x s) = s"
  "fst (throw e s) = Inl e" "snd (throw e s) = s"
  "fst (lift v s) = v" "snd (lift v s) = s"
  by (simp_all add: return_def throw_def lift_def)

lemma run_fst: "fst p = r \<Longrightarrow> p = (r, snd p)"
  by (metis prod.collapse)

lemma bind_Inl [act_simps]: "m s = (Inl e, s') \<Longrightarrow> bind m f s = (Inl e, s')"
  by (simp add: bind_def)

lemma bind_Inr [act_simps]: "m s = (Inr x, s') \<Longrightarrow> bind m f s = f x s'"
  by (simp add: bind_def)

lemma guard_run [act_simps]: "guard b e s = (if b then (Inr (), s) else (Inl e, s))"
  by (simp add: guard_def)

lemma bind_return [simp]: "bind (return x) f = f x"
  by (simp add: bind_def return_def fun_eq_iff)

lemma bind_throw [simp]: "bind (throw e) f = throw e"
  by (simp add: bind_def throw_def fun_eq_iff)

lemma bind_gets [simp]: "bind (gets f) g = (\<lambda>s. g (f s) s)"
  by (simp add: bind_def fun_eq_iff)

lemma bind_modify [simp]: "bind (modify f) g = (\<lambda>s. g () (f s))"
  by (simp add: bind_def fun_eq_iff)

lemma bind_lift: "bind (lift r) g = (case r of Inl e \<Rightarrow> throw e | Inr x \<Rightarrow> g x)"
  by (cases r) (simp_all add: bind_def lift_def throw_def fun_eq_iff)

lemma bind_guard [simp]: "bind (guard b e) g = (if b then g () else throw e)"
  by (simp add: guard_def)

lemma bind_assoc: "bind (bind m f) g = bind m (\<lambda>x. bind (f x) g)"
  by (simp add: bind_def fun_eq_iff split: prod.split sum.split)

lemma bind_eq_Inr:
  "bind m f s = (Inr y, t) \<longleftrightarrow> (\<exists>x s'. m s = (Inr x, s') \<and> f x s' = (Inr y, t))"
  by (auto simp: bind_def split: prod.split sum.split)

lemma bind_eq_Inl:
  "bind m f s = (Inl e, t) \<longleftrightarrow>
     m s = (Inl e, t) \<or> (\<exists>x s'. m s = (Inr x, s') \<and> f x s' = (Inl e, t))"
  by (auto simp: bind_def split: prod.splits sum.splits)

lemma guard_eq_Inr: "guard b e s = (Inr x, t) \<longleftrightarrow> b \<and> s = t"
  by (auto simp: guard_def)

lemma catch_eq_Inr:
  "catch m h s = (Inr x, t) \<longleftrightarrow>
     m s = (Inr x, t) \<or> (\<exists>e s'. m s = (Inl e, s') \<and> h e s' = (Inr x, t))"
  by (auto simp: catch_def split: prod.splits sum.splits)

lemma bind_cases:
  assumes "bind m f s = (r, t)"
  obtains (raised) e where "m s = (Inl e, t)" "r = Inl e"
  | (returned) x u where "m s = (Inr x, u)" "f x u = (r, t)"
  using assms by (auto simp: bind_def split: prod.splits sum.splits)

lemmas bind_eqs = bind_eq_Inr bind_eq_Inl

subsection \<open>Frame conditions\<close>

text \<open>
  \<open>keeps R m\<close>: whatever \<open>m\<close> returns, the states before and after are related by \<open>R\<close>. For
  every preorder \<open>R\<close> it composes along the action combinators; \<open>unchanged f\<close> is the case
  "the component \<open>f\<close> of the state stays", preservation of an invariant is another.
\<close>

definition keeps :: "('s \<Rightarrow> 's \<Rightarrow> bool) \<Rightarrow> ('s, 'a) act \<Rightarrow> bool" where
  "keeps R m \<longleftrightarrow> (\<forall>s. R s (snd (m s)))"

lemma keepsD: "keeps R m \<Longrightarrow> m s = (r, t) \<Longrightarrow> R s t"
  unfolding keeps_def by (metis snd_conv)

lemma keepsI: "(\<And>s r t. m s = (r, t) \<Longrightarrow> R s t) \<Longrightarrow> keeps R m"
  unfolding keeps_def by (metis prod.collapse)

lemma keeps_weaken: "keeps R m \<Longrightarrow> (\<And>s t. R s t \<Longrightarrow> Q s t) \<Longrightarrow> keeps Q m"
  unfolding keeps_def by blast

locale state_frame =
  fixes R :: "'s \<Rightarrow> 's \<Rightarrow> bool"
  assumes refl: "R s s"
    and trans: "R s t \<Longrightarrow> R t u \<Longrightarrow> R s u"
begin

lemma keeps_return: "keeps R (return x)"
  by (simp add: keeps_def refl)

lemma keeps_throw: "keeps R (throw e)"
  by (simp add: keeps_def refl)

lemma keeps_gets: "keeps R (gets g)"
  by (simp add: keeps_def refl)

lemma keeps_lift: "keeps R (lift r)"
  by (simp add: keeps_def refl)

lemma keeps_guard: "keeps R (guard b e)"
  by (simp add: keeps_def guard_def refl)

lemma keeps_modify: "(\<And>s. R s (g s)) \<Longrightarrow> keeps R (modify g)"
  by (simp add: keeps_def)

lemma keeps_bind:
  assumes "keeps R m" and "\<And>x. keeps R (g x)"
  shows "keeps R (bind m g)"
  using assms unfolding keeps_def bind_def
  by (auto split: prod.splits sum.splits) (metis snd_conv trans)+

lemma keeps_catch:
  assumes "keeps R m" and "\<And>e. keeps R (h e)"
  shows "keeps R (catch m h)"
  using assms unfolding keeps_def catch_def
  by (auto split: prod.splits sum.splits) (metis snd_conv trans)+

lemma keeps_if: "keeps R m \<Longrightarrow> keeps R n \<Longrightarrow> keeps R (if b then m else n)"
  by simp

lemma keeps_option:
  "keeps R m \<Longrightarrow> (\<And>x. keeps R (g x)) \<Longrightarrow> keeps R (case v of None \<Rightarrow> m | Some x \<Rightarrow> g x)"
  by (simp split: option.split)

lemma keeps_list:
  "keeps R m \<Longrightarrow> (\<And>x xs. keeps R (g x xs)) \<Longrightarrow> keeps R (case v of [] \<Rightarrow> m | x # xs \<Rightarrow> g x xs)"
  by (simp split: list.split)

lemma keeps_sum:
  "(\<And>x. keeps R (h x)) \<Longrightarrow> (\<And>x. keeps R (g x)) \<Longrightarrow>
   keeps R (case v of Inl x \<Rightarrow> h x | Inr x \<Rightarrow> g x)"
  by (simp split: sum.split)

lemma keeps_result:
  "(\<And>x. keeps R (h x)) \<Longrightarrow> (\<And>x. keeps R (g x)) \<Longrightarrow>
   keeps R (case v of Success x \<Rightarrow> h x | Failure x \<Rightarrow> g x)"
  by (simp split: result.split)

lemma keeps_prod: "(\<And>x y. keeps R (g x y)) \<Longrightarrow> keeps R (case v of (x, y) \<Rightarrow> g x y)"
  by (simp split: prod.split)

lemma keeps_prod_app: "(\<And>x y. keeps R (g x y z)) \<Longrightarrow> keeps R ((case v of (x, y) \<Rightarrow> g x y) z)"
  by (simp split: prod.split)

lemma keeps_let: "keeps R (g a) \<Longrightarrow> keeps R (Let a g)"
  by simp

lemma keeps_fold_act: "(\<And>acc x. keeps R (g acc x)) \<Longrightarrow> keeps R (fold_act g acc xs)"
  by (induction xs arbitrary: acc) (auto intro: keeps_return keeps_bind)

lemmas intros = keeps_return keeps_throw keeps_gets keeps_lift keeps_guard keeps_modify keeps_bind
  keeps_catch keeps_if keeps_option keeps_list keeps_sum keeps_result keeps_prod keeps_prod_app keeps_let
  keeps_fold_act

end

abbreviation unchanged :: "('s \<Rightarrow> 'x) \<Rightarrow> ('s, 'a) act \<Rightarrow> bool" where
  "unchanged f \<equiv> keeps (\<lambda>s t. f t = f s)"

interpretation same: state_frame "\<lambda>s t. f t = f s" for f
  by unfold_locales simp_all

lemmas unchanged_intros = same.intros

end
