(* ===== verification/JsData.thy ===== *)
theory JsData
  imports Prelude
begin

text \<open>
  The JavaScript data the sources work on: strings (as byte lists) with the string operations
  that occur in the code, JSON values, and objects used as dictionaries, which keep their
  insertion order. Numbers are integers: no modelled operation looks inside a number.
\<close>

subsection \<open>Strings\<close>

text \<open>\<open>s.startsWith(p)\<close>, and \<open>s.replace(p, q)\<close> for an \<open>s\<close> that starts with \<open>p\<close>.\<close>

definition starts_with :: "string \<Rightarrow> string \<Rightarrow> bool" where
  "starts_with p s = prefix p s"

definition replace_prefix :: "string \<Rightarrow> string \<Rightarrow> string \<Rightarrow> string" where
  "replace_prefix p q s = q @ drop (length p) s"

text \<open>\<open>s.split(c)\<close> for a one-character separator; the result is never empty.\<close>

fun split_on :: "char \<Rightarrow> string \<Rightarrow> string list" where
  "split_on c [] = [[]]"
| "split_on c (x # xs) =
     (if x = c then [] # split_on c xs
      else (case split_on c xs of [] \<Rightarrow> [[x]] | w # ws \<Rightarrow> (x # w) # ws))"

fun join_with :: "char \<Rightarrow> string list \<Rightarrow> string" where
  "join_with c [] = []"
| "join_with c [w] = w"
| "join_with c (w # ws) = w @ c # join_with c ws"

lemma split_on_nonempty [simp]: "split_on c s \<noteq> []"
  by (induction s) (auto split: list.splits)

lemma join_split [simp]: "join_with c (split_on c s) = s"
proof (induction s)
  case (Cons x xs)
  obtain w ws where ws: "split_on c xs = w # ws"
    by (cases "split_on c xs") auto
  with Cons show ?case by (cases ws) auto
qed simp

lemma split_no_sep: "c \<notin> set s \<Longrightarrow> split_on c s = [s]"
  by (induction s) auto

lemma split_append_sep: "c \<notin> set w \<Longrightarrow> split_on c (w @ c # s) = w # split_on c s"
  by (induction w) auto

text \<open>Truthiness of a string: only the empty string is falsy.\<close>

definition truthy_str :: "string \<Rightarrow> bool" where
  "truthy_str s = (s \<noteq> [])"

text \<open>An optional string property (\<open>None\<close> is \<open>undefined\<close>), read as a condition.\<close>

definition truthy_opt :: "string option \<Rightarrow> bool" where
  "truthy_opt so = (case so of None \<Rightarrow> False | Some s \<Rightarrow> truthy_str s)"

lemma truthy_opt_simps [simp]:
  "\<not> truthy_opt None" "truthy_opt (Some s) \<longleftrightarrow> s \<noteq> []"
  by (simp_all add: truthy_opt_def truthy_str_def)

lemma truthy_optD: "truthy_opt v \<Longrightarrow> v = Some (the v)"
  by (cases v) simp_all

text \<open>Character classes.\<close>

definition is_alpha :: "char \<Rightarrow> bool" where
  "is_alpha c = (let n = of_char c :: nat in (65 \<le> n \<and> n \<le> 90) \<or> (97 \<le> n \<and> n \<le> 122))"

definition is_digit :: "char \<Rightarrow> bool" where
  "is_digit c = (let n = of_char c :: nat in 48 \<le> n \<and> n \<le> 57)"

text \<open>The characters \<open>\\s\<close> matches, on single bytes.\<close>

definition is_space :: "char \<Rightarrow> bool" where
  "is_space c = (let n = of_char c :: nat in n = 32 \<or> (9 \<le> n \<and> n \<le> 13))"

text \<open>\<open>encodeURIComponent\<close> on the UTF-8 bytes of its argument.\<close>

definition hex_digit :: "nat \<Rightarrow> char" where
  "hex_digit n = (if n < 10 then char_of (48 + n) else char_of (55 + n))"

definition uri_unreserved :: "char \<Rightarrow> bool" where
  "uri_unreserved c = (is_alpha c \<or> is_digit c \<or> c \<in> set ''-_.!~*()'' \<or> of_char c = (39 :: nat))"

definition encodeURIComponent :: "string \<Rightarrow> string" where
  "encodeURIComponent s = concat (map (\<lambda>c.
     if uri_unreserved c then [c]
     else [CHR ''%'', hex_digit (of_char c div 16), hex_digit (of_char c mod 16)]) s)"

text \<open>The decimal digits of an array index.\<close>

fun nat_str :: "nat \<Rightarrow> string" where
  "nat_str n = (if n < 10 then [char_of (48 + n)] else nat_str (n div 10) @ [char_of (48 + n mod 10)])"

declare nat_str.simps [simp del]

subsection \<open>Objects\<close>

type_synonym 'v obj = "(string \<times> 'v) list"

text \<open>
  \<open>o[k]\<close>, \<open>o[k] = v\<close> (in place when the key exists, at the end otherwise),
  \<open>delete o[k]\<close>, \<open>Object.keys\<close>.
\<close>

abbreviation obj_get :: "'v obj \<Rightarrow> string \<Rightarrow> 'v option" where
  "obj_get \<equiv> map_of"

abbreviation obj_set :: "string \<Rightarrow> 'v \<Rightarrow> 'v obj \<Rightarrow> 'v obj" where
  "obj_set \<equiv> AList.update"

abbreviation obj_delete :: "string \<Rightarrow> 'v obj \<Rightarrow> 'v obj" where
  "obj_delete \<equiv> AList.delete"

definition obj_keys :: "'v obj \<Rightarrow> string list" where
  "obj_keys o' = map fst o'"

text \<open>An object has each key once.\<close>

definition obj_ok :: "'v obj \<Rightarrow> bool" where
  "obj_ok o' = distinct (map fst o')"

lemma obj_get_set: "obj_get (obj_set k v o') k' = (if k' = k then Some v else obj_get o' k')"
  by (simp add: update_conv)

lemma obj_get_delete: "obj_get (obj_delete k o') k' = (if k' = k then None else obj_get o' k')"
  by (simp add: delete_conv)

lemma obj_ok_set: "obj_ok o' \<Longrightarrow> obj_ok (obj_set k v o')"
  by (simp add: obj_ok_def distinct_update)

lemma obj_ok_delete: "obj_ok o' \<Longrightarrow> obj_ok (obj_delete k o')"
  by (simp add: obj_ok_def distinct_delete)

lemma obj_ok_nil [simp]: "obj_ok []"
  by (simp add: obj_ok_def)

lemma keys_obj_set: "fst ` set (obj_set k v o') = insert k (fst ` set o')"
  by (simp add: dom_update)

subsection \<open>JSON values\<close>

datatype js =
    JUndef
  | JNull
  | JBool bool
  | JNum int
  | JStr string
  | JArr "js list"
  | JObj "(string \<times> js) list"

fun truthy :: "js \<Rightarrow> bool" where
  "truthy JUndef = False"
| "truthy JNull = False"
| "truthy (JBool b) = b"
| "truthy (JNum n) = (n \<noteq> 0)"
| "truthy (JStr s) = (s \<noteq> [])"
| "truthy (JArr _) = True"
| "truthy (JObj _) = True"

text \<open>
  The own properties of a value, as \<open>Object.getOwnPropertyNames\<close> lists them: an array has its
  indices and then \<open>length\<close>. The properties read by the code do not occur on
  \<open>Object.prototype\<close>, so \<open>in\<close> and reading look at own properties only.
\<close>

definition own_props :: "js \<Rightarrow> (string \<times> js) list" where
  "own_props v = (case v of
      JObj ps \<Rightarrow> ps
    | JArr xs \<Rightarrow> map (\<lambda>(i, x). (nat_str i, x)) (enumerate 0 xs) @ [(''length'', JNum (int (length xs)))]
    | _ \<Rightarrow> [])"

definition js_prop :: "js \<Rightarrow> string \<Rightarrow> js" where
  "js_prop v k = (case map_of (own_props v) k of None \<Rightarrow> JUndef | Some x \<Rightarrow> x)"

text \<open>\<open>typeof v === 'object' && v !== null\<close>.\<close>

definition is_object :: "js \<Rightarrow> bool" where
  "is_object v = (case v of JObj _ \<Rightarrow> True | JArr _ \<Rightarrow> True | _ \<Rightarrow> False)"

definition js_str :: "js \<Rightarrow> string option" where
  "js_str v = (case v of JStr s \<Rightarrow> Some s | _ \<Rightarrow> None)"

text \<open>The strings among the values, as \<open>filter(v => typeof v === 'string')\<close> keeps them.\<close>

definition js_strings :: "js list \<Rightarrow> string list" where
  "js_strings vs = List.map_filter js_str vs"

lemma js_str_Some [simp]: "js_str v = Some s \<longleftrightarrow> v = JStr s"
  by (auto simp: js_str_def split: js.splits)

lemma js_str_JStr [simp]: "js_str (JStr s) = Some s"
  by simp

lemma js_strings_simps [simp]:
  "js_strings [] = []"
  "js_strings (JStr s # vs) = s # js_strings vs"
  by (simp_all add: js_strings_def List.map_filter_def)

lemma set_js_strings: "set (js_strings vs) = {s. JStr s \<in> set vs}"
  by (force simp: js_strings_def List.map_filter_def)

lemma js_prop_JObj [simp]:
  "js_prop (JObj ps) k = (case map_of ps k of None \<Rightarrow> JUndef | Some x \<Rightarrow> x)"
  by (simp add: js_prop_def own_props_def)

subsection \<open>IRIs\<close>

text \<open>\<open>IRI_REGEX\<close> of \<open>util/ConvertUtil.ts\<close>: \<open>^[A-Za-z][A-Za-z0-9+.-]*:\S*$\<close>.\<close>

definition isIri :: "string \<Rightarrow> bool" where
  "isIri s = (let scheme = takeWhile (\<lambda>c. c \<noteq> CHR '':'') s;
                  rest = dropWhile (\<lambda>c. c \<noteq> CHR '':'') s
              in scheme \<noteq> [] \<and> is_alpha (hd scheme)
                 \<and> list_all (\<lambda>c. is_alpha c \<or> is_digit c \<or> c \<in> set ''+.-'') scheme
                 \<and> rest \<noteq> [] \<and> list_all (\<lambda>c. \<not> is_space c) (tl rest))"

lemma isIri_colon: "isIri s \<Longrightarrow> CHR '':'' \<in> set s"
  unfolding isIri_def Let_def by (auto simp: dropWhile_eq_Nil_conv)

lemma isIri_append:
  assumes "isIri s" and "list_all (\<lambda>c. \<not> is_space c) t"
  shows "isIri (s @ t)"
proof -
  have colon: "CHR '':'' \<in> set s" using assms(1) by (rule isIri_colon)
  have ne: "dropWhile (\<lambda>c. c \<noteq> CHR '':'') s \<noteq> []" using colon by simp
  show ?thesis
    using assms colon ne unfolding isIri_def Let_def
    by (auto simp: takeWhile_append1 [OF colon] dropWhile_append1 [OF colon] tl_append
        split: list.splits)
qed

lemma encodeURIComponent_Cons:
  "encodeURIComponent (c # s) =
     (if uri_unreserved c then [c]
      else [CHR ''%'', hex_digit (of_char c div 16), hex_digit (of_char c mod 16)])
     @ encodeURIComponent s"
  by (simp add: encodeURIComponent_def)

text \<open>An encoded component has no white space.\<close>

lemma hex_digit_no_space: "n < 16 \<Longrightarrow> \<not> is_space (hex_digit n)"
  by (auto simp: hex_digit_def is_space_def Let_def)

lemma unreserved_no_space: "uri_unreserved c \<Longrightarrow> \<not> is_space c"
  by (auto simp: uri_unreserved_def is_space_def is_alpha_def is_digit_def Let_def)

lemma encodeURIComponent_no_space: "list_all (\<lambda>c. \<not> is_space c) (encodeURIComponent s)"
proof (induction s)
  case (Cons c s)
  have percent: "\<not> is_space (CHR ''%'')" by code_simp
  have "(of_char c :: nat) div 16 < 16" using nat_of_char_less_256 [of c] by (simp del: nat_of_char_less_256 add: div_less_iff_less_mult)
  then show ?case
    using Cons by (simp add: encodeURIComponent_Cons hex_digit_no_space unreserved_no_space percent)
qed (simp add: encodeURIComponent_def)

end
