(* ===== verification/ReType.thy ===== *)
theory ReType
  imports JsData
begin

text \<open>
  The run-time type checker of \<open>util/ReType.ts\<close> and the patterns of the request bodies
  (\<open>views/\<close>, \<open>dialog/\<close>, \<open>credentials/Credential.ts\<close>, \<open>tokens/AccessToken.ts\<close>).
  \<open>reType\<close> answers whether the source's function returns (\<open>True\<close>) or throws (\<open>False\<close>).
\<close>

subsection \<open>Patterns and the checker\<close>

text \<open>
  An assertion is a literal, an object of assertions, or one of the assertion functions
  (\<open>string\<close>, \<open>number\<close>, \<open>boolean\<close>, \<open>any\<close>, \<open>never\<close>, \<open>empty\<close>, \<open>array\<close>, \<open>tuple\<close>,
  \<open>union\<close>, \<open>intersection\<close>, \<open>dict\<close>). \<open>symbol\<close>, \<open>bigint\<close> and \<open>instance\<close> have no
  JSON value and no use in the repository.
\<close>

datatype pattern =
    PLiteral js
  | PObject "(string \<times> pattern) list"
  | PString
  | PNumber
  | PBoolean
  | PAny
  | PNever
  | PEmpty
  | PArray pattern
  | PTuple "pattern list"
  | PUnion "pattern list"
  | PIntersection "pattern list"
  | PDict pattern

text \<open>\<open>primitive(name)\<close>: a \<open>typeof\<close> test.\<close>

definition is_string :: "js \<Rightarrow> bool" where
  "is_string v = (case v of JStr _ \<Rightarrow> True | _ \<Rightarrow> False)"

definition is_number :: "js \<Rightarrow> bool" where
  "is_number v = (case v of JNum _ \<Rightarrow> True | _ \<Rightarrow> False)"

definition is_boolean :: "js \<Rightarrow> bool" where
  "is_boolean v = (case v of JBool _ \<Rightarrow> True | _ \<Rightarrow> False)"

text \<open>
  Recursion on the assertion: the checks of the parts are collected first, and then run on
  the parts of the value.
\<close>

primrec assertion :: "pattern \<Rightarrow> js \<Rightarrow> bool" where
  "assertion (PLiteral l) = (\<lambda>v. v = l)"
| "assertion (PObject fs) = (\<lambda>v. is_object v \<and>
     list_all (\<lambda>(k, chk). chk (js_prop v k)) (map (map_prod id assertion) fs))"
| "assertion PString = is_string"
| "assertion PNumber = is_number"
| "assertion PBoolean = is_boolean"
| "assertion PAny = (\<lambda>v. True)"
| "assertion PNever = (\<lambda>v. False)"
| "assertion PEmpty = (\<lambda>v. v = JArr [])"
| "assertion (PArray p) = (\<lambda>v. case v of JArr xs \<Rightarrow> list_all (assertion p) xs | _ \<Rightarrow> False)"
| "assertion (PTuple ps) = (\<lambda>v. case v of
     JArr xs \<Rightarrow> length xs = length ps \<and> list_all2 (\<lambda>chk x. chk x) (map assertion ps) xs
   | _ \<Rightarrow> False)"
| "assertion (PUnion ps) = (\<lambda>v. list_ex (\<lambda>chk. chk v) (map assertion ps))"
| "assertion (PIntersection ps) = (\<lambda>v. list_all (\<lambda>chk. chk v) (map assertion ps))"
| "assertion (PDict p) = (\<lambda>v. is_object v \<and> list_all (assertion p) (map snd (own_props v)))"

definition reType :: "js \<Rightarrow> pattern \<Rightarrow> bool" where
  "reType v p = assertion p v"

lemma reType_simps [simp]:
  "reType v (PLiteral l) \<longleftrightarrow> v = l"
  "reType v (PObject fs) \<longleftrightarrow> is_object v \<and> (\<forall>(k, p) \<in> set fs. reType (js_prop v k) p)"
  "reType v PString \<longleftrightarrow> (\<exists>s. v = JStr s)"
  "reType v PNumber \<longleftrightarrow> (\<exists>n. v = JNum n)"
  "reType v PBoolean \<longleftrightarrow> (\<exists>b. v = JBool b)"
  "reType v PAny" "\<not> reType v PNever" "reType v PEmpty \<longleftrightarrow> v = JArr []"
  "reType v (PArray p) \<longleftrightarrow> (\<exists>xs. v = JArr xs \<and> (\<forall>x \<in> set xs. reType x p))"
  "reType v (PUnion ps) \<longleftrightarrow> (\<exists>p \<in> set ps. reType v p)"
  "reType v (PIntersection ps) \<longleftrightarrow> (\<forall>p \<in> set ps. reType v p)"
  "reType v (PDict p) \<longleftrightarrow> is_object v \<and> (\<forall>x \<in> snd ` set (own_props v). reType x p)"
  by (auto simp: reType_def is_string_def is_number_def is_boolean_def list_all_iff list_ex_iff
      split: js.splits)

lemma reType_tuple [simp]:
  "reType v (PTuple ps) \<longleftrightarrow> (\<exists>xs. v = JArr xs \<and> list_all2 reType xs ps)"
  by (auto simp: reType_def list_all2_conv_all_nth split: js.splits)

text \<open>\<open>optional\<close> is a union with the literal \<open>undefined\<close>.\<close>

definition POptional :: "pattern \<Rightarrow> pattern" where
  "POptional p = PUnion [p, PLiteral JUndef]"

lemma reType_optional [simp]: "reType v (POptional p) \<longleftrightarrow> reType v p \<or> v = JUndef"
  by (simp add: POptional_def)

end
