(* ===== verification/Types.thy ===== *)
theory Types
  imports ReType
begin

text \<open>
  The vocabulary constants, the data types the components exchange (permissions, tickets,
  credentials, claim sets, tokens, dialog input and output) and the patterns that guard the
  request bodies, with the typed readings of accepted bodies.
\<close>

subsection \<open>Vocabulary\<close>

text \<open>\<open>credentials/Claims.ts\<close>\<close>

definition WEBID :: string where "WEBID = ''urn:solidlab:uma:claims:types:webid''"
definition CLIENTID :: string where "CLIENTID = ''urn:solidlab:uma:claims:types:clientid''"
definition ORIGINAL_WEBID :: string where
  "ORIGINAL_WEBID = ''urn:solidlab:uma:claims:types:original:webid''"
definition ORIGINAL_CLIENTID :: string where
  "ORIGINAL_CLIENTID = ''urn:solidlab:uma:claims:types:original:clientid''"
definition PURPOSE :: string where "PURPOSE = ''http://www.w3.org/ns/odrl/2/purpose''"
definition ACCESS :: string where "ACCESS = ''urn:solidlab:uma:claims:types:access''"
definition VC :: string where "VC = ''urn:solidlab:uma:claims:types:vc''"

text \<open>\<open>credentials/Formats.ts\<close>\<close>

definition JWT :: string where "JWT = ''urn:solidlab:uma:claims:formats:jwt''"
definition UNSECURE :: string where "UNSECURE = ''urn:solidlab:uma:claims:formats:webid''"
definition OIDC :: string where
  "OIDC = ''http://openid.net/specs/openid-connect-core-1_0.html#IDToken''"
definition ACCESS_TOKEN :: string where
  "ACCESS_TOKEN = ''urn:ietf:params:oauth:token-type:access_token''"
definition REFRESH_TOKEN :: string where
  "REFRESH_TOKEN = ''urn:ietf:params:oauth:token-type:refresh_token''"
definition VC_JWT :: string where "VC_JWT = ''application/vc+jwt''"

text \<open>\<open>UMA_SCOPES\<close> of \<open>ucp/util/Vocabularies.ts\<close>, \<open>Authorizer.ts\<close>, \<open>Token.ts\<close>, \<open>UmaProtection.ts\<close>\<close>

definition derivation_creation :: string where
  "derivation_creation = ''urn:knows:uma:scopes:derivation-creation''"
definition derivation_read :: string where
  "derivation_read = ''urn:knows:uma:scopes:derivation-read''"
definition ODRL_READ :: string where "ODRL_READ = ''http://www.w3.org/ns/odrl/2/read''"
definition ANY_RESOURCE :: string where "ANY_RESOURCE = ''urn:solidlab:uma:resources:any''"
definition ANY_SCOPE :: string where "ANY_SCOPE = ''urn:solidlab:uma:scopes:any''"
definition UMA_PROTECTION_SCOPE :: string where "UMA_PROTECTION_SCOPE = ''uma_protection''"
definition GRANT_TYPE_UMA_TICKET :: string where
  "GRANT_TYPE_UMA_TICKET = ''urn:ietf:params:oauth:grant-type:uma-ticket''"
definition GRANT_TYPE_CLIENT_CREDENTIALS :: string where
  "GRANT_TYPE_CLIENT_CREDENTIALS = ''client_credentials''"
definition GRANT_TYPE_REFRESH_TOKEN :: string where
  "GRANT_TYPE_REFRESH_TOKEN = ''refresh_token''"

lemmas claim_type_defs = WEBID_def CLIENTID_def ORIGINAL_WEBID_def ORIGINAL_CLIENTID_def
  PURPOSE_def ACCESS_def VC_def

lemmas format_defs = JWT_def UNSECURE_def OIDC_def ACCESS_TOKEN_def REFRESH_TOKEN_def VC_JWT_def

lemmas scope_defs = derivation_creation_def derivation_read_def ODRL_READ_def ANY_RESOURCE_def
  ANY_SCOPE_def UMA_PROTECTION_SCOPE_def GRANT_TYPE_UMA_TICKET_def
  GRANT_TYPE_CLIENT_CREDENTIALS_def GRANT_TYPE_REFRESH_TOKEN_def

lemma claim_types_distinct [simp]:
  "distinct [WEBID, CLIENTID, ORIGINAL_WEBID, ORIGINAL_CLIENTID, PURPOSE, ACCESS, VC]"
  by (simp add: claim_type_defs)

lemma claim_types_neq [simp]:
  "WEBID \<noteq> CLIENTID" "CLIENTID \<noteq> WEBID" "WEBID \<noteq> ORIGINAL_WEBID" "ORIGINAL_WEBID \<noteq> WEBID"
  "WEBID \<noteq> ORIGINAL_CLIENTID" "ORIGINAL_CLIENTID \<noteq> WEBID" "CLIENTID \<noteq> ORIGINAL_WEBID"
  "ORIGINAL_WEBID \<noteq> CLIENTID" "CLIENTID \<noteq> ORIGINAL_CLIENTID" "ORIGINAL_CLIENTID \<noteq> CLIENTID"
  "ORIGINAL_WEBID \<noteq> ORIGINAL_CLIENTID" "ORIGINAL_CLIENTID \<noteq> ORIGINAL_WEBID"
  "ACCESS \<noteq> WEBID" "WEBID \<noteq> ACCESS" "ACCESS \<noteq> ORIGINAL_WEBID" "ORIGINAL_WEBID \<noteq> ACCESS"
  "ACCESS \<noteq> CLIENTID" "CLIENTID \<noteq> ACCESS" "ACCESS \<noteq> ORIGINAL_CLIENTID"
  "ORIGINAL_CLIENTID \<noteq> ACCESS"
  by (simp_all add: claim_type_defs)

lemma grant_types_neq [simp]:
  "GRANT_TYPE_CLIENT_CREDENTIALS \<noteq> GRANT_TYPE_REFRESH_TOKEN"
  "GRANT_TYPE_REFRESH_TOKEN \<noteq> GRANT_TYPE_CLIENT_CREDENTIALS"
  "GRANT_TYPE_UMA_TICKET \<noteq> GRANT_TYPE_REFRESH_TOKEN"
  "GRANT_TYPE_REFRESH_TOKEN \<noteq> GRANT_TYPE_UMA_TICKET"
  "OIDC \<noteq> ACCESS_TOKEN" "ACCESS_TOKEN \<noteq> OIDC"
  by (simp_all add: scope_defs format_defs)

subsection \<open>Permissions\<close>

text \<open>\<open>views/Permission.ts\<close>\<close>

record permission =
  resource_id :: string
  resource_scopes :: "string list"

definition Permission :: pattern where
  "Permission = PObject [(''resource_id'', PString), (''resource_scopes'', PArray PString)]"

definition encode_permission :: "permission \<Rightarrow> js" where
  "encode_permission p = JObj [(''resource_id'', JStr (resource_id p)),
     (''resource_scopes'', JArr (map JStr (resource_scopes p)))]"

text \<open>The typed reading of a value that \<open>Permission\<close> accepted.\<close>

definition decode_permission :: "js \<Rightarrow> permission" where
  "decode_permission v = \<lparr>
     resource_id = (case js_prop v ''resource_id'' of JStr s \<Rightarrow> s | _ \<Rightarrow> ''''),
     resource_scopes = (case js_prop v ''resource_scopes'' of JArr xs \<Rightarrow> js_strings xs | _ \<Rightarrow> [])\<rparr>"

definition decode_permissions :: "js \<Rightarrow> permission list" where
  "decode_permissions v = (case v of JArr xs \<Rightarrow> map decode_permission xs | _ \<Rightarrow> [])"

text \<open>What a list of permissions lets its holder do: the (resource, scope) pairs in it.\<close>

definition access_of :: "permission list \<Rightarrow> (string \<times> string) set" where
  "access_of ps = {(resource_id p, sc) | p sc. p \<in> set ps \<and> sc \<in> set (resource_scopes p)}"

lemma access_of_Nil [simp]: "access_of [] = {}"
  by (simp add: access_of_def)

lemma access_of_Cons:
  "access_of (p # ps) = Pair (resource_id p) ` set (resource_scopes p) \<union> access_of ps"
  by (auto simp: access_of_def)

lemma access_of_append [simp]: "access_of (ps @ qs) = access_of ps \<union> access_of qs"
  by (auto simp: access_of_def)

lemma access_of_mono: "set ps \<subseteq> set qs \<Longrightarrow> access_of ps \<subseteq> access_of qs"
  by (auto simp: access_of_def)

lemma access_of_cong_set: "set ps = set qs \<Longrightarrow> access_of ps = access_of qs"
  by (simp add: access_of_def)

lemma access_of_concat: "access_of (concat pss) = (\<Union>ps \<in> set pss. access_of ps)"
  by (induction pss) auto

lemma in_access_of:
  "(r, sc) \<in> access_of ps \<longleftrightarrow> (\<exists>p \<in> set ps. resource_id p = r \<and> sc \<in> set (resource_scopes p))"
  by (auto simp: access_of_def)

subsection \<open>Credentials, claims and tickets\<close>

record credential =
  token :: string
  format :: string

type_synonym claimset = "js list obj"

text \<open>\<open>ticketing/Ticket.ts\<close>\<close>

record ticket =
  derivedIds :: "string list option"
  permissions :: "permission list"
  provided :: claimset

text \<open>\<open>ticket.derivedIds?.includes(id)\<close> as a condition.\<close>

definition is_derived :: "ticket \<Rightarrow> string \<Rightarrow> bool" where
  "is_derived t i = (case derivedIds t of None \<Rightarrow> False | Some ds \<Rightarrow> i \<in> set ds)"

subsection \<open>Tokens\<close>

text \<open>\<open>tokens/AccessToken.ts\<close>; the contract of the demonstration negotiator is kept as JSON.\<close>

record access_token =
  at_permissions :: "permission list"
  at_sub :: "string option"
  at_contract :: "js option"

record serialized_token =
  st_tokenType :: string
  st_token :: string

text \<open>\<open>RefreshInformation\<close> of \<open>credentials/verify/RefreshTokenVerifier.ts\<close>\<close>

record refresh_information =
  ri_claims :: claimset
  ri_permissions :: "permission list"
  ri_expiration :: int

subsection \<open>Registrations\<close>

record derived_entry =
  de_issuer :: string
  de_derivation_resource_id :: string

text \<open>
  The relation fields are kept as the objects they are in the body (their values are only
  partly checked by the pattern); \<open>rd_body\<close> is the whole body, which is what is stored and
  returned.
\<close>

record resource_description =
  rd_resource_scopes :: "string list"
  rd_resource_defaults :: "js obj option"
  rd_resource_relations :: "js obj option"
  rd_derived_from :: "derived_entry list option"
  rd_name :: "string option"
  rd_body :: js

record registration =
  reg_owner :: string
  reg_description :: resource_description

subsection \<open>Clients\<close>

text \<open>
  The rows of the two tables of the client storage: \<open>CLIENT_REGISTRATION_STORAGE_DESCRIPTION\<close>
  and \<open>PAT_STORAGE_DESCRIPTION\<close>, with the identifier every row has.
\<close>

record client_registration =
  cr_id :: string
  cr_clientName :: "string option"
  cr_clientUri :: string
  cr_clientId :: string
  cr_clientSecret :: string
  cr_userId :: string

record pat_entry =
  pe_id :: string
  pe_pat :: string
  pe_expiration :: int
  pe_refreshToken :: string
  pe_registration :: string

subsection \<open>Dialogs\<close>

text \<open>\<open>claim_token\<close> is a string, or a list of token/format pairs.\<close>

datatype claim_tokens = SingleToken string | TokenList "(string option \<times> string option) list"

record dialog_input =
  di_grant_type :: "string option"
  di_ticket :: "string option"
  di_claim_token :: "claim_tokens option"
  di_claim_token_format :: "string option"
  di_permissions :: "permission list option"
  di_permission :: "js list option"
  di_scope :: "string option"
  di_refresh_token :: "string option"

definition empty_input :: dialog_input where
  "empty_input = \<lparr>di_grant_type = None, di_ticket = None, di_claim_token = None,
     di_claim_token_format = None, di_permissions = None, di_permission = None, di_scope = None,
     di_refresh_token = None\<rparr>"

record dialog_output =
  do_access_token :: string
  do_refresh_token :: "string option"
  do_token_type :: string
  do_partial :: bool
  do_expires_in :: "int option"
  do_derivation_resource_id :: "string option"

end
