(* ===== verification/Views.thy ===== *)
theory Views
  imports Types
begin

text \<open>
  The patterns of \<open>views/\<close>, \<open>dialog/Input.ts\<close> and \<open>tokens/AccessToken.ts\<close>, the typed
  readings of the values they accept, and the conversions between ODRL and internal permissions
  (\<open>views/Contract.ts\<close>, \<open>util/rdf/RequestProcessing.ts\<close>).
\<close>

subsection \<open>Contracts\<close>

definition JsonLdIdentifier :: pattern where
  "JsonLdIdentifier = PObject [(''@id'', PString)]"

definition StringOrJsonLdIdentifier :: pattern where
  "StringOrJsonLdIdentifier = PUnion [PString, JsonLdIdentifier]"

definition ODRLAssetCollection :: pattern where
  "ODRLAssetCollection = PObject [(''@type'', PString), (''source'', PString)]"

definition ODRLTargetOrAssetCollection :: pattern where
  "ODRLTargetOrAssetCollection = PUnion [StringOrJsonLdIdentifier, ODRLAssetCollection]"

definition ODRLConstraint :: pattern where
  "ODRLConstraint = PObject [
     (''@type'', POptional PString), (''@id'', POptional PString), (''uid'', POptional PString),
     (''leftOperand'', StringOrJsonLdIdentifier), (''operator'', StringOrJsonLdIdentifier),
     (''rightOperand'', StringOrJsonLdIdentifier)]"

definition ODRLPermission :: pattern where
  "ODRLPermission = PObject [
     (''@type'', POptional PString), (''@id'', POptional PString), (''uid'', POptional PString),
     (''action'', StringOrJsonLdIdentifier), (''target'', ODRLTargetOrAssetCollection),
     (''assigner'', StringOrJsonLdIdentifier), (''assignee'', StringOrJsonLdIdentifier),
     (''constraint'', POptional (PArray ODRLConstraint))]"

definition ODRLContract :: pattern where
  "ODRLContract = PObject [
     (''@context'', POptional PString), (''@type'', POptional PString), (''uid'', PString),
     (''permission'', PArray ODRLPermission),
     (''https://w3id.org/dpv#hasLegalBasis'', POptional StringOrJsonLdIdentifier),
     (''http://purl.org/dc/terms/description'', POptional PString),
     (''http://www.w3.org/ns/prov#wasDerivedFrom'', POptional (PArray PString))]"

text \<open>
  \<open>convertStringOrJsonLdIdentifierToString\<close>: the \<open>@id\<close> when there is a truthy one, otherwise
  the value itself, used as a string.
\<close>

definition convertIdentifier :: "js \<Rightarrow> js" where
  "convertIdentifier x = (if truthy (js_prop x ''@id'') then js_prop x ''@id'' else x)"

definition asset_collection_type :: js where
  "asset_collection_type = JStr ''http://www.w3.org/ns/odrl/2/AssetCollection''"

text \<open>\<open>url.startsWith(source)\<close> converts an absent source to the text \<open>undefined\<close>; the pattern has one.\<close>

definition isPolicyTarget :: "string \<Rightarrow> js \<Rightarrow> bool" where
  "isPolicyTarget url target =
     (if js_prop target ''@type'' = asset_collection_type
      then (case js_prop target ''source'' of JStr src \<Rightarrow> starts_with src url | _ \<Rightarrow> False)
      else js_prop target ''@id'' = JStr url \<and> url \<noteq> '''' \<or> target = JStr url)"

definition getPolicyTargets :: "js \<Rightarrow> js" where
  "getPolicyTargets target =
     (if js_prop target ''@type'' = asset_collection_type then js_prop target ''source''
      else if truthy (js_prop target ''@id'') then js_prop target ''@id'' else target)"

subsection \<open>Permissions as ODRL requests\<close>

definition css_modes :: string where "css_modes = ''urn:example:css:modes:''"
definition oac_modes :: string where "oac_modes = ''https://w3id.org/oac#''"

definition switchODRLandCSSPermission :: "string \<Rightarrow> error + string" where
  "switchODRLandCSSPermission p =
     (if starts_with css_modes p then Inr (replace_prefix css_modes oac_modes p)
      else if starts_with oac_modes p then Inr (replace_prefix oac_modes css_modes p)
      else Inl PlainError)"

text \<open>A target that is no string stays an object in the source's untyped result; it is refused here.\<close>

definition processRequestPermission :: "js \<Rightarrow> error + permission" where
  "processRequestPermission p =
     (case (convertIdentifier (js_prop p ''target''), convertIdentifier (js_prop p ''action'')) of
        (JStr t, JStr a) \<Rightarrow>
          (case switchODRLandCSSPermission a of
             Inl e \<Rightarrow> Inl e
           | Inr sc \<Rightarrow> Inr \<lparr>resource_id = t, resource_scopes = [sc]\<rparr>)
      | _ \<Rightarrow> Inl PlainError)"

lemma modes_disjoint [simp]:
  "\<not> starts_with css_modes (oac_modes @ r)" "\<not> starts_with oac_modes (css_modes @ r)"
  by (simp_all add: starts_with_def css_modes_def oac_modes_def)

lemma modes_neq [simp]: "css_modes @ a \<noteq> oac_modes @ b" "oac_modes @ b \<noteq> css_modes @ a"
  by (simp_all add: css_modes_def oac_modes_def)

lemma starts_with_append [simp]: "starts_with p (p @ r)"
  by (simp add: starts_with_def)

lemma replace_prefix_append [simp]: "replace_prefix p q (p @ r) = q @ r"
  by (simp add: replace_prefix_def)

lemma starts_withE: "starts_with p s \<Longrightarrow> (\<And>r. s = p @ r \<Longrightarrow> thesis) \<Longrightarrow> thesis"
  by (auto simp: starts_with_def prefix_def)

text \<open>
  the two spellings of an access mode are swapped by a partial function that is its own
  inverse: whenever the switch succeeds, switching the result gives the original mode back.
\<close>

theorem switch_involution:
  assumes "switchODRLandCSSPermission p = Inr q"
  shows "switchODRLandCSSPermission q = Inr p"
  using assms
  by (auto simp: switchODRLandCSSPermission_def elim!: starts_withE split: if_splits)

lemma switch_involution_witness:
  "switchODRLandCSSPermission ''https://w3id.org/oac#read'' = Inr ''urn:example:css:modes:read''"
  by (rule switch_involution) code_simp

subsection \<open>Dialog input\<close>

definition DialogInput :: pattern where
  "DialogInput = PObject [
     (''@context'', POptional PString), (''grant_type'', POptional PString),
     (''ticket'', POptional PString),
     (''claim_token'', POptional (PUnion [PString,
        PArray (PObject [(''claim_token'', POptional PString),
                         (''claim_token_format'', POptional PString)])])),
     (''claim_token_format'', POptional PString), (''pct'', POptional PString),
     (''rpt'', POptional PString), (''permissions'', POptional (PArray Permission)),
     (''permission'', POptional (PArray ODRLPermission)), (''scope'', POptional PString),
     (''refresh_token'', POptional PString)]"

text \<open>The typed reading of an accepted body.\<close>

definition decode_claim_tokens :: "js \<Rightarrow> claim_tokens option" where
  "decode_claim_tokens v = (case v of
      JStr t \<Rightarrow> Some (SingleToken t)
    | JArr xs \<Rightarrow> Some (TokenList (map (\<lambda>x.
        (js_str (js_prop x ''claim_token''), js_str (js_prop x ''claim_token_format''))) xs))
    | _ \<Rightarrow> None)"

definition decode_input :: "js \<Rightarrow> dialog_input" where
  "decode_input v = \<lparr>
     di_grant_type = js_str (js_prop v ''grant_type''),
     di_ticket = js_str (js_prop v ''ticket''),
     di_claim_token = decode_claim_tokens (js_prop v ''claim_token''),
     di_claim_token_format = js_str (js_prop v ''claim_token_format''),
     di_permissions = (case js_prop v ''permissions'' of
        JUndef \<Rightarrow> None | ps \<Rightarrow> Some (decode_permissions ps)),
     di_permission = (case js_prop v ''permission'' of JArr ps \<Rightarrow> Some ps | _ \<Rightarrow> None),
     di_scope = js_str (js_prop v ''scope''),
     di_refresh_token = js_str (js_prop v ''refresh_token'')\<rparr>"

subsection \<open>Resource descriptions\<close>

definition relations_pattern :: pattern where
  "relations_pattern = POptional (PUnion [PObject [(''@reverse'', PDict (PArray PString))],
     PDict (PArray PString)])"

definition ResourceDescription :: pattern where
  "ResourceDescription = PObject [
     (''resource_scopes'', PArray PString),
     (''resource_defaults'', relations_pattern),
     (''resource_relations'', relations_pattern),
     (''derived_from'', POptional (PArray (PObject [(''issuer'', PString),
        (''derivation_resource_id'', PString)]))),
     (''type'', POptional PString), (''name'', POptional PString),
     (''icon_uri'', POptional PString), (''description'', POptional PString)]"

definition decode_string :: "js \<Rightarrow> string" where
  "decode_string v = (case v of JStr s \<Rightarrow> s | _ \<Rightarrow> '''')"

definition decode_object :: "js \<Rightarrow> js obj option" where
  "decode_object v = (case v of JObj ps \<Rightarrow> Some ps | _ \<Rightarrow> None)"

definition decode_description :: "js \<Rightarrow> resource_description" where
  "decode_description v = \<lparr>
     rd_resource_scopes = (case js_prop v ''resource_scopes'' of JArr xs \<Rightarrow> js_strings xs | _ \<Rightarrow> []),
     rd_resource_defaults = decode_object (js_prop v ''resource_defaults''),
     rd_resource_relations = decode_object (js_prop v ''resource_relations''),
     rd_derived_from = (case js_prop v ''derived_from'' of
        JArr xs \<Rightarrow> Some (map (\<lambda>x. \<lparr>de_issuer = decode_string (js_prop x ''issuer''),
          de_derivation_resource_id = decode_string (js_prop x ''derivation_resource_id'')\<rparr>) xs)
      | _ \<Rightarrow> None),
     rd_name = js_str (js_prop v ''name''),
     rd_body = v\<rparr>"

subsection \<open>Access tokens\<close>

definition AccessToken :: pattern where
  "AccessToken = PObject [(''permissions'', PArray Permission), (''sub'', POptional PString),
     (''contract'', POptional ODRLContract)]"

subsection \<open>Encoding and decoding permissions\<close>

lemma decode_encode_permission [simp]: "decode_permission (encode_permission p) = p"
proof -
  have "js_strings (map JStr xs) = xs" for xs by (induction xs) auto
  then show ?thesis by (simp add: decode_permission_def encode_permission_def)
qed

lemma Permission_accepts: "reType (encode_permission p) Permission"
  by (auto simp: Permission_def encode_permission_def is_object_def)

lemma Permission_typed:
  assumes "reType v Permission"
  shows "\<exists>i xs. js_prop v ''resource_id'' = JStr i \<and> js_prop v ''resource_scopes'' = JArr (map JStr xs)
    \<and> decode_permission v = \<lparr>resource_id = i, resource_scopes = xs\<rparr>"
proof -
  obtain i ys where i: "js_prop v ''resource_id'' = JStr i"
    and ys: "js_prop v ''resource_scopes'' = JArr ys" "\<forall>y \<in> set ys. \<exists>s. y = JStr s"
    using assms by (auto simp: Permission_def)
  have "ys = map JStr (js_strings ys)" using ys(2) by (induction ys) auto
  with i ys(1) show ?thesis
    by (intro exI [of _ i] exI [of _ "js_strings ys"]) (simp add: decode_permission_def)
qed

text \<open>
  the permission pattern is exactly the typed record. Every record is accepted and read back
  unchanged, and a body is accepted if and only if its two fields are those of some record, which
  is then what the typed code reads.
\<close>

theorem permission_pattern_exact:
  "reType (encode_permission p) Permission \<and> decode_permission (encode_permission p) = p
   \<and> (reType v Permission \<longleftrightarrow> is_object v \<and> (\<exists>q. decode_permission v = q
        \<and> js_prop v ''resource_id'' = JStr (resource_id q)
        \<and> js_prop v ''resource_scopes'' = JArr (map JStr (resource_scopes q))))"
proof -
  have "is_object v" if "reType v Permission" using that by (simp add: Permission_def)
  moreover have "reType v Permission" if "is_object v" "js_prop v ''resource_id'' = JStr i"
    "js_prop v ''resource_scopes'' = JArr (map JStr xs)" for i xs
    using that by (auto simp: Permission_def)
  ultimately show ?thesis
    using Permission_typed [of v] by (auto simp: Permission_accepts)
qed

end
