(* ===== verification/RdfStore.thy ===== *)
theory RdfStore
  imports JsData
begin

text \<open>
  RDF terms, quads and the quad store. The store is the \<open>Store\<close> of the N3 package, which
  implements the documented RDF/JS dataset interface: a set of quads with pattern matching. The
  locale \<open>quad_store\<close> states that contract; the reference store, a list without duplicates,
  satisfies it and is what the components compute with.
\<close>

subsection \<open>Terms and quads\<close>

datatype rterm =
    NamedNode string
  | BlankNode string
  | RLiteral string string
  | DefaultGraph

fun term_value :: "rterm \<Rightarrow> string" where
  "term_value (NamedNode i) = i"
| "term_value (BlankNode i) = i"
| "term_value (RLiteral l t) = l"
| "term_value DefaultGraph = ''''"

datatype quad = Quad (subject: rterm) (predicate: rterm) (object: rterm) (graph: rterm)

text \<open>\<open>DataFactory.quad\<close> with three arguments: a quad of the default graph.\<close>

definition triple :: "rterm \<Rightarrow> rterm \<Rightarrow> rterm \<Rightarrow> quad" where
  "triple s p o' = Quad s p o' DefaultGraph"

lemma triple_sel [simp]:
  "subject (triple s p o') = s" "predicate (triple s p o') = p" "object (triple s p o') = o'"
  "graph (triple s p o') = DefaultGraph"
  by (simp_all add: triple_def)

lemma triple_inject [simp]: "triple s p o1 = triple s' p' o2 \<longleftrightarrow> s = s' \<and> p = p' \<and> o1 = o2"
  by (simp add: triple_def)

text \<open>A pattern position: \<open>null\<close> matches everything.\<close>

definition slot :: "rterm option \<Rightarrow> rterm \<Rightarrow> bool" where
  "slot p t = (case p of None \<Rightarrow> True | Some u \<Rightarrow> t = u)"

lemma slot_simps [simp]: "slot None t" "slot (Some u) t \<longleftrightarrow> t = u"
  by (simp_all add: slot_def)

definition matches :: "rterm option \<Rightarrow> rterm option \<Rightarrow> rterm option \<Rightarrow> quad \<Rightarrow> bool" where
  "matches s p o' q = (slot s (subject q) \<and> slot p (predicate q) \<and> slot o' (object q))"

subsection \<open>The contract of a quad store\<close>

locale quad_store =
  fixes quads :: "'st \<Rightarrow> quad set"
    and addQuads :: "'st \<Rightarrow> quad list \<Rightarrow> 'st"
    and removeQuads :: "'st \<Rightarrow> quad list \<Rightarrow> 'st"
    and getQuads :: "'st \<Rightarrow> rterm option \<Rightarrow> rterm option \<Rightarrow> rterm option \<Rightarrow> quad list"
    and getSubjects :: "'st \<Rightarrow> rterm option \<Rightarrow> rterm option \<Rightarrow> rterm list"
    and getObjects :: "'st \<Rightarrow> rterm option \<Rightarrow> rterm option \<Rightarrow> rterm list"
  assumes quads_add: "quads (addQuads st qs) = quads st \<union> set qs"
    and quads_remove: "quads (removeQuads st qs) = quads st - set qs"
    and set_getQuads: "set (getQuads st s p o') = {q \<in> quads st. matches s p o' q}"
    and set_getSubjects: "set (getSubjects st p o') = subject ` {q \<in> quads st. matches None p o' q}"
    and set_getObjects: "set (getObjects st s p) = object ` {q \<in> quads st. matches s p None q}"
begin

lemma add_remove_disjoint:
  "quads st \<inter> set qs = {} \<Longrightarrow> quads (removeQuads (addQuads st qs) qs) = quads st"
  by (auto simp: quads_add quads_remove)

lemma objects_after_add:
  "set (getObjects (addQuads st qs) s p) =
     set (getObjects st s p) \<union> object ` {q \<in> set qs. matches s p None q}"
  by (auto simp: set_getObjects quads_add)

lemma subjects_after_add:
  "set (getSubjects (addQuads st qs) p o') =
     set (getSubjects st p o') \<union> subject ` {q \<in> set qs. matches None p o' q}"
  by (auto simp: set_getSubjects quads_add)

lemma getQuads_empty_iff: "getQuads st s p o' = [] \<longleftrightarrow> (\<forall>q \<in> quads st. \<not> matches s p o' q)"
  using set_getQuads [of st s p o'] by (metis (mono_tags, lifting) empty_iff empty_set
      filter_False mem_Collect_eq neq_Nil_conv list.set_intros(1))

end

subsection \<open>The reference store\<close>

type_synonym store = "quad list"

definition add_quad :: "store \<Rightarrow> quad \<Rightarrow> store" where
  "add_quad st q = (if q \<in> set st then st else st @ [q])"

definition add_quads :: "store \<Rightarrow> quad list \<Rightarrow> store" where
  "add_quads st qs = foldl add_quad st qs"

definition remove_quads :: "store \<Rightarrow> quad list \<Rightarrow> store" where
  "remove_quads st qs = filter (\<lambda>q. q \<notin> set qs) st"

text \<open>\<open>new Store(quads)\<close>\<close>

definition new_store :: "quad list \<Rightarrow> store" where
  "new_store qs = add_quads [] qs"

definition get_quads :: "store \<Rightarrow> rterm option \<Rightarrow> rterm option \<Rightarrow> rterm option \<Rightarrow> quad list" where
  "get_quads st s p o' = filter (matches s p o') st"

definition get_subjects :: "store \<Rightarrow> rterm option \<Rightarrow> rterm option \<Rightarrow> rterm list" where
  "get_subjects st p o' = remdups (map subject (get_quads st None p o'))"

definition get_objects :: "store \<Rightarrow> rterm option \<Rightarrow> rterm option \<Rightarrow> rterm list" where
  "get_objects st s p = remdups (map object (get_quads st s p None))"

definition get_predicates :: "store \<Rightarrow> rterm option \<Rightarrow> rterm option \<Rightarrow> rterm list" where
  "get_predicates st s o' = remdups (map predicate (get_quads st s None o'))"

definition has_quad :: "store \<Rightarrow> quad \<Rightarrow> bool" where
  "has_quad st q = (q \<in> set st)"

definition count_quads :: "store \<Rightarrow> rterm option \<Rightarrow> rterm option \<Rightarrow> rterm option \<Rightarrow> nat" where
  "count_quads st s p o' = length (get_quads st s p o')"

definition difference :: "store \<Rightarrow> store \<Rightarrow> store" where
  "difference st st' = filter (\<lambda>q. q \<notin> set st') st"

lemma set_add_quad: "set (add_quad st q) = insert q (set st)"
  by (auto simp: add_quad_def)

lemma set_add_quads [simp]: "set (add_quads st qs) = set st \<union> set qs"
  unfolding add_quads_def by (induction qs arbitrary: st) (auto simp: set_add_quad)

lemma distinct_add_quad: "distinct st \<Longrightarrow> distinct (add_quad st q)"
  by (simp add: add_quad_def)

lemma distinct_add_quads: "distinct st \<Longrightarrow> distinct (add_quads st qs)"
  unfolding add_quads_def by (induction qs arbitrary: st) (auto simp: distinct_add_quad)

lemma set_remove_quads [simp]: "set (remove_quads st qs) = set st - set qs"
  by (auto simp: remove_quads_def)

lemma set_new_store [simp]: "set (new_store qs) = set qs"
  by (simp add: new_store_def)

lemma distinct_new_store: "distinct (new_store qs)"
  by (simp add: new_store_def distinct_add_quads)

lemma set_difference [simp]: "set (difference st st') = set st - set st'"
  by (auto simp: difference_def)

lemma set_get_quads: "set (get_quads st s p o') = {q \<in> set st. matches s p o' q}"
  by (simp add: get_quads_def)

lemma set_get_subjects: "set (get_subjects st p o') = subject ` {q \<in> set st. matches None p o' q}"
  by (simp add: get_subjects_def set_get_quads)

lemma set_get_objects: "set (get_objects st s p) = object ` {q \<in> set st. matches s p None q}"
  by (simp add: get_objects_def set_get_quads)

lemma set_get_predicates:
  "set (get_predicates st s o') = predicate ` {q \<in> set st. matches s None o' q}"
  by (simp add: get_predicates_def set_get_quads)

lemma has_quad_iff [simp]: "has_quad st q \<longleftrightarrow> q \<in> set st"
  by (simp add: has_quad_def)

lemma count_quads_eq_0: "count_quads st s p o' = 0 \<longleftrightarrow> (\<forall>q \<in> set st. \<not> matches s p o' q)"
  by (simp add: count_quads_def get_quads_def filter_empty_conv)

interpretation n3: quad_store set add_quads remove_quads get_quads get_subjects get_objects
  by unfold_locales
    (auto simp: set_get_quads set_get_subjects set_get_objects)

lemmas store_sets = set_get_quads set_get_subjects set_get_objects set_get_predicates

subsection \<open>Vocabulary of the policies\<close>

text \<open>The terms of \<open>ucp/util/Vocabularies.ts\<close> that occur in policies and collections.\<close>

definition odrl :: "string \<Rightarrow> rterm" where
  "odrl t = NamedNode (''http://www.w3.org/ns/odrl/2/'' @ t)"

definition odrl_p_relation :: rterm where
  "odrl_p_relation = NamedNode ''https://w3id.org/force/odrl3proposal#relation''"

definition ovc :: "string \<Rightarrow> rterm" where
  "ovc t = NamedNode (''https://w3id.org/gaia-x/ovc/1/'' @ t)"

definition owl_inverseOf :: rterm where
  "owl_inverseOf = NamedNode ''http://www.w3.org/2002/07/owl#inverseOf''"

definition sotw :: "string \<Rightarrow> rterm" where
  "sotw t = NamedNode (''https://w3id.org/force/sotw#'' @ t)"

definition dc :: "string \<Rightarrow> rterm" where
  "dc t = NamedNode (''http://purl.org/dc/terms/'' @ t)"

definition rdf_type :: rterm where
  "rdf_type = NamedNode ''http://www.w3.org/1999/02/22-rdf-syntax-ns#type''"

lemmas rdf_vocab = odrl_def odrl_p_relation_def ovc_def owl_inverseOf_def sotw_def dc_def rdf_type_def

lemma odrl_inject [simp]: "odrl s = odrl t \<longleftrightarrow> s = t"
  by (simp add: odrl_def)

lemma sotw_inject [simp]: "sotw s = sotw t \<longleftrightarrow> s = t"
  by (simp add: sotw_def)

lemma dc_inject [simp]: "dc s = dc t \<longleftrightarrow> s = t"
  by (simp add: dc_def)

lemma ovc_inject [simp]: "ovc s = ovc t \<longleftrightarrow> s = t"
  by (simp add: ovc_def)

lemma vocab_neq [simp]:
  "odrl t \<noteq> odrl_p_relation" "odrl_p_relation \<noteq> odrl t" "odrl t \<noteq> owl_inverseOf"
  "owl_inverseOf \<noteq> odrl t" "odrl t \<noteq> rdf_type" "rdf_type \<noteq> odrl t" "odrl t \<noteq> sotw u"
  "sotw u \<noteq> odrl t" "odrl t \<noteq> dc u" "dc u \<noteq> odrl t" "odrl t \<noteq> ovc u" "ovc u \<noteq> odrl t"
  "sotw u \<noteq> rdf_type" "rdf_type \<noteq> sotw u" "dc u \<noteq> rdf_type" "rdf_type \<noteq> dc u"
  "dc u \<noteq> odrl_p_relation" "odrl_p_relation \<noteq> dc u" "dc u \<noteq> owl_inverseOf"
  "owl_inverseOf \<noteq> dc u" "owl_inverseOf \<noteq> odrl_p_relation" "odrl_p_relation \<noteq> owl_inverseOf"
  "rdf_type \<noteq> odrl_p_relation" "odrl_p_relation \<noteq> rdf_type" "rdf_type \<noteq> owl_inverseOf"
  "owl_inverseOf \<noteq> rdf_type"
  by (simp_all add: rdf_vocab)

end
