(* ===== verification/Stores.thy ===== *)
theory Stores
  imports Views RdfStore
begin

text \<open>
  The key/value storages behind the components. \<open>KeyValueStorage\<close> and \<open>ExpiringStorage\<close>
  are interfaces of the Community Solid Server: the locales state what their documentation
  promises, and the reference storages (finite maps, and maps with an expiry time) are shown to
  keep those promises. The model's state keeps its storages as such maps.
\<close>

subsection \<open>Key/value storage\<close>

locale key_value_storage =
  fixes get :: "'m \<Rightarrow> 'k \<Rightarrow> 'v option"
    and set_entry :: "'m \<Rightarrow> 'k \<Rightarrow> 'v \<Rightarrow> 'm"
    and delete :: "'m \<Rightarrow> 'k \<Rightarrow> 'm"
  assumes get_set: "get (set_entry m k v) k' = (if k' = k then Some v else get m k')"
    and get_delete: "get (delete m k) k' = (if k' = k then None else get m k')"
begin

lemma get_set_same [simp]: "get (set_entry m k v) k = Some v"
  by (simp add: get_set)

lemma get_delete_same [simp]: "get (delete m k) k = None"
  by (simp add: get_delete)

lemma consumed_after_move:
  "k \<noteq> k' \<Longrightarrow> get (set_entry (delete m k) k' v) k = None"
  by (simp add: get_set get_delete)

lemma take_and_put_back: "get (delete (set_entry m k v) k) = get (delete m k)"
  by (rule ext) (simp add: get_set get_delete)

end

definition kv_get :: "('k \<rightharpoonup> 'v) \<Rightarrow> 'k \<Rightarrow> 'v option" where
  "kv_get m k = m k"

definition kv_set :: "('k \<rightharpoonup> 'v) \<Rightarrow> 'k \<Rightarrow> 'v \<Rightarrow> ('k \<rightharpoonup> 'v)" where
  "kv_set m k v = m(k \<mapsto> v)"

definition kv_delete :: "('k \<rightharpoonup> 'v) \<Rightarrow> 'k \<Rightarrow> ('k \<rightharpoonup> 'v)" where
  "kv_delete m k = m(k := None)"

definition kv_has :: "('k \<rightharpoonup> 'v) \<Rightarrow> 'k \<Rightarrow> bool" where
  "kv_has m k = (m k \<noteq> None)"

interpretation kv: key_value_storage kv_get kv_set kv_delete
  by unfold_locales (auto simp: kv_get_def kv_set_def kv_delete_def)

subsection \<open>Expiring storage\<close>

text \<open>
  \<open>set(key, value, duration)\<close> keeps the entry until \<open>now + duration\<close>; an entry whose
  expiry lies before \<open>now\<close> reads as absent.
\<close>

locale expiring_storage =
  fixes get :: "int \<Rightarrow> 'm \<Rightarrow> 'k \<Rightarrow> 'v option"
    and set_entry :: "int \<Rightarrow> 'm \<Rightarrow> 'k \<Rightarrow> 'v \<Rightarrow> int \<Rightarrow> 'm"
    and delete :: "'m \<Rightarrow> 'k \<Rightarrow> 'm"
  assumes get_set_live: "now \<le> t + d \<Longrightarrow> get now (set_entry t m k v d) k = Some v"
    and get_set_expired: "t + d < now \<Longrightarrow> get now (set_entry t m k v d) k = None"
    and get_set_other: "k' \<noteq> k \<Longrightarrow> get now (set_entry t m k v d) k' = get now m k'"
    and get_delete: "get now (delete m k) k' = (if k' = k then None else get now m k')"
begin

lemma get_set_iff:
  "get now (set_entry t m k v d) k = (if now \<le> t + d then Some v else None)"
  by (cases "now \<le> t + d") (auto simp: get_set_live get_set_expired)

lemma fresh_at_once [simp]: "0 \<le> d \<Longrightarrow> get t (set_entry t m k v d) k = Some v"
  by (simp add: get_set_live)

end

text \<open>An entry set without a duration never expires.\<close>

type_synonym 'v expiring = "string \<rightharpoonup> ('v \<times> int option)"

definition ex_get :: "int \<Rightarrow> 'v expiring \<Rightarrow> string \<Rightarrow> 'v option" where
  "ex_get now m k = (case m k of
      None \<Rightarrow> None
    | Some (v, None) \<Rightarrow> Some v
    | Some (v, Some expires) \<Rightarrow> if expires < now then None else Some v)"

definition ex_set :: "int \<Rightarrow> 'v expiring \<Rightarrow> string \<Rightarrow> 'v \<Rightarrow> int \<Rightarrow> 'v expiring" where
  "ex_set now m k v duration = m(k \<mapsto> (v, Some (now + duration)))"

definition ex_put :: "'v expiring \<Rightarrow> string \<Rightarrow> 'v \<Rightarrow> 'v expiring" where
  "ex_put m k v = m(k \<mapsto> (v, None))"

definition ex_delete :: "'v expiring \<Rightarrow> string \<Rightarrow> 'v expiring" where
  "ex_delete m k = m(k := None)"

interpretation ex: expiring_storage ex_get ex_set ex_delete
  by unfold_locales (auto simp: ex_get_def ex_set_def ex_delete_def)

text \<open>Read at any fixed time, an expiring storage without durations is a key/value storage.\<close>

interpretation ex_forever: key_value_storage "ex_get now" ex_put ex_delete for now
  by unfold_locales (auto simp: ex_get_def ex_put_def ex_delete_def)

subsection \<open>The state of the authorization server\<close>

text \<open>
  The storages the dialog components share, the cache of key sets (\<open>jwksRecord\<close> of
  \<open>util/JwtUtil.ts\<close>), the clock and the source of random identifiers.
  \<open>entropy\<close> is the sequence \<open>randomUUID()\<close> will return and \<open>drawn\<close> how much of it has been
  used; the clock does not move while one request is handled.
\<close>

record dialog_state =
  ticketStore :: "string \<rightharpoonup> ticket"
  refreshStore :: "refresh_information expiring"
  tokenStore :: "access_token expiring"
  registrationStore :: "string \<rightharpoonup> registration"
  derivationStore :: "string \<rightharpoonup> string"
  ownershipStore :: "string \<rightharpoonup> string list"
  policies :: store
  clientTable :: "client_registration list"
  patTable :: "pat_entry list"
  jwksRecord :: "string \<rightharpoonup> string"
  clock :: int
  entropy :: "nat \<Rightarrow> string"
  drawn :: nat

type_synonym 'a dialog = "(dialog_state, 'a) act"

definition fresh_id :: "dialog_state \<Rightarrow> string" where
  "fresh_id s = entropy s (drawn s)"

definition randomUUID :: "string dialog" where
  "randomUUID = (\<lambda>s. (Inr (fresh_id s), s\<lparr>drawn := Suc (drawn s)\<rparr>))"

lemma randomUUID_run [act_simps]:
  "randomUUID s = (Inr (fresh_id s), s\<lparr>drawn := Suc (drawn s)\<rparr>)"
  by (simp add: randomUUID_def)

lemma bind_randomUUID [simp]:
  "bind randomUUID f = (\<lambda>s. f (fresh_id s) (s\<lparr>drawn := Suc (drawn s)\<rparr>))"
  by (simp add: bind_def randomUUID_def fun_eq_iff)

definition empty_state :: dialog_state where
  "empty_state = \<lparr>ticketStore = Map.empty, refreshStore = Map.empty, tokenStore = Map.empty,
     registrationStore = Map.empty, derivationStore = Map.empty, ownershipStore = Map.empty,
     policies = [], clientTable = [], patTable = [], jwksRecord = Map.empty, clock = 0, entropy = (\<lambda>n. ''id-'' @ nat_str n), drawn = 0\<rparr>"

subsection \<open>Actions that change no storage\<close>

text \<open>Everything but the position in the source of identifiers and the cache of key sets.\<close>

definition stored :: "dialog_state \<Rightarrow> dialog_state" where
  "stored s = s\<lparr>drawn := 0, jwksRecord := Map.empty\<rparr>"

definition quiet :: "dialog_state \<Rightarrow> dialog_state \<Rightarrow> bool" where
  "quiet s t \<longleftrightarrow> stored t = stored s \<and> drawn s \<le> drawn t"

interpretation quiet: state_frame quiet
  by unfold_locales (auto simp: quiet_def)

lemma stored_fields:
  assumes "stored t = stored s"
  shows "ticketStore t = ticketStore s" "refreshStore t = refreshStore s"
    "tokenStore t = tokenStore s" "registrationStore t = registrationStore s"
    "derivationStore t = derivationStore s" "ownershipStore t = ownershipStore s"
    "policies t = policies s" "clock t = clock s" "entropy t = entropy s"
    "clientTable t = clientTable s" "patTable t = patTable s"
  using assms by (auto simp: stored_def dest: arg_cong [where f = ticketStore]
      arg_cong [where f = refreshStore] arg_cong [where f = tokenStore]
      arg_cong [where f = registrationStore] arg_cong [where f = derivationStore]
      arg_cong [where f = ownershipStore] arg_cong [where f = policies]
      arg_cong [where f = clock] arg_cong [where f = entropy]
      arg_cong [where f = clientTable] arg_cong [where f = patTable])

lemma quietD: "quiet s t \<Longrightarrow> stored t = stored s" "quiet s t \<Longrightarrow> drawn s \<le> drawn t"
  by (simp_all add: quiet_def)

lemma quiet_randomUUID: "keeps quiet randomUUID"
  by (simp add: keeps_def quiet_def stored_def randomUUID_def)

lemma same_is_quiet: "unchanged (\<lambda>s. s) m \<Longrightarrow> keeps quiet m"
  by (erule keeps_weaken) (simp add: quiet.refl)

lemmas quiet_intros = quiet.intros quiet_randomUUID

end
