(* ===== verification/Authorizers.thy ===== *)
theory Authorizers
  imports Stores
begin

text \<open>
  The authorizers of \<open>policies/authorizers/\<close> that do not read policies: everything, nothing,
  by WebID, and the one that delegates by URL namespace. The locale \<open>sound_authorizer\<close> is the
  contract the ticketing strategies rely on: an authorizer answers without changing any storage,
  and never grants a (resource, scope) pair that was not asked for.
\<close>

subsection \<open>The interface\<close>

text \<open>\<open>Partial<Permission>\<close>\<close>

record partial_permission =
  pp_resource_id :: "string option"
  pp_resource_scopes :: "string list option"

definition full :: "permission \<Rightarrow> partial_permission" where
  "full p = \<lparr>pp_resource_id = Some (resource_id p), pp_resource_scopes = Some (resource_scopes p)\<rparr>"

type_synonym authorizer =
  "claimset \<Rightarrow> partial_permission list option \<Rightarrow> permission list dialog"

locale sound_authorizer =
  fixes auth :: authorizer
  assumes reads_only: "keeps quiet (auth claims query)"
    and sound: "fst (auth claims (Some (map full qs)) s) = Inr ps \<Longrightarrow> access_of ps \<subseteq> access_of qs"
begin

lemma state_same: "auth claims query s = (r, t) \<Longrightarrow> quiet s t"
  using reads_only by (rule keepsD)

lemma stores_same: "auth claims query s = (r, t) \<Longrightarrow> stored t = stored s"
  by (rule quietD(1)) (rule state_same)

lemma sound_run: "auth claims (Some (map full qs)) s = (Inr ps, t) \<Longrightarrow> access_of ps \<subseteq> access_of qs"
  using sound [of claims qs s ps] by simp

lemma no_query_no_access: "auth claims (Some []) s = (Inr ps, t) \<Longrightarrow> access_of ps = {}"
  using sound_run [of claims "[]" s ps t] by simp

end

subsection \<open>\<open>AllAuthorizer\<close>, \<open>NoneAuthorizer\<close>, \<open>WebIdAuthorizer\<close>\<close>

definition grant_as_asked :: "partial_permission \<Rightarrow> permission" where
  "grant_as_asked p = \<lparr>
     resource_id = (case pp_resource_id p of None \<Rightarrow> ANY_RESOURCE | Some r \<Rightarrow> r),
     resource_scopes = (case pp_resource_scopes p of None \<Rightarrow> [ANY_SCOPE] | Some sc \<Rightarrow> sc)\<rparr>"

lemma grant_as_asked_full [simp]: "grant_as_asked (full p) = p"
  by (simp add: grant_as_asked_def full_def)

lemma map_grant_full [simp]: "map (grant_as_asked \<circ> full) ps = ps"
  by (induction ps) auto

definition AllAuthorizer :: authorizer where
  "AllAuthorizer claims query = (case query of
      Some q \<Rightarrow> return (map grant_as_asked q)
    | None \<Rightarrow> return [\<lparr>resource_id = ANY_RESOURCE, resource_scopes = [ANY_SCOPE]\<rparr>])"

definition NoneAuthorizer :: authorizer where
  "NoneAuthorizer claims query = return []"

definition WebIdAuthorizer :: "string list \<Rightarrow> authorizer" where
  "WebIdAuthorizer webids claims query =
     (case obj_get claims WEBID of
        None \<Rightarrow> return []
      | Some vs \<Rightarrow>
          if \<not> list_ex (\<lambda>v. case v of JStr w \<Rightarrow> w \<in> set webids | _ \<Rightarrow> False) vs then return []
          else return (map grant_as_asked (case query of None \<Rightarrow> [] | Some q \<Rightarrow> q)))"

interpretation all_auth: sound_authorizer AllAuthorizer
  by unfold_locales
    (auto simp: AllAuthorizer_def split: option.splits intro!: quiet_intros)

interpretation none_auth: sound_authorizer NoneAuthorizer
  by unfold_locales (auto simp: NoneAuthorizer_def intro!: quiet_intros)

interpretation webid_auth: sound_authorizer "WebIdAuthorizer webids" for webids
  by unfold_locales
    (auto simp: WebIdAuthorizer_def split: option.splits if_splits intro!: quiet_intros)

subsection \<open>\<open>NamespacedAuthorizer\<close>\<close>

text \<open>
  Authorizers are objects and the grouping is by identity, so the configuration maps a namespace
  to a reference and \<open>impl\<close> says what each reference does (two namespaces may share one).
  \<open>url_pathname\<close> stands for \<open>new URL(s).pathname\<close>, \<open>None\<close> when the constructor throws.
\<close>

type_synonym auth_ref = nat

record namespaced =
  ns_authorizers :: "auth_ref obj"
  ns_fallback :: auth_ref
  ns_position :: nat

definition findNamespace ::
  "namespaced \<Rightarrow> (string \<Rightarrow> string option) \<Rightarrow> string option \<Rightarrow> string option dialog" where
  "findNamespace cfg url_pathname resourceId =
     (if \<not> truthy_opt resourceId then return None
      else bind (gets (\<lambda>s. kv_get (registrationStore s) (the resourceId))) (\<lambda>registration.
        case registration of
          None \<Rightarrow> return None
        | Some reg \<Rightarrow>
            (let name = rd_name (reg_description reg) in
             if \<not> truthy_opt name then return None
             else case url_pathname (the name) of
                 None \<Rightarrow> throw PlainError
               | Some path \<Rightarrow>
                   (let segments = split_on (CHR ''/'') path in
                    return (Some (if ns_position cfg < length segments
                                  then segments ! ns_position cfg else ''''))))))"

text \<open>\<open>(ns && this.authorizers[ns]) || this.fallback\<close>\<close>

definition pick_authorizer :: "namespaced \<Rightarrow> string option \<Rightarrow> auth_ref" where
  "pick_authorizer cfg ns =
     (if truthy_opt ns
      then (case obj_get (ns_authorizers cfg) (the ns) of None \<Rightarrow> ns_fallback cfg | Some r \<Rightarrow> r)
      else ns_fallback cfg)"

definition group_add :: "auth_ref \<Rightarrow> 'p \<Rightarrow> (auth_ref \<times> 'p list) list \<Rightarrow> (auth_ref \<times> 'p list) list" where
  "group_add r p groups =
     AList.update r (case map_of groups r of Some ps \<Rightarrow> ps @ [p] | None \<Rightarrow> [p]) groups"

definition route_permission ::
  "namespaced \<Rightarrow> (string \<Rightarrow> string option) \<Rightarrow> partial_permission \<Rightarrow> auth_ref dialog" where
  "route_permission cfg url_pathname p =
     bind (if truthy_opt (pp_resource_id p) then findNamespace cfg url_pathname (pp_resource_id p)
           else return None)
       (\<lambda>ns. return (pick_authorizer cfg ns))"

definition NamespacedAuthorizer ::
  "namespaced \<Rightarrow> (string \<Rightarrow> string option) \<Rightarrow> (auth_ref \<Rightarrow> authorizer) \<Rightarrow> authorizer" where
  "NamespacedAuthorizer cfg url_pathname impl claims query =
     (case query of
        None \<Rightarrow> return []
      | Some [] \<Rightarrow> return []
      | Some q \<Rightarrow>
          bind (fold_act (\<lambda>groups p.
              bind (route_permission cfg url_pathname p) (\<lambda>r. return (group_add r p groups))) [] q)
            (\<lambda>groups. fold_act (\<lambda>acc (r, ps).
              bind (impl r claims (Some ps)) (\<lambda>granted. return (acc @ granted))) [] groups))"

subsection \<open>The grouping is a partition by authorizer\<close>

fun group_all :: "('p \<Rightarrow> auth_ref) \<Rightarrow> 'p list \<Rightarrow> (auth_ref \<times> 'p list) list \<Rightarrow> (auth_ref \<times> 'p list) list"
where
  "group_all route [] groups = groups"
| "group_all route (p # ps) groups = group_all route ps (group_add (route p) p groups)"

lemma map_of_group_add:
  "map_of (group_add r p g) r' =
     (if r' = r then Some (case map_of g r of Some ps \<Rightarrow> ps @ [p] | None \<Rightarrow> [p]) else map_of g r')"
  by (simp add: group_add_def update_conv)

lemma distinct_group_add: "distinct (map fst g) \<Longrightarrow> distinct (map fst (group_add r p g))"
  by (simp add: group_add_def distinct_update)

lemma distinct_group_all: "distinct (map fst g) \<Longrightarrow> distinct (map fst (group_all route ps g))"
  by (induction ps arbitrary: g) (simp_all add: distinct_group_add)

lemma map_of_group_all:
  "map_of (group_all route ps g) r =
     (case map_of g r of
        Some qs \<Rightarrow> Some (qs @ filter (\<lambda>p. route p = r) ps)
      | None \<Rightarrow> if filter (\<lambda>p. route p = r) ps = [] then None
                else Some (filter (\<lambda>p. route p = r) ps))"
  by (induction ps arbitrary: g) (auto simp: map_of_group_add split: option.splits)

lemma group_all_mem:
  assumes "(r, qs) \<in> set (group_all route ps [])"
  shows "qs = filter (\<lambda>p. route p = r) ps"
proof -
  have "map_of (group_all route ps []) r = Some qs"
    using assms distinct_group_all [of "[]" route ps] by simp
  then show ?thesis by (simp add: map_of_group_all split: if_splits)
qed

lemma set_map_of_group_all:
  "distinct (map fst g) \<Longrightarrow>
   set (map fst (group_all route ps g)) = fst ` set g \<union> route ` set ps"
  by (induction ps arbitrary: g) (auto simp: group_add_def dom_update distinct_update)

lemma keys_group_all: "fst ` set (group_all route ps []) = route ` set ps"
  using set_map_of_group_all [of "[]" route ps] by simp

subsection \<open>What the delegation returns\<close>

text \<open>Where a permission goes, read off the state: the lookup changes nothing.\<close>

definition route_of ::
  "namespaced \<Rightarrow> (string \<Rightarrow> string option) \<Rightarrow> dialog_state \<Rightarrow> partial_permission \<Rightarrow> auth_ref" where
  "route_of cfg url_pathname s p = projr (fst (route_permission cfg url_pathname p s))"

lemma findNamespace_reads: "unchanged (\<lambda>s. s) (findNamespace cfg url_pathname i)"
  unfolding findNamespace_def by (intro unchanged_intros)

lemma route_permission_reads: "unchanged (\<lambda>s. s) (route_permission cfg url_pathname p)"
  unfolding route_permission_def
  by (intro unchanged_intros findNamespace_reads)

lemma group_fold:
  assumes "fold_act (\<lambda>groups p.
      bind (route_permission cfg url_pathname p) (\<lambda>r. return (group_add r p groups))) g q s = (Inr gs, t)"
  shows "t = s \<and> gs = group_all (route_of cfg url_pathname s) q g"
  using assms
proof (induction q arbitrary: g)
  case (Cons p q)
  obtain r s' where r: "route_permission cfg url_pathname p s = (Inr r, s')"
    and rest: "fold_act (\<lambda>groups p. bind (route_permission cfg url_pathname p)
        (\<lambda>r. return (group_add r p groups))) (group_add r p g) q s' = (Inr gs, t)"
    using Cons.prems by (auto simp: bind_eq_Inr)
  have "s' = s" using keepsD [OF route_permission_reads r] .
  moreover have "route_of cfg url_pathname s p = r" by (simp add: route_of_def r)
  ultimately show ?case using Cons.IH rest by simp
qed simp

text \<open>The answer of one authorizer to its part of the query, asked in a state with the same storages.\<close>

definition answers ::
  "authorizer \<Rightarrow> dialog_state \<Rightarrow> claimset \<Rightarrow> partial_permission list \<Rightarrow> permission list \<Rightarrow> bool" where
  "answers auth s claims ps granted \<longleftrightarrow>
     (\<exists>s' t. stored s' = stored s \<and> auth claims (Some ps) s' = (Inr granted, t))"

lemma answers_stored: "stored s' = stored s \<Longrightarrow> answers auth s' claims ps g = answers auth s claims ps g"
  by (simp add: answers_def)

lemma delegate_fold:
  assumes "\<And>r. sound_authorizer (impl r)"
    and "fold_act (\<lambda>acc (r, ps).
      bind (impl r claims (Some ps)) (\<lambda>granted. return (acc @ granted))) acc gs s = (Inr out, t)"
  shows "\<exists>answer. out = acc @ concat answer \<and>
     list_all2 (\<lambda>(r, ps) granted. answers (impl r) s claims ps granted) gs answer"
  using assms(2)
proof (induction gs arbitrary: acc s)
  case (Cons g gs)
  obtain r ps where g: "g = (r, ps)" by force
  obtain granted s' where run: "impl r claims (Some ps) s = (Inr granted, s')"
    and rest: "fold_act (\<lambda>acc (r, ps).
      bind (impl r claims (Some ps)) (\<lambda>granted. return (acc @ granted))) (acc @ granted) gs s'
        = (Inr out, t)"
    using Cons.prems unfolding g by (auto simp: bind_eq_Inr)
  have same: "stored s' = stored s" using sound_authorizer.stores_same [OF assms(1) run] .
  obtain answer where "out = (acc @ granted) @ concat answer"
    "list_all2 (\<lambda>(r, ps) granted. answers (impl r) s' claims ps granted) gs answer"
    using Cons.IH [OF rest] by blast
  moreover have "answers (impl r) s claims ps granted" using run by (auto simp: answers_def)
  ultimately show ?case
    using same by (intro exI [of _ "granted # answer"]) (simp add: g answers_stored [OF same])
qed simp

lemma namespaced_reads:
  assumes "\<And>r. sound_authorizer (impl r)"
  shows "keeps quiet (NamespacedAuthorizer cfg url_pathname impl claims query)"
  unfolding NamespacedAuthorizer_def
  by (intro quiet_intros same_is_quiet [OF route_permission_reads]
      sound_authorizer.reads_only assms)

text \<open>
  The answer is the concatenation, over the authorizers some permission is routed to, of what each
  says about exactly the permissions routed to it.
\<close>

lemma namespaced_run:
  assumes snd: "\<And>r. sound_authorizer (impl r)"
    and run: "NamespacedAuthorizer cfg url_pathname impl claims (Some q) s = (Inr out, t)"
  shows "\<exists>rs answer. distinct rs \<and> set rs = route_of cfg url_pathname s ` set q \<and>
     out = concat answer \<and>
     list_all2 (\<lambda>r. answers (impl r) s claims (filter (\<lambda>p. route_of cfg url_pathname s p = r) q))
       rs answer"
proof (cases q)
  case Nil
  with run show ?thesis by (auto simp: NamespacedAuthorizer_def)
next
  case (Cons p0 q0)
  let ?route = "route_of cfg url_pathname s"
  let ?gs = "group_all ?route q []"
  from run Cons obtain gs s' where
    g: "fold_act (\<lambda>groups p. bind (route_permission cfg url_pathname p)
          (\<lambda>r. return (group_add r p groups))) [] q s = (Inr gs, s')" and
    d: "fold_act (\<lambda>acc (r, ps).
      bind (impl r claims (Some ps)) (\<lambda>granted. return (acc @ granted))) [] gs s' = (Inr out, t)"
    by (auto simp: NamespacedAuthorizer_def bind_eq_Inr)
  have s': "s' = s" and gs: "gs = ?gs" using group_fold [OF g] by simp_all
  obtain answer where out: "out = concat answer"
    and each: "list_all2 (\<lambda>(r, ps) granted. answers (impl r) s claims ps granted) ?gs answer"
    using delegate_fold [OF snd d] unfolding s' gs by auto
  have "list_all2 (\<lambda>r. answers (impl r) s claims (filter (\<lambda>p. ?route p = r) q)) (map fst ?gs) answer"
    unfolding list.rel_map
    using each by (rule list.rel_mono_strong) (auto dest!: group_all_mem)
  then show ?thesis
    using out by (intro exI [of _ "map fst ?gs"] exI [of _ answer])
      (simp add: distinct_group_all keys_group_all)
qed

lemma namespaced_sound:
  assumes snd: "\<And>r. sound_authorizer (impl r)"
  shows "sound_authorizer (NamespacedAuthorizer cfg url_pathname impl)"
proof
  show "keeps quiet (NamespacedAuthorizer cfg url_pathname impl claims query)" for claims query
    using snd by (rule namespaced_reads)
next
  fix claims qs s ps
  assume "fst (NamespacedAuthorizer cfg url_pathname impl claims (Some (map full qs)) s) = Inr ps"
  from namespaced_run [OF snd run_fst [OF this]] obtain rs answer where ps: "ps = concat answer"
    and each: "list_all2 (\<lambda>r. answers (impl r) s claims
        (filter (\<lambda>p. route_of cfg url_pathname s p = r) (map full qs))) rs answer"
    by (elim exE conjE)
  have "access_of granted \<subseteq> access_of qs" if granted: "granted \<in> set answer" for granted
  proof -
    obtain r where "answers (impl r) s claims
        (filter (\<lambda>p. route_of cfg url_pathname s p = r) (map full qs)) granted"
      using each granted by (auto simp: list_all2_conv_all_nth in_set_conv_nth)
    then obtain s' t where run: "impl r claims
        (Some (map full (filter (\<lambda>p. route_of cfg url_pathname s (full p) = r) qs))) s' = (Inr granted, t)"
      by (auto simp: answers_def filter_map o_def)
    have "access_of granted \<subseteq> access_of (filter (\<lambda>p. route_of cfg url_pathname s (full p) = r) qs)"
      using sound_authorizer.sound_run [OF snd run] .
    also have "\<dots> \<subseteq> access_of qs" by (rule access_of_mono) auto
    finally show ?thesis .
  qed
  then show "access_of ps \<subseteq> access_of qs" by (auto simp: ps access_of_concat)
qed

end
