(* ===== verification/SimpleOdrl.thy ===== *)
theory SimpleOdrl
  imports Authorizers
begin

text \<open>
  \<open>policies/authorizers/SimpleOdrlAuthorizer.ts\<close>: evaluation of direct ODRL permissions and
  prohibitions, with a fallback authorizer for what it cannot judge. \<open>parse_date\<close> stands for
  \<open>new Date(string)\<close> (\<open>None\<close> is an invalid date, for which every comparison is false) and
  \<open>query_json\<close> for \<open>jp.query\<close> of the jsonpath package (\<open>None\<close> when it throws). The third
  verdict of a constraint, "too complex", is \<open>None\<close>.
\<close>

subsection \<open>Scopes and identifiers\<close>

definition css_mode :: "string \<Rightarrow> string" where
  "css_mode m = ''urn:example:css:modes:'' @ m"

definition odrl_iri :: "string \<Rightarrow> string" where
  "odrl_iri t = ''http://www.w3.org/ns/odrl/2/'' @ t"

definition scopeCssToOdrl :: "string obj" where
  "scopeCssToOdrl = map (\<lambda>m. (css_mode m, odrl_iri m)) [''read'', ''append'', ''create'', ''delete'', ''write'']"

definition to_odrl_scope :: "string \<Rightarrow> string" where
  "to_odrl_scope sc = (case obj_get scopeCssToOdrl sc of None \<Rightarrow> sc | Some a \<Rightarrow> a)"

definition anonymous_id :: string where
  "anonymous_id = ''urn:solidlab:uma:id:anonymous''"

text \<open>
  A string passed where the N3 store expects a term is an internal identifier: the empty string
  is no restriction, \<open>_:x\<close> a blank node, anything else (literals apart) an IRI.
\<close>

definition id_slot :: "string \<Rightarrow> rterm option" where
  "id_slot i = (if i = '''' then None
                else if starts_with ''_:'' i then Some (BlankNode (drop 2 i))
                else Some (NamedNode i))"

subsection \<open>Constraints\<close>

record policy_constraint =
  leftOperand :: rterm
  operator :: rterm
  rightOperand :: rterm
  credentialSubjectType :: "rterm option"

text \<open>\<open>getObjects(s, p, null)[0]\<close>\<close>

definition first_object :: "store \<Rightarrow> rterm \<Rightarrow> rterm \<Rightarrow> rterm option" where
  "first_object st s p = (case get_objects st (Some s) (Some p) of [] \<Rightarrow> None | t # _ \<Rightarrow> Some t)"

definition read_constraint :: "store \<Rightarrow> rterm \<Rightarrow> rterm \<Rightarrow> policy_constraint option" where
  "read_constraint st left c =
     (case (first_object st c left, first_object st c (odrl ''operator''),
            first_object st c (odrl ''rightOperand'')) of
        (Some l, Some p, Some r) \<Rightarrow>
          Some \<lparr>leftOperand = l, operator = p, rightOperand = r,
                credentialSubjectType = first_object st c (ovc ''credentialSubjectType'')\<rparr>
      | _ \<Rightarrow> None)"

text \<open>The \<open>map\<close> followed by the \<open>some\<close> that looks for missing parts.\<close>

fun read_all :: "('c \<Rightarrow> 'r option) \<Rightarrow> 'c list \<Rightarrow> 'r list option" where
  "read_all f [] = Some []"
| "read_all f (c # cs) =
     (case (f c, read_all f cs) of (Some r, Some rs) \<Rightarrow> Some (r # rs) | _ \<Rightarrow> None)"

text \<open>
  \<open>dateComparators\<close>. The comparator for \<open>eq\<close> compares two fresh \<open>Date\<close> objects with
  \<open>===\<close>, which is identity of objects, so it is false whatever the times are.
\<close>

definition dateComparator :: "string \<Rightarrow> (int \<Rightarrow> int option \<Rightarrow> bool) option" where
  "dateComparator op =
     (if op = odrl_iri ''lt'' then Some (\<lambda>a b. case b of None \<Rightarrow> False | Some t \<Rightarrow> a < t)
      else if op = odrl_iri ''lteq'' then Some (\<lambda>a b. case b of None \<Rightarrow> False | Some t \<Rightarrow> a \<le> t)
      else if op = odrl_iri ''eq'' then Some (\<lambda>a b. False)
      else if op = odrl_iri ''gt'' then Some (\<lambda>a b. case b of None \<Rightarrow> False | Some t \<Rightarrow> a > t)
      else if op = odrl_iri ''gteq'' then Some (\<lambda>a b. case b of None \<Rightarrow> False | Some t \<Rightarrow> a \<ge> t)
      else None)"

definition claimOperandMap :: "string obj" where
  "claimOperandMap = [(odrl_iri ''deliveryChannel'', CLIENTID)]"

definition claims_include :: "claimset \<Rightarrow> string \<Rightarrow> string \<Rightarrow> bool" where
  "claims_include claims key v =
     (case obj_get claims key of None \<Rightarrow> False | Some vs \<Rightarrow> JStr v \<in> set vs)"

text \<open>One turn of the loop: \<open>Some True\<close> goes on, the others return.\<close>

definition check_constraint ::
  "(string \<Rightarrow> int option) \<Rightarrow> int \<Rightarrow> claimset \<Rightarrow> policy_constraint \<Rightarrow> bool option" where
  "check_constraint parse_date now claims c =
     (if leftOperand c = odrl ''dateTime'' then
        (case dateComparator (term_value (operator c)) of
           None \<Rightarrow> Some False
         | Some cmp \<Rightarrow> Some (cmp now (parse_date (term_value (rightOperand c)))))
      else case obj_get claimOperandMap (term_value (leftOperand c)) of
        Some claimKey \<Rightarrow>
          Some (operator c = odrl ''eq''
                \<and> claims_include claims claimKey (term_value (rightOperand c)))
      | None \<Rightarrow>
          (case obj_get claims (term_value (leftOperand c)) of
             None \<Rightarrow> None
           | Some vs \<Rightarrow>
               if list_all is_string vs \<and> operator c = odrl ''eq''
               then Some (JStr (term_value (rightOperand c)) \<in> set vs)
               else None))"

fun all_constraints :: "('c \<Rightarrow> bool option) \<Rightarrow> 'c list \<Rightarrow> bool option" where
  "all_constraints chk [] = Some True"
| "all_constraints chk (c # cs) =
     (case chk c of None \<Rightarrow> None | Some False \<Rightarrow> Some False | Some True \<Rightarrow> all_constraints chk cs)"

definition validateConstraints ::
  "(string \<Rightarrow> int option) \<Rightarrow> int \<Rightarrow> rterm \<Rightarrow> store \<Rightarrow> claimset \<Rightarrow> bool option" where
  "validateConstraints parse_date now rule st claims =
     (case read_all (read_constraint st (odrl ''leftOperand''))
             (get_objects st (Some rule) (Some (odrl ''constraint''))) of
        None \<Rightarrow> None
      | Some cs \<Rightarrow> all_constraints (check_constraint parse_date now claims) cs)"

text \<open>\<open>xs.flat()\<close>: one level.\<close>

definition flat :: "js list \<Rightarrow> js list" where
  "flat xs = concat (map (\<lambda>x. case x of JArr ys \<Rightarrow> ys | _ \<Rightarrow> [x]) xs)"

definition vc_matches :: "(js \<Rightarrow> string \<Rightarrow> js list option) \<Rightarrow> policy_constraint \<Rightarrow> js \<Rightarrow> error + bool" where
  "vc_matches query_json c vc =
     (case query_json vc (term_value (leftOperand c)) of
        None \<Rightarrow> Inl PlainError
      | Some results \<Rightarrow>
          if JStr (term_value (rightOperand c)) \<notin> set (flat results) then Inr False
          else (case credentialSubjectType c of
             None \<Rightarrow> Inr True
           | Some t \<Rightarrow>
               (case query_json vc ''$.type'' of
                  None \<Rightarrow> Inl PlainError
                | Some types \<Rightarrow> Inr (JStr (term_value t) \<in> set (flat types)))))"

text \<open>\<open>some\<close> stops at the first match and at the first exception.\<close>

fun some_matches :: "('v \<Rightarrow> error + bool) \<Rightarrow> 'v list \<Rightarrow> error + bool" where
  "some_matches f [] = Inr False"
| "some_matches f (v # vs) =
     (case f v of Inl e \<Rightarrow> Inl e | Inr True \<Rightarrow> Inr True | Inr False \<Rightarrow> some_matches f vs)"

fun all_vc_constraints ::
  "(js \<Rightarrow> string \<Rightarrow> js list option) \<Rightarrow> js list \<Rightarrow> policy_constraint list \<Rightarrow> error + bool option" where
  "all_vc_constraints query_json vcs [] = Inr (Some True)"
| "all_vc_constraints query_json vcs (c # cs) =
     (if operator c \<noteq> odrl ''eq'' then Inr None
      else (case some_matches (vc_matches query_json c) vcs of
          Inl e \<Rightarrow> Inl e
        | Inr False \<Rightarrow> Inr (Some False)
        | Inr True \<Rightarrow> all_vc_constraints query_json vcs cs))"

definition validateOvcConstraints ::
  "(js \<Rightarrow> string \<Rightarrow> js list option) \<Rightarrow> rterm \<Rightarrow> store \<Rightarrow> claimset \<Rightarrow> error + bool option" where
  "validateOvcConstraints query_json rule st claims =
     (case read_all (read_constraint st (ovc ''leftOperand''))
             (get_objects st (Some rule) (Some (ovc ''constraint''))) of
        None \<Rightarrow> Inr None
      | Some [] \<Rightarrow> Inr (Some True)
      | Some cs \<Rightarrow>
          (case obj_get claims VC of
             None \<Rightarrow> Inr (Some False)
           | Some [] \<Rightarrow> Inr (Some False)
           | Some vcs \<Rightarrow> all_vc_constraints query_json vcs cs))"

subsection \<open>The rules that apply to a request\<close>

definition target_rules :: "store \<Rightarrow> string \<Rightarrow> rterm list" where
  "target_rules st resource =
     concat (map (\<lambda>t. get_subjects st (Some (odrl ''target'')) (Some t))
       (NamedNode resource # get_objects st (id_slot resource) (Some (odrl ''partOf''))))"

definition action_matches :: "store \<Rightarrow> string \<Rightarrow> rterm \<Rightarrow> bool" where
  "action_matches st sc rule =
     (has_quad st (triple rule (odrl ''action'') (NamedNode sc))
      \<or> ((sc = odrl_iri ''append'' \<or> sc = odrl_iri ''write'')
         \<and> has_quad st (triple rule (odrl ''action'') (odrl ''modify''))))"

definition request_scope :: "string \<Rightarrow> string" where
  "request_scope sc = (if starts_with ''urn:example:css:modes:'' sc then to_odrl_scope sc else sc)"

definition request_assignees :: "store \<Rightarrow> claimset \<Rightarrow> rterm list" where
  "request_assignees st claims = NamedNode anonymous_id #
     concat (map (\<lambda>user. NamedNode user # get_objects st (id_slot user) (Some (odrl ''partOf'')))
       (js_strings (case obj_get claims WEBID of None \<Rightarrow> [] | Some vs \<Rightarrow> vs)))"

definition assignee_matches :: "store \<Rightarrow> rterm list \<Rightarrow> rterm \<Rightarrow> bool" where
  "assignee_matches st assignees rule =
     (let ruleAssignees = get_objects st (Some rule) (Some (odrl ''assignee'')) in
      ruleAssignees = [] \<or> list_ex (\<lambda>r. r \<in> set assignees) ruleAssignees)"

text \<open>The loop over the rules: \<open>None\<close> is the early \<open>return\<close>.\<close>

fun valid_rules ::
  "(rterm \<Rightarrow> bool option) \<Rightarrow> (rterm \<Rightarrow> error + bool option) \<Rightarrow> rterm list \<Rightarrow> error + rterm list option"
where
  "valid_rules constraints vc_constraints [] = Inr (Some [])"
| "valid_rules constraints vc_constraints (r # rs) =
     (let verdict = constraints r in
      case vc_constraints r of
        Inl e \<Rightarrow> Inl e
      | Inr vc_verdict \<Rightarrow>
          if verdict = Some True \<and> vc_verdict = Some True
          then (case valid_rules constraints vc_constraints rs of
              Inl e \<Rightarrow> Inl e
            | Inr None \<Rightarrow> Inr None
            | Inr (Some ok) \<Rightarrow> Inr (Some (r # ok)))
          else if verdict = None \<or> vc_verdict = None then Inr None
          else valid_rules constraints vc_constraints rs)"

fun judge_rules :: "store \<Rightarrow> string \<Rightarrow> rterm list \<Rightarrow> string list option" where
  "judge_rules st oldScope [] = Some [oldScope]"
| "judge_rules st oldScope (r # rs) =
     (let predicates = get_predicates st None (Some r) in
      if predicates = [] then None
      else if odrl ''prohibition'' \<in> set predicates then Some []
      else if odrl ''permission'' \<notin> set predicates then None
      else judge_rules st oldScope rs)"

text \<open>The rules left after the three filters of \<open>getPermissions\<close>.\<close>

definition matching_rules :: "store \<Rightarrow> claimset \<Rightarrow> string \<Rightarrow> string \<Rightarrow> rterm list" where
  "matching_rules st claims resource sc =
     filter (assignee_matches st (request_assignees st claims))
       (filter (action_matches st (request_scope sc)) (target_rules st resource))"

definition getPermissions ::
  "(string \<Rightarrow> int option) \<Rightarrow> (js \<Rightarrow> string \<Rightarrow> js list option) \<Rightarrow> int \<Rightarrow> store \<Rightarrow> claimset \<Rightarrow>
   string \<Rightarrow> string \<Rightarrow> error + string list option" where
  "getPermissions parse_date query_json now st claims resource sc =
     (let rules = matching_rules st claims resource sc in
      if rules = [] then Inr (Some [])
      else (case valid_rules (\<lambda>r. validateConstraints parse_date now r st claims)
                   (\<lambda>r. validateOvcConstraints query_json r st claims) rules of
          Inl e \<Rightarrow> Inl e
        | Inr None \<Rightarrow> Inr None
        | Inr (Some []) \<Rightarrow> Inr (Some [])
        | Inr (Some ok) \<Rightarrow> Inr (judge_rules st sc ok)))"

subsection \<open>\<open>permissions\<close>\<close>

fun eval_scopes :: "(string \<Rightarrow> error + string list option) \<Rightarrow> string list \<Rightarrow> error + string list option"
where
  "eval_scopes f [] = Inr (Some [])"
| "eval_scopes f (sc # scs) =
     (case f sc of
        Inl e \<Rightarrow> Inl e
      | Inr None \<Rightarrow> Inr None
      | Inr (Some r) \<Rightarrow>
          (case eval_scopes f scs of
             Inl e \<Rightarrow> Inl e
           | Inr None \<Rightarrow> Inr None
           | Inr (Some rest) \<Rightarrow> Inr (Some (r @ rest))))"

fun eval_query ::
  "(string \<Rightarrow> string \<Rightarrow> error + string list option) \<Rightarrow> permission list \<Rightarrow> error + permission list option"
where
  "eval_query f [] = Inr (Some [])"
| "eval_query f (p # ps) =
     (case eval_scopes (f (resource_id p)) (resource_scopes p) of
        Inl e \<Rightarrow> Inl e
      | Inr None \<Rightarrow> Inr None
      | Inr (Some allowed) \<Rightarrow>
          (case eval_query f ps of
             Inl e \<Rightarrow> Inl e
           | Inr None \<Rightarrow> Inr None
           | Inr (Some rest) \<Rightarrow>
               Inr (Some (if allowed = [] then rest
                          else \<lparr>resource_id = resource_id p, resource_scopes = allowed\<rparr> # rest))))"

text \<open>
  The two ODRL authorizers type their query as full permissions, narrower than the interface. An
  entry without scopes fails in the \<open>for\<close> over them; one without an identifier is not passed
  by any caller in the repository and is refused the same way.
\<close>

definition narrow :: "partial_permission \<Rightarrow> permission option" where
  "narrow p = (case (pp_resource_id p, pp_resource_scopes p) of
      (Some i, Some scs) \<Rightarrow> Some \<lparr>resource_id = i, resource_scopes = scs\<rparr>
    | _ \<Rightarrow> None)"

definition SimpleOdrlAuthorizer ::
  "(string \<Rightarrow> int option) \<Rightarrow> (js \<Rightarrow> string \<Rightarrow> js list option) \<Rightarrow> authorizer \<Rightarrow> authorizer" where
  "SimpleOdrlAuthorizer parse_date query_json fallback claims query =
     (case query of
        None \<Rightarrow> fallback claims None
      | Some q \<Rightarrow>
          (case read_all narrow q of
             None \<Rightarrow> throw PlainError
           | Some ps \<Rightarrow>
               bind (gets (\<lambda>s. (policies s, clock s))) (\<lambda>(st, now).
                 case eval_query (getPermissions parse_date query_json now st claims) ps of
                   Inl e \<Rightarrow> throw e
                 | Inr None \<Rightarrow> fallback claims query
                 | Inr (Some granted) \<Rightarrow> return granted)))"

subsection \<open>Lemmas on the loops\<close>

lemma read_all_mem: "read_all f cs = Some rs \<Longrightarrow> c \<in> set cs \<Longrightarrow> \<exists>r \<in> set rs. f c = Some r"
  by (induction cs arbitrary: rs) (auto split: option.splits)

lemma narrow_full [simp]: "narrow (full p) = Some p"
  by (simp add: narrow_def full_def)

lemma read_all_narrow_full [simp]: "read_all narrow (map full ps) = Some ps"
  by (induction ps) simp_all

lemma all_constraints_True: "all_constraints chk cs = Some True \<longleftrightarrow> (\<forall>c \<in> set cs. chk c = Some True)"
  by (induction cs) (auto split: option.splits bool.splits)

text \<open>A rule whose two kinds of constraint are fulfilled.\<close>

definition satisfied ::
  "(string \<Rightarrow> int option) \<Rightarrow> (js \<Rightarrow> string \<Rightarrow> js list option) \<Rightarrow> int \<Rightarrow> store \<Rightarrow> claimset \<Rightarrow> rterm \<Rightarrow> bool"
where
  "satisfied parse_date query_json now st claims r \<longleftrightarrow>
     validateConstraints parse_date now r st claims = Some True
     \<and> validateOvcConstraints query_json r st claims = Inr (Some True)"

lemma satisfied_abs:
  "satisfied parse_date query_json now st claims = (\<lambda>r.
     validateConstraints parse_date now r st claims = Some True
     \<and> validateOvcConstraints query_json r st claims = Inr (Some True))"
  by (rule ext) (simp add: satisfied_def)

definition is_permission :: "store \<Rightarrow> rterm \<Rightarrow> bool" where
  "is_permission st r \<longleftrightarrow> odrl ''permission'' \<in> set (get_predicates st None (Some r))"

definition is_prohibition :: "store \<Rightarrow> rterm \<Rightarrow> bool" where
  "is_prohibition st r \<longleftrightarrow> odrl ''prohibition'' \<in> set (get_predicates st None (Some r))"

lemma valid_rules_filter:
  "valid_rules c v rs = Inr (Some ok) \<Longrightarrow>
     ok = filter (\<lambda>r. c r = Some True \<and> v r = Inr (Some True)) rs"
  by (induction rs arbitrary: ok) (auto simp: Let_def split: sum.splits if_splits option.splits)

lemma valid_rules_decided:
  "(\<And>r. r \<in> set rs \<Longrightarrow> c r \<noteq> None \<and> (\<exists>b. v r = Inr (Some b))) \<Longrightarrow>
     valid_rules c v rs = Inr (Some (filter (\<lambda>r. c r = Some True \<and> v r = Inr (Some True)) rs))"
  by (induction rs) (force simp: Let_def split: sum.splits option.splits)+

lemma judge_rules_grants:
  "judge_rules st sc rs = Some (x # xs) \<Longrightarrow>
     x = sc \<and> xs = [] \<and> (\<forall>r \<in> set rs. is_permission st r \<and> \<not> is_prohibition st r)"
  by (induction rs) (auto simp: Let_def is_permission_def is_prohibition_def split: if_splits)

lemma judge_rules_typed:
  "\<forall>r \<in> set rs. is_permission st r \<or> is_prohibition st r \<Longrightarrow>
     judge_rules st sc rs = Some (if \<exists>r \<in> set rs. is_prohibition st r then [] else [sc])"
  by (induction rs) (auto simp: Let_def is_permission_def is_prohibition_def)

text \<open>What a grant of \<open>getPermissions\<close> rests on.\<close>

definition justified ::
  "(string \<Rightarrow> int option) \<Rightarrow> (js \<Rightarrow> string \<Rightarrow> js list option) \<Rightarrow> int \<Rightarrow> store \<Rightarrow> claimset \<Rightarrow>
   string \<Rightarrow> string \<Rightarrow> bool" where
  "justified parse_date query_json now st claims resource sc \<longleftrightarrow>
     (\<exists>r \<in> set (matching_rules st claims resource sc).
        satisfied parse_date query_json now st claims r \<and> is_permission st r) \<and>
     (\<forall>r \<in> set (matching_rules st claims resource sc).
        satisfied parse_date query_json now st claims r \<longrightarrow> \<not> is_prohibition st r)"

lemma getPermissions_grant:
  assumes "getPermissions parse_date query_json now st claims resource sc = Inr (Some r)"
    and "r \<noteq> []"
  shows "r = [sc] \<and> justified parse_date query_json now st claims resource sc"
proof -
  let ?rules = "matching_rules st claims resource sc"
  obtain ok where ok: "valid_rules (\<lambda>r. validateConstraints parse_date now r st claims)
      (\<lambda>r. validateOvcConstraints query_json r st claims) ?rules = Inr (Some ok)" "ok \<noteq> []"
    and judge: "judge_rules st sc ok = Some r"
    using assms by (auto simp: getPermissions_def Let_def
        split: if_splits sum.splits option.splits list.splits)
  have "ok = filter (satisfied parse_date query_json now st claims) ?rules"
    unfolding satisfied_abs by (rule valid_rules_filter [OF ok(1)])
  moreover obtain x xs where "r = x # xs" using assms(2) by (cases r) auto
  ultimately show ?thesis
    using judge_rules_grants [of st sc ok x xs] judge ok(2)
    by (fastforce simp: justified_def filter_empty_conv)
qed

lemma eval_scopes_mem:
  "eval_scopes f scs = Inr (Some out) \<Longrightarrow> x \<in> set out \<Longrightarrow>
     \<exists>sc r. sc \<in> set scs \<and> f sc = Inr (Some r) \<and> x \<in> set r"
  by (induction scs arbitrary: out) (fastforce split: sum.splits option.splits)+

lemma eval_query_mem:
  "eval_query f ps = Inr (Some out) \<Longrightarrow> q \<in> set out \<Longrightarrow>
     \<exists>p \<in> set ps. resource_id q = resource_id p \<and> resource_scopes q \<noteq> [] \<and>
       eval_scopes (f (resource_id p)) (resource_scopes p) = Inr (Some (resource_scopes q))"
  by (induction ps arbitrary: out) (fastforce split: sum.splits option.splits if_splits)+

lemma eval_query_justified:
  assumes "eval_query (getPermissions parse_date query_json now st claims) qs = Inr (Some ps)"
    and "(i, sc) \<in> access_of ps"
  shows "(i, sc) \<in> access_of qs \<and> justified parse_date query_json now st claims i sc"
proof -
  obtain q where q: "q \<in> set ps" "resource_id q = i" "sc \<in> set (resource_scopes q)"
    using assms(2) by (auto simp: in_access_of)
  obtain p where p: "p \<in> set qs" "resource_id p = i"
    and scopes: "eval_scopes (getPermissions parse_date query_json now st claims i) (resource_scopes p)
        = Inr (Some (resource_scopes q))"
    using eval_query_mem [OF assms(1) q(1)] q(2) by auto
  obtain sc' r where sc': "sc' \<in> set (resource_scopes p)"
    and g: "getPermissions parse_date query_json now st claims i sc' = Inr (Some r)" "sc \<in> set r"
    using eval_scopes_mem [OF scopes q(3)] by auto
  have "r \<noteq> []" using g(2) by auto
  with getPermissions_grant [OF g(1)] have "r = [sc']"
    "justified parse_date query_json now st claims i sc'" by simp_all
  then show ?thesis using g(2) p sc' by (auto simp: in_access_of)
qed

subsection \<open>The authorizer keeps the interface's contract\<close>

lemma simple_run_cases:
  assumes "SimpleOdrlAuthorizer parse_date query_json fallback claims (Some (map full qs)) s = (Inr ps, t)"
  obtains (judged) "eval_query (getPermissions parse_date query_json (clock s) (policies s) claims) qs
                      = Inr (Some ps)" "t = s"
        | (fallback) "fallback claims (Some (map full qs)) s = (Inr ps, t)"
  using assms by (auto simp: SimpleOdrlAuthorizer_def split: sum.splits option.splits)

lemma simple_odrl_sound:
  assumes "sound_authorizer fallback"
  shows "sound_authorizer (SimpleOdrlAuthorizer parse_date query_json fallback)"
proof
  show "keeps quiet (SimpleOdrlAuthorizer parse_date query_json fallback claims query)"
    for claims query
    unfolding SimpleOdrlAuthorizer_def
    by (intro quiet_intros sound_authorizer.reads_only assms)
next
  fix claims qs s ps
  assume "fst (SimpleOdrlAuthorizer parse_date query_json fallback claims (Some (map full qs)) s) = Inr ps"
  then obtain t where
    "SimpleOdrlAuthorizer parse_date query_json fallback claims (Some (map full qs)) s = (Inr ps, t)"
    by (metis prod.collapse)
  then show "access_of ps \<subseteq> access_of qs"
  proof (cases rule: simple_run_cases)
    case judged
    then show ?thesis using eval_query_justified [OF judged(1)] by auto
  next
    case fallback
    then show ?thesis by (rule sound_authorizer.sound_run [OF assms])
  qed
qed

subsection \<open>Constraints\<close>

lemma validateConstraints_all:
  assumes "validateConstraints parse_date now r st claims = Some True"
    and "c \<in> set (get_objects st (Some r) (Some (odrl ''constraint'')))"
  shows "\<exists>pc. read_constraint st (odrl ''leftOperand'') c = Some pc
     \<and> check_constraint parse_date now claims pc = Some True"
  using assms unfolding validateConstraints_def
  by (auto simp: all_constraints_True dest: read_all_mem split: option.splits)

lemma read_constraint_parts:
  "read_constraint st left c = Some pc \<Longrightarrow>
     first_object st c left = Some (leftOperand pc)
     \<and> first_object st c (odrl ''operator'') = Some (operator pc)
     \<and> first_object st c (odrl ''rightOperand'') = Some (rightOperand pc)"
  by (auto simp: read_constraint_def split: option.splits)

subsection \<open>Properties\<close>


text \<open>
  C27: completeness of the three filters. When no matching rule has a constraint that is too complex
  and every fulfilled one is attached to a policy as permission or prohibition, the decision is
  exactly: grant if some fulfilled rule permits and none prohibits, otherwise deny (so a
  prohibition wins over any number of permissions, and no rule at all means no).
\<close>

theorem simple_odrl_decides:
  assumes dec: "\<forall>r \<in> set (matching_rules st claims resource sc).
      validateConstraints parse_date now r st claims \<noteq> None
      \<and> validateOvcConstraints query_json r st claims \<in> {Inr (Some True), Inr (Some False)}"
    and typed: "\<forall>r \<in> set (matching_rules st claims resource sc).
      satisfied parse_date query_json now st claims r \<longrightarrow> is_permission st r \<or> is_prohibition st r"
  shows "getPermissions parse_date query_json now st claims resource sc =
    Inr (Some (if justified parse_date query_json now st claims resource sc then [sc] else []))"
proof -
  let ?rules = "matching_rules st claims resource sc"
  let ?ok = "filter (satisfied parse_date query_json now st claims) ?rules"
  have v: "valid_rules (\<lambda>r. validateConstraints parse_date now r st claims)
      (\<lambda>r. validateOvcConstraints query_json r st claims) ?rules = Inr (Some ?ok)"
    unfolding satisfied_abs using dec by (intro valid_rules_decided) blast
  have j: "judge_rules st sc ?ok = Some (if \<exists>r \<in> set ?ok. is_prohibition st r then [] else [sc])"
    using typed by (intro judge_rules_typed) auto
  have split: "?ok = [] \<longrightarrow> \<not> justified parse_date query_json now st claims resource sc"
    "?ok \<noteq> [] \<longrightarrow> justified parse_date query_json now st claims resource sc
       = (\<not> (\<exists>r \<in> set ?ok. is_prohibition st r))"
    using typed by (auto simp: justified_def filter_empty_conv)
  show ?thesis
  proof (cases ?ok)
    case Nil
    with v split(1) show ?thesis by (simp add: getPermissions_def Let_def)
  next
    case (Cons r ok)
    have "?rules \<noteq> []" using Cons by (metis filter.simps(1) list.distinct(1))
    moreover have "?ok \<noteq> []" by (simp add: Cons)
    ultimately show ?thesis
      using v j split(2) unfolding Cons getPermissions_def Let_def
      by (simp del: judge_rules.simps)
  qed
qed

text \<open>
  a rule with an \<open>odrl:dateTime\<close> constraint under \<open>odrl:eq\<close> never applies, at no time
  and for no claims: the comparator compares two different \<open>Date\<close> objects by identity.
\<close>

theorem date_eq_never_satisfied:
  assumes "c \<in> set (get_objects st (Some r) (Some (odrl ''constraint'')))"
    and "first_object st c (odrl ''leftOperand'') = Some (odrl ''dateTime'')"
    and "first_object st c (odrl ''operator'') = Some (odrl ''eq'')"
  shows "\<not> satisfied parse_date query_json now st claims r"
proof
  assume "satisfied parse_date query_json now st claims r"
  then have "validateConstraints parse_date now r st claims = Some True"
    by (simp add: satisfied_def)
  from validateConstraints_all [OF this assms(1)]
  obtain pc where pc: "read_constraint st (odrl ''leftOperand'') c = Some pc"
    and ok: "check_constraint parse_date now claims pc = Some True" by (elim exE conjE)
  have "leftOperand pc = odrl ''dateTime''" "operator pc = odrl ''eq''"
    using read_constraint_parts [OF pc] assms(2,3) by simp_all
  with ok show False
    by (simp add: check_constraint_def dateComparator_def odrl_def odrl_iri_def)
qed

subsection \<open>Examples\<close>

definition example_policy :: "rterm \<Rightarrow> store" where
  "example_policy kind = [
     triple (NamedNode ''urn:p'') kind (NamedNode ''urn:r''),
     triple (NamedNode ''urn:r'') (odrl ''action'') (odrl ''read''),
     triple (NamedNode ''urn:r'') (odrl ''target'') (NamedNode ''urn:x''),
     triple (NamedNode ''urn:r'') (odrl ''assignee'') (NamedNode ''urn:alice'')]"

definition example_date_policy :: store where
  "example_date_policy = [
     triple (NamedNode ''urn:r'') (odrl ''constraint'') (NamedNode ''urn:c''),
     triple (NamedNode ''urn:c'') (odrl ''leftOperand'') (odrl ''dateTime''),
     triple (NamedNode ''urn:c'') (odrl ''operator'') (odrl ''eq'')]"

definition example_query :: "permission list" where
  "example_query = [\<lparr>resource_id = ''urn:x'', resource_scopes = [css_mode ''read'', css_mode ''write'']\<rparr>]"

definition example_claims :: claimset where
  "example_claims = [(WEBID, [JStr ''urn:alice''])]"


lemma simple_odrl_decides_witness:
  "getPermissions (\<lambda>_. None) (\<lambda>_ _. None) 0 (example_policy (odrl ''prohibition'')) example_claims
     ''urn:x'' (css_mode ''read'') = Inr (Some [])"
proof -
  let ?st = "example_policy (odrl ''prohibition'')"
  have "\<not> justified (\<lambda>_. None) (\<lambda>_ _. None) 0 ?st example_claims ''urn:x'' (css_mode ''read'')"
    by code_simp
  moreover have "\<forall>r \<in> set (matching_rules ?st example_claims ''urn:x'' (css_mode ''read'')).
      validateConstraints (\<lambda>_. None) 0 r ?st example_claims \<noteq> None \<and>
      validateOvcConstraints (\<lambda>_ _. None) r ?st example_claims \<in> {Inr (Some True), Inr (Some False)}"
    by code_simp
  moreover have "\<forall>r \<in> set (matching_rules ?st example_claims ''urn:x'' (css_mode ''read'')).
      satisfied (\<lambda>_. None) (\<lambda>_ _. None) 0 ?st example_claims r \<longrightarrow>
        is_permission ?st r \<or> is_prohibition ?st r"
    by code_simp
  ultimately show ?thesis
    using simple_odrl_decides [where st = ?st and claims = example_claims] by simp
qed

lemma date_eq_never_satisfied_witness:
  "\<not> satisfied (\<lambda>_. Some 0) (\<lambda>_ _. None) 0 example_date_policy [] (NamedNode ''urn:r'')"
  by (rule date_eq_never_satisfied [where c = "NamedNode ''urn:c''"]) code_simp+

end
