(* ===== verification/OdrlAuth.thy ===== *)
theory OdrlAuth
  imports SimpleOdrl
begin

text \<open>
  \<open>ucp/policy/ODRL.ts\<close> (building the quads of a policy), \<open>PrioritizeProhibitionStrategy.ts\<close>
  and \<open>policies/authorizers/OdrlAuthorizer.ts\<close>. The ODRL evaluator, the reading of compliance
  reports and the conflict resolver are other packages: they are the fields of \<open>odrl_engine\<close>,
  an argument of the definitions.
\<close>

subsection \<open>Building policies\<close>

datatype ucp_value = DateValue int | TextValue string

record ucp_constraint =
  uc_type :: string
  uc_operator :: string
  uc_value :: ucp_value

datatype requesting_party = OneParty string | Parties "string list"

record ucp_rule =
  ur_type :: "string option"
  ur_action :: string
  ur_resource :: string
  ur_requestingParty :: requesting_party
  ur_owner :: "string option"
  ur_constraints :: "ucp_constraint list option"

record ucp_policy =
  up_type :: "string option"
  up_rules :: "ucp_rule list"

record simple_policy =
  representation :: store
  policyIRI :: string
  ruleIRIs :: "string list"

definition xsd_dateTime :: string where
  "xsd_dateTime = ''http://www.w3.org/2001/XMLSchema#dateTime''"

definition xsd_string :: string where
  "xsd_string = ''http://www.w3.org/2001/XMLSchema#string''"

text \<open>
  \<open>iso_date\<close> stands for \<open>toISOString\<close>; calling it on a value that is no date is a type error.
  An unknown type leaves the constraint out.
\<close>

definition createConstraintQuads ::
  "(int \<Rightarrow> string) \<Rightarrow> ucp_constraint \<Rightarrow> string option \<Rightarrow> (quad list \<times> string) dialog" where
  "createConstraintQuads iso_date c ruleIRI = bind randomUUID (\<lambda>uuid.
     let iri = ''urn:ucp:constraint:'' @ uuid;
         node = NamedNode iri;
         link = (if truthy_opt ruleIRI
                 then [triple (NamedNode (the ruleIRI)) (odrl ''constraint'') node] else [])
     in if uc_type c = ''temporal'' then
          (case uc_value c of
             TextValue _ \<Rightarrow> throw PlainError
           | DateValue d \<Rightarrow> return
               ([triple node (odrl ''leftOperand'') (odrl ''dateTime''),
                 triple node (odrl ''operator'') (NamedNode (uc_operator c)),
                 triple node (odrl ''rightOperand'') (RLiteral (iso_date d) xsd_dateTime)] @ link, iri))
        else if uc_type c = ''purpose'' then
          (case uc_value c of
             DateValue _ \<Rightarrow> throw PlainError
           | TextValue v \<Rightarrow> return
               ([triple node (odrl ''leftOperand'') (odrl ''purpose''),
                 triple node (odrl ''operator'') (NamedNode (uc_operator c)),
                 triple node (odrl ''rightOperand'') (RLiteral v xsd_string)] @ link, iri))
        else return ([], iri))"

definition party_list :: "requesting_party \<Rightarrow> string list" where
  "party_list p = (case p of OneParty w \<Rightarrow> [w] | Parties ws \<Rightarrow> ws)"

definition createRuleQuads ::
  "(int \<Rightarrow> string) \<Rightarrow> ucp_rule \<Rightarrow> string option \<Rightarrow> (quad list \<times> string) dialog" where
  "createRuleQuads iso_date rule parent = bind randomUUID (\<lambda>uuid.
     let ruleIRI = ''urn:ucp:rule:'' @ uuid;
         node = NamedNode ruleIRI;
         quads =
           [triple node (odrl ''action'') (NamedNode (ur_action rule)),
            triple node (odrl ''target'') (NamedNode (ur_resource rule))]
           @ map (\<lambda>party. triple node (odrl ''assignee'') (NamedNode party))
               (party_list (ur_requestingParty rule))
           @ (if truthy_opt (ur_owner rule)
              then [triple node (odrl ''assigner'') (NamedNode (the (ur_owner rule)))] else [])
           @ (case ur_type rule of
                Some ty \<Rightarrow> [triple node rdf_type (NamedNode ty)]
              | None \<Rightarrow> triple node rdf_type (odrl ''Permission'')
                  # (if truthy_opt parent
                     then [triple (NamedNode (the parent)) (odrl ''permission'') node] else []))
     in bind (fold_act (\<lambda>qs c.
            bind (createConstraintQuads iso_date c (Some ruleIRI)) (\<lambda>(cqs, _). return (qs @ cqs)))
          quads (case ur_constraints rule of None \<Rightarrow> [] | Some cs \<Rightarrow> cs))
        (\<lambda>all. return (all, ruleIRI)))"

definition basicPolicy :: "(int \<Rightarrow> string) \<Rightarrow> ucp_policy \<Rightarrow> string option \<Rightarrow> simple_policy dialog" where
  "basicPolicy iso_date policy given =
     bind (case given of Some iri \<Rightarrow> return iri
           | None \<Rightarrow> bind randomUUID (\<lambda>uuid. return (''urn:ucp:policy:'' @ uuid))) (\<lambda>iri.
     let type_quad = triple (NamedNode iri) rdf_type
           (if truthy_opt (up_type policy) then NamedNode (the (up_type policy)) else odrl ''Agreement'')
     in bind (fold_act (\<lambda>(st, iris) rule.
            bind (createRuleQuads iso_date rule (Some iri)) (\<lambda>(qs, ruleIRI).
              return (add_quads st qs, iris @ [ruleIRI])))
          (new_store [type_quad], []) (up_rules policy))
        (\<lambda>(st, iris). return \<lparr>representation = st, policyIRI = iri, ruleIRIs = iris\<rparr>))"

subsection \<open>The engine and the conflict strategy\<close>

text \<open>
  \<open>evaluate\<close> takes the quads of the policies, of the request and of the state of the world.
  \<open>parse_report\<close> gives the request a report is about and the report serialized again;
  \<open>resolve\<close> gives the identifier and the quads of the resolver's own report.
\<close>

record odrl_engine =
  evaluate :: "quad list \<Rightarrow> quad list \<Rightarrow> quad list \<Rightarrow> error + quad list"
  policy_report_type :: rterm
  parse_report :: "rterm \<Rightarrow> store \<Rightarrow> rterm \<times> quad list"
  resolve :: "(quad list \<times> quad list) list \<Rightarrow> error + rterm \<times> quad list"
  force_conclusion :: rterm
  force_allow :: string

definition prioritize_prohibition ::
  "odrl_engine \<Rightarrow> rterm \<Rightarrow> quad list \<Rightarrow> quad list \<Rightarrow> error + bool" where
  "prioritize_prohibition eng identifier pols reports =
     (let reportStore = new_store reports;
          relevant = filter (\<lambda>(req, _). term_value req = term_value identifier)
            (map (\<lambda>n. parse_report eng n reportStore)
              (get_subjects reportStore (Some rdf_type) (Some (policy_report_type eng))))
      in case resolve eng (map (\<lambda>(_, quads). (quads, pols)) relevant) of
           Inl e \<Rightarrow> Inl e
         | Inr (ident, report) \<Rightarrow>
             (case get_objects (new_store report) (Some ident) (Some (force_conclusion eng)) of
                [] \<Rightarrow> Inr False
              | st # _ \<Rightarrow> Inr (term_value st = force_allow eng)))"

subsection \<open>\<open>OdrlAuthorizer\<close>\<close>

definition requestOperandMap :: "string obj" where
  "requestOperandMap = [(CLIENTID, odrl_iri ''deliveryChannel''), (PURPOSE, odrl_iri ''purpose'')]"

definition request_subjects :: "claimset \<Rightarrow> string list" where
  "request_subjects claims =
     (case js_strings (case obj_get claims WEBID of None \<Rightarrow> [] | Some vs \<Rightarrow> vs) of
        [] \<Rightarrow> [anonymous_id]
      | ws \<Rightarrow> ws)"

text \<open>The claim values that become context constraints: string values under an IRI operand.\<close>

definition context_values :: "claimset \<Rightarrow> (string \<times> string) list" where
  "context_values claims = concat (map (\<lambda>(key, values).
     let operand = (case obj_get requestOperandMap key of None \<Rightarrow> key | Some k \<Rightarrow> k)
     in if isIri operand then map (Pair operand) (js_strings values) else []) claims)"

text \<open>\<open>blank i\<close> is the \<open>i\<close>-th blank node the factory hands out during the call.\<close>

definition context_constraints :: "(nat \<Rightarrow> rterm) \<Rightarrow> claimset \<Rightarrow> (rterm \<times> quad list) list" where
  "context_constraints blank claims = map (\<lambda>(i, operand, v).
     (blank i,
      [triple (blank i) rdf_type (odrl ''Constraint''),
       triple (blank i) (odrl ''leftOperand'') (NamedNode operand),
       triple (blank i) (odrl ''operator'') (odrl ''eq''),
       triple (blank i) (odrl ''rightOperand'') (NamedNode v)]))
     (enumerate 0 (context_values claims))"

definition add_context :: "string \<Rightarrow> store \<Rightarrow> (rterm \<times> quad list) list \<Rightarrow> store" where
  "add_context ruleIRI st cs = foldl (\<lambda>st (subj, qs).
     add_quads (add_quad st (triple (NamedNode ruleIRI) (sotw ''context'') subj)) qs) st cs"

definition time_quads :: "(int \<Rightarrow> string) \<Rightarrow> int \<Rightarrow> quad list" where
  "time_quads iso_date now = new_store
     [triple (NamedNode ''http://example.com/request/currentTime'') (dc ''issued'')
        (RLiteral (iso_date now) xsd_dateTime)]"

text \<open>The body of the loop over the scopes: one request policy, one evaluation, one decision.\<close>

definition odrl_allows ::
  "odrl_engine \<Rightarrow> (int \<Rightarrow> string) \<Rightarrow> (nat \<Rightarrow> rterm) \<Rightarrow> claimset \<Rightarrow> string \<Rightarrow> string \<Rightarrow> bool dialog" where
  "odrl_allows eng iso_date blank claims resource sc =
     bind (gets (\<lambda>s. (policies s, time_quads iso_date (clock s)))) (\<lambda>(pols, now_quads).
     bind (basicPolicy iso_date \<lparr>up_type = Some (odrl_iri ''Request''), up_rules =
          [\<lparr>ur_type = None, ur_action = to_odrl_scope sc, ur_resource = resource,
            ur_requestingParty = Parties (request_subjects claims), ur_owner = None,
            ur_constraints = None\<rparr>]\<rparr> None) (\<lambda>request.
     let requestStore = add_context (hd (ruleIRIs request)) (representation request)
           (context_constraints blank claims)
     in bind (lift (evaluate eng pols requestStore now_quads)) (\<lambda>reports.
        lift (prioritize_prohibition eng (NamedNode (policyIRI request)) pols reports))))"

definition odrl_grant ::
  "odrl_engine \<Rightarrow> (int \<Rightarrow> string) \<Rightarrow> (nat \<Rightarrow> rterm) \<Rightarrow> claimset \<Rightarrow> string list obj \<Rightarrow> permission \<Rightarrow>
   string list obj dialog" where
  "odrl_grant eng iso_date blank claims granted p =
     fold_act (\<lambda>granted sc.
         bind (odrl_allows eng iso_date blank claims (resource_id p) sc) (\<lambda>allowed.
           return (if allowed
             then obj_set (resource_id p) (the (obj_get granted (resource_id p)) @ [sc]) granted
             else granted)))
       (obj_set (resource_id p) [] granted) (resource_scopes p)"

definition OdrlAuthorizer :: "odrl_engine \<Rightarrow> (int \<Rightarrow> string) \<Rightarrow> (nat \<Rightarrow> rterm) \<Rightarrow> authorizer" where
  "OdrlAuthorizer eng iso_date blank claims query =
     (case query of
        None \<Rightarrow> return []
      | Some q \<Rightarrow>
          (case read_all narrow q of
             None \<Rightarrow> throw PlainError
           | Some ps \<Rightarrow>
               bind (fold_act (odrl_grant eng iso_date blank claims) [] ps) (\<lambda>granted.
                 return (map (\<lambda>(i, scs). \<lparr>resource_id = i, resource_scopes = scs\<rparr>) granted))))"

subsection \<open>The authorizer keeps the interface's contract\<close>

lemma createConstraintQuads_quiet: "keeps quiet (createConstraintQuads iso_date c r)"
  unfolding createConstraintQuads_def Let_def
  by (rule quiet.keeps_bind [OF quiet_randomUUID])
    (auto split: ucp_value.split intro!: quiet.keeps_throw quiet.keeps_return)

lemma createRuleQuads_quiet: "keeps quiet (createRuleQuads iso_date rule iri)"
  unfolding createRuleQuads_def by (intro quiet_intros createConstraintQuads_quiet)

lemma basicPolicy_quiet: "keeps quiet (basicPolicy iso_date policy given)"
  unfolding basicPolicy_def by (intro quiet_intros createRuleQuads_quiet)

lemma odrl_allows_quiet: "keeps quiet (odrl_allows eng iso_date blank claims resource sc)"
  unfolding odrl_allows_def by (intro quiet_intros basicPolicy_quiet)

lemma odrl_grant_quiet: "keeps quiet (odrl_grant eng iso_date blank claims granted p)"
  unfolding odrl_grant_def by (intro quiet_intros odrl_allows_quiet)

lemma OdrlAuthorizer_quiet: "keeps quiet (OdrlAuthorizer eng iso_date blank claims query)"
  unfolding OdrlAuthorizer_def by (intro quiet_intros odrl_grant_quiet)

text \<open>The engine allowed the pair, when asked with the storages of \<open>s\<close>.\<close>

definition engine_allows ::
  "odrl_engine \<Rightarrow> (int \<Rightarrow> string) \<Rightarrow> (nat \<Rightarrow> rterm) \<Rightarrow> claimset \<Rightarrow> dialog_state \<Rightarrow> string \<Rightarrow> string \<Rightarrow> bool"
where
  "engine_allows eng iso_date blank claims s i sc \<longleftrightarrow>
     (\<exists>s' t. stored s' = stored s \<and> odrl_allows eng iso_date blank claims i sc s' = (Inr True, t))"

lemma engine_allows_stored:
  "stored s' = stored s \<Longrightarrow>
     engine_allows eng iso_date blank claims s' i sc = engine_allows eng iso_date blank claims s i sc"
  by (simp add: engine_allows_def)

lemma odrl_allows_stored:
  "odrl_allows eng iso_date blank claims i sc s = (r, t) \<Longrightarrow> stored t = stored s"
  by (rule quietD(1)) (rule keepsD [OF odrl_allows_quiet])

lemma odrl_grant_stored:
  "odrl_grant eng iso_date blank claims granted p s = (r, t) \<Longrightarrow> stored t = stored s"
  by (rule quietD(1)) (rule keepsD [OF odrl_grant_quiet])

text \<open>One resource: its entry is rebuilt from the scopes asked, the other entries stay.\<close>

lemma odrl_grant_entry:
  assumes "odrl_grant eng iso_date blank claims granted p s = (Inr out, t)"
  shows "(\<exists>scs. obj_get out (resource_id p) = Some scs \<and> set scs \<subseteq> set (resource_scopes p)
       \<and> (\<forall>sc \<in> set scs. engine_allows eng iso_date blank claims s (resource_id p) sc))
     \<and> (\<forall>i. i \<noteq> resource_id p \<longrightarrow> obj_get out i = obj_get granted i)
     \<and> (distinct (map fst granted) \<longrightarrow> distinct (map fst out))"
proof -
  define P where "P = (\<lambda>acc s'. stored s' = stored s
     \<and> (\<exists>scs. obj_get acc (resource_id p) = Some scs \<and> set scs \<subseteq> set (resource_scopes p)
       \<and> (\<forall>sc \<in> set scs. engine_allows eng iso_date blank claims s (resource_id p) sc))
     \<and> (\<forall>i. i \<noteq> resource_id p \<longrightarrow> obj_get acc i = obj_get granted i)
     \<and> (distinct (map fst granted) \<longrightarrow> distinct (map fst acc)))"
  have "P out t"
    using assms unfolding odrl_grant_def
  proof (rule fold_act_inv [where P = P])
    show "P (obj_set (resource_id p) [] granted) s"
      by (simp add: P_def obj_get_set distinct_update)
  next
    fix acc sc s1 acc' s2
    assume sc: "sc \<in> set (resource_scopes p)" and P: "P acc s1"
      and step: "bind (odrl_allows eng iso_date blank claims (resource_id p) sc) (\<lambda>allowed.
           return (if allowed
             then obj_set (resource_id p) (the (obj_get acc (resource_id p)) @ [sc]) acc
             else acc)) s1 = (Inr acc', s2)"
    then obtain allowed where run: "odrl_allows eng iso_date blank claims (resource_id p) sc s1
          = (Inr allowed, s2)"
      and acc': "acc' = (if allowed
             then obj_set (resource_id p) (the (obj_get acc (resource_id p)) @ [sc]) acc else acc)"
      by (auto simp: bind_eq_Inr)
    have "stored s2 = stored s" using odrl_allows_stored [OF run] P by (simp add: P_def)
    moreover have "allowed \<Longrightarrow> engine_allows eng iso_date blank claims s (resource_id p) sc"
      using run P by (auto simp: engine_allows_def P_def)
    ultimately show "P acc' s2"
      using P sc by (auto simp: P_def acc' obj_get_set distinct_update)
  qed
  then show ?thesis by (simp add: P_def)
qed

text \<open>The entry of a resource comes from its last occurrence in the query.\<close>

definition last_scopes :: "permission list \<Rightarrow> string \<Rightarrow> string list option" where
  "last_scopes ps i = map_of (rev (map (\<lambda>p. (resource_id p, resource_scopes p)) ps)) i"

lemma last_scopes_Cons:
  "last_scopes (p # ps) i = (case last_scopes ps i of
      Some scs \<Rightarrow> Some scs | None \<Rightarrow> if resource_id p = i then Some (resource_scopes p) else None)"
  by (auto simp: last_scopes_def map_add_def split: option.split)

lemma odrl_fold_entries:
  assumes "fold_act (odrl_grant eng iso_date blank claims) granted ps s = (Inr out, t)"
  shows "case last_scopes ps i of
      None \<Rightarrow> obj_get out i = obj_get granted i
    | Some scs \<Rightarrow> (\<exists>out_scs. obj_get out i = Some out_scs \<and> set out_scs \<subseteq> set scs
        \<and> (\<forall>sc \<in> set out_scs. engine_allows eng iso_date blank claims s i sc))"
  using assms
proof (induction ps arbitrary: granted s)
  case (Cons p ps)
  obtain mid s' where step: "odrl_grant eng iso_date blank claims granted p s = (Inr mid, s')"
    and rest: "fold_act (odrl_grant eng iso_date blank claims) mid ps s' = (Inr out, t)"
    using Cons.prems by (auto simp: bind_eq_Inr)
  show ?case
    using Cons.IH [OF rest] odrl_grant_entry [OF step]
      engine_allows_stored [OF odrl_grant_stored [OF step]]
    by (auto simp: last_scopes_Cons split: option.splits)
qed (simp add: last_scopes_def)

lemma odrl_fold_distinct:
  assumes "fold_act (odrl_grant eng iso_date blank claims) granted ps s = (Inr out, t)"
    and "distinct (map fst granted)"
  shows "distinct (map fst out)"
  by (rule fold_act_inv [where P = "\<lambda>acc _. distinct (map fst acc)", OF assms])
    (auto dest: odrl_grant_entry)

lemma last_scopes_access: "last_scopes ps i = Some scs \<Longrightarrow> sc \<in> set scs \<Longrightarrow> (i, sc) \<in> access_of ps"
  by (auto simp: last_scopes_def in_access_of dest!: map_of_SomeD)

lemma odrl_grants_run:
  assumes "OdrlAuthorizer eng iso_date blank claims (Some (map full qs)) s = (Inr ps, t)"
    and "(i, sc) \<in> access_of ps"
  shows "(\<exists>scs. last_scopes qs i = Some scs \<and> sc \<in> set scs)
    \<and> engine_allows eng iso_date blank claims s i sc"
proof -
  obtain granted where fold: "fold_act (odrl_grant eng iso_date blank claims) [] qs s = (Inr granted, t)"
    and ps: "ps = map (\<lambda>(i, scs). \<lparr>resource_id = i, resource_scopes = scs\<rparr>) granted"
    using assms(1) by (auto simp: OdrlAuthorizer_def bind_eq_Inr)
  obtain scs where "(i, scs) \<in> set granted" and sc: "sc \<in> set scs"
    using assms(2) unfolding ps by (auto simp: in_access_of)
  then have "obj_get granted i = Some scs"
    using odrl_fold_distinct [OF fold] by simp
  then show ?thesis
    using odrl_fold_entries [OF fold, of i] sc by (auto split: option.splits)
qed

interpretation odrl_auth: sound_authorizer "OdrlAuthorizer eng iso_date blank" for eng iso_date blank
proof
  show "keeps quiet (OdrlAuthorizer eng iso_date blank claims query)" for claims query
    by (rule OdrlAuthorizer_quiet)
next
  fix claims qs s ps
  assume "fst (OdrlAuthorizer eng iso_date blank claims (Some (map full qs)) s) = Inr ps"
  from odrl_grants_run [OF run_fst [OF this]] show "access_of ps \<subseteq> access_of qs"
    by (auto dest: last_scopes_access)
qed

text \<open>The default configuration: the simple authorizer in front of the engine.\<close>

interpretation default_auth: sound_authorizer
  "SimpleOdrlAuthorizer parse_date query_json (OdrlAuthorizer eng iso_date blank)"
  for parse_date query_json eng iso_date blank
  by (rule simple_odrl_sound) unfold_locales

subsection \<open>Properties\<close>

text \<open>
  C31: the engine-backed authorizer grants a pair only when the engine and the conflict strategy said
  yes for it, and only when it stands in the last entry of the query for that resource: an
  earlier entry for the same resource is forgotten, whatever was granted for it.
\<close>

theorem odrl_grants_only_allowed:
  assumes "OdrlAuthorizer eng iso_date blank claims (Some (map full qs)) s = (Inr ps, t)"
    and "(i, sc) \<in> access_of ps"
  shows "engine_allows eng iso_date blank claims s i sc
    \<and> (\<exists>scs. last_scopes qs i = Some scs \<and> sc \<in> set scs)"
  using odrl_grants_run [OF assms] by simp

definition permissive_engine :: odrl_engine where
  "permissive_engine = \<lparr>
     evaluate = (\<lambda>_ _ _. Inr []), policy_report_type = odrl ''PolicyReport'',
     parse_report = (\<lambda>n _. (n, [])),
     resolve = (\<lambda>_. Inr (odrl ''c'', [triple (odrl ''c'') (odrl ''conclusion'') (odrl ''Allow'')])),
     force_conclusion = odrl ''conclusion'', force_allow = odrl_iri ''Allow''\<rparr>"

lemma odrl_grants_only_allowed_witness:
  "\<exists>scs. last_scopes [\<lparr>resource_id = ''a'', resource_scopes = [''r'']\<rparr>,
      \<lparr>resource_id = ''a'', resource_scopes = [''w'']\<rparr>] ''a'' = Some scs \<and> ''w'' \<in> set scs"
proof -
  let ?qs = "[\<lparr>resource_id = ''a'', resource_scopes = [''r'']\<rparr>,
      \<lparr>resource_id = ''a'', resource_scopes = [''w'']\<rparr>]"
  have "fst (OdrlAuthorizer permissive_engine (\<lambda>_. '''') (\<lambda>_. DefaultGraph) [] (Some (map full ?qs)) empty_state)
    = Inr [\<lparr>resource_id = ''a'', resource_scopes = [''w'']\<rparr>]"
    by code_simp
  from odrl_grants_only_allowed [OF run_fst [OF this], of "''a''" "''w''"]
  show ?thesis by (simp add: in_access_of)
qed

end
