(* ===== verification/Ticketing.thy ===== *)
theory Ticketing
  imports OdrlAuth
begin

text \<open>
  \<open>ticketing/strategy/\<close>: what a ticket goes through between its creation and a decision. A
  strategy is a record of its three methods; \<open>ImmediateAuthorizerStrategy\<close> asks an
  authorizer, \<open>AggregatorStrategy\<close> wraps another strategy with the derivation rules. The
  locale \<open>ticketing_strategy\<close> is the contract the negotiators rely on.
\<close>

subsection \<open>The interface\<close>

record ticketing =
  initializeTicket :: "permission list \<Rightarrow> ticket dialog"
  validateClaims :: "ticket \<Rightarrow> claimset \<Rightarrow> ticket dialog"
  resolveTicket :: "ticket \<Rightarrow> (permission list, required_claim list) result dialog"

text \<open>
  \<open>rel\<close> says when two identifiers name the same resource: equality, or for an aggregator the
  equivalence generated by decoding identifiers. \<open>access_within rel ps qs\<close>: everything
  \<open>ps\<close> allows is in \<open>qs\<close>, up to such renaming of resources.
\<close>

definition access_within :: "(string \<Rightarrow> string \<Rightarrow> bool) \<Rightarrow> permission list \<Rightarrow> permission list \<Rightarrow> bool" where
  "access_within rel ps qs \<longleftrightarrow>
     (\<forall>r sc. (r, sc) \<in> access_of ps \<longrightarrow> (\<exists>r'. rel r r' \<and> (r', sc) \<in> access_of qs))"

lemma access_within_refl: "(\<And>x. rel x x) \<Longrightarrow> access_within rel ps ps"
  by (auto simp: access_within_def)

lemma access_within_trans:
  assumes "\<And>x y z. rel x y \<Longrightarrow> rel y z \<Longrightarrow> rel x z"
  shows "access_within rel ps qs \<Longrightarrow> access_within rel qs us \<Longrightarrow> access_within rel ps us"
  unfolding access_within_def by (meson assms)

lemma access_within_eq [simp]: "access_within (=) ps qs \<longleftrightarrow> access_of ps \<subseteq> access_of qs"
  by (auto simp: access_within_def)

text \<open>How the claims of one credential are added to those a ticket has.\<close>

definition add_claims :: "claimset \<Rightarrow> claimset \<Rightarrow> claimset" where
  "add_claims prov claims = foldl (\<lambda>p (key, vs).
     obj_set key ((case obj_get p key of None \<Rightarrow> [] | Some old \<Rightarrow> old) @ vs) p) prov claims"

lemma add_claims_simps [simp]:
  "add_claims prov [] = prov"
  "add_claims prov ((key, vs) # claims) =
     add_claims (obj_set key ((case obj_get prov key of None \<Rightarrow> [] | Some old \<Rightarrow> old) @ vs) prov) claims"
  by (simp_all add: add_claims_def)

text \<open>Nothing that was provided before is lost.\<close>

lemma add_claims_keeps:
  "obj_get prov key = Some vs \<Longrightarrow> \<exists>vs'. obj_get (add_claims prov claims) key = Some (vs @ vs')"
proof (induction claims arbitrary: prov vs)
  case (Cons c claims)
  obtain k ws where c: "c = (k, ws)" by force
  show ?case
  proof (cases "k = key")
    case True
    then have "obj_get (obj_set k (vs @ ws) prov) key = Some (vs @ ws)" by (simp add: obj_get_set)
    from Cons.IH [OF this] Cons.prems True show ?thesis by (auto simp: c)
  next
    case False
    then have "obj_get (obj_set k w prov) key = Some vs" for w
      using Cons.prems by (simp add: obj_get_set)
    from Cons.IH [OF this] show ?thesis by (simp add: c)
  qed
qed simp

lemma add_claims_other: "key \<notin> fst ` set claims \<Longrightarrow> obj_get (add_claims prov claims) key = obj_get prov key"
  by (induction claims arbitrary: prov) (auto simp: obj_get_set)

lemma add_claims_get:
  "distinct (map fst claims) \<Longrightarrow> obj_get claims key = Some vs \<Longrightarrow>
     obj_get (add_claims prov claims) key =
       Some ((case obj_get prov key of None \<Rightarrow> [] | Some old \<Rightarrow> old) @ vs)"
  by (induction claims arbitrary: prov)
    (auto simp: obj_get_set add_claims_other split: if_splits)

locale ticketing_strategy =
  fixes strategy :: ticketing
    and rel :: "string \<Rightarrow> string \<Rightarrow> bool"
  assumes rel_refl: "rel x x"
    and rel_trans: "rel x y \<Longrightarrow> rel y z \<Longrightarrow> rel x z"
    and init_quiet: "keeps quiet (initializeTicket strategy ps)"
    and validate_quiet: "keeps quiet (validateClaims strategy tk claims)"
    and resolve_quiet: "keeps quiet (resolveTicket strategy tk)"
    and init_ticket: "fst (initializeTicket strategy ps s) = Inr tk \<Longrightarrow>
          provided tk = [] \<and> (\<exists>more. permissions tk = ps @ more)"
    and validate_ticket: "fst (validateClaims strategy tk claims s) = Inr tk' \<Longrightarrow>
          provided tk' = add_claims (provided tk) claims
          \<and> access_within rel (permissions tk') (permissions tk)"
    and resolve_ticket: "fst (resolveTicket strategy tk s) = Inr (Success ps) \<Longrightarrow>
          access_within rel ps (permissions tk) \<and> ps \<noteq> []"
begin

lemma validate_within:
  assumes "validateClaims strategy tk claims s = (Inr tk', t)"
    and "access_within rel (permissions tk) qs"
  shows "access_within rel (permissions tk') qs"
  using validate_ticket [of tk claims s tk'] assms
  by (auto intro: access_within_trans [OF rel_trans])

lemma resolve_within:
  assumes "resolveTicket strategy tk s = (Inr (Success ps), t)"
    and "access_within rel (permissions tk) qs"
  shows "access_within rel ps qs"
  using resolve_ticket [of tk s ps] assms
  by (auto intro: access_within_trans [OF rel_trans])

end

subsection \<open>\<open>ImmediateAuthorizerStrategy\<close>\<close>

definition immediate_initializeTicket :: "permission list \<Rightarrow> ticket dialog" where
  "immediate_initializeTicket ps = return \<lparr>derivedIds = None, permissions = ps, provided = []\<rparr>"

text \<open>
  The source updates \<open>ticket.provided\<close> in place. The record update is the returned ticket; the
  negotiator accounts for the shared object when it stores the ticket it started from.
\<close>

definition immediate_validateClaims :: "ticket \<Rightarrow> claimset \<Rightarrow> ticket dialog" where
  "immediate_validateClaims tk claims = return (tk\<lparr>provided := add_claims (provided tk) claims\<rparr>)"

definition calculatePermissions :: "authorizer \<Rightarrow> ticket \<Rightarrow> permission list dialog" where
  "calculatePermissions auth tk =
     bind (auth (provided tk) (Some (map full (permissions tk)))) (\<lambda>ps.
       return (filter (\<lambda>p. resource_scopes p \<noteq> []) ps))"

text \<open>\<open>scopeMatch\<close>: an entry per required scope, set by every granted scope of that resource.\<close>

definition scopeMatch :: "permission list \<Rightarrow> permission \<Rightarrow> bool obj" where
  "scopeMatch granted required = foldl (\<lambda>m p.
       if resource_id required \<noteq> resource_id p then m
       else foldl (\<lambda>m sc. obj_set sc True m) m (resource_scopes p))
     (foldl (\<lambda>m sc. obj_set sc False m) [] (resource_scopes required)) granted"

definition unmatchedScopes :: "permission list \<Rightarrow> permission \<Rightarrow> string list" where
  "unmatchedScopes granted required =
     (let m = scopeMatch granted required in
      filter (\<lambda>sc. obj_get m sc \<noteq> Some True) (obj_keys m))"

definition unmatchedPermissions :: "permission list \<Rightarrow> permission list \<Rightarrow> permission list" where
  "unmatchedPermissions granted requested = List.map_filter (\<lambda>required.
     let un = unmatchedScopes granted required in
     if un \<noteq> [] then Some \<lparr>resource_id = resource_id required, resource_scopes = un\<rparr> else None)
     requested"

definition scopes_claim :: "permission \<Rightarrow> required_claim" where
  "scopes_claim p = empty_claim\<lparr>rc_resource_scopes := Some (resource_scopes p)\<rparr>"

definition immediate_resolveTicket ::
  "authorizer \<Rightarrow> bool \<Rightarrow> ticket \<Rightarrow> (permission list, required_claim list) result dialog" where
  "immediate_resolveTicket auth allowPartialSuccess tk =
     bind (calculatePermissions auth tk) (\<lambda>granted.
       if granted = [] then return (Failure [])
       else if allowPartialSuccess then return (Success granted)
       else (let un = unmatchedPermissions granted (permissions tk) in
             if un \<noteq> [] then return (Failure (map scopes_claim un))
             else return (Success granted)))"

definition ImmediateAuthorizerStrategy :: "authorizer \<Rightarrow> bool \<Rightarrow> ticketing" where
  "ImmediateAuthorizerStrategy auth allowPartialSuccess = \<lparr>
     initializeTicket = immediate_initializeTicket,
     validateClaims = immediate_validateClaims,
     resolveTicket = immediate_resolveTicket auth allowPartialSuccess\<rparr>"

text \<open>A scope is unmatched exactly when it is required and no granted entry of the resource has it.\<close>

lemma foldl_obj_set:
  "obj_get (foldl (\<lambda>m sc. obj_set sc v m) m scs) k = (if k \<in> set scs then Some v else obj_get m k)"
  by (induction scs arbitrary: m) (auto simp: obj_get_set)

lemma keys_foldl_obj_set:
  "set (obj_keys (foldl (\<lambda>m sc. obj_set sc v m) m scs)) = set scs \<union> set (obj_keys m)"
  by (induction scs arbitrary: m) (auto simp: obj_keys_def keys_obj_set)

lemma scopeMatch_get:
  "obj_get (scopeMatch granted required) sc =
     (if (resource_id required, sc) \<in> access_of granted then Some True
      else if sc \<in> set (resource_scopes required) then Some False else None)"
proof -
  have "obj_get (foldl (\<lambda>m p. if resource_id required \<noteq> resource_id p then m
       else foldl (\<lambda>m sc. obj_set sc True m) m (resource_scopes p)) m granted) sc =
      (if (resource_id required, sc) \<in> access_of granted then Some True else obj_get m sc)" for m
    by (induction granted arbitrary: m) (auto simp: foldl_obj_set access_of_Cons)
  then show ?thesis
    unfolding scopeMatch_def by (simp add: foldl_obj_set)
qed

lemma set_unmatchedScopes:
  "set (unmatchedScopes granted required) =
     {sc \<in> set (resource_scopes required). (resource_id required, sc) \<notin> access_of granted}"
proof -
  have "sc \<in> set (obj_keys m) \<longleftrightarrow> obj_get m sc \<noteq> None" for sc and m :: "bool obj"
    by (simp add: obj_keys_def map_of_eq_None_iff)
  then show ?thesis
    by (auto simp: unmatchedScopes_def Let_def scopeMatch_get)
qed

lemma unmatched_empty_iff:
  "unmatchedPermissions granted requested = [] \<longleftrightarrow> access_of requested \<subseteq> access_of granted"
proof -
  have "unmatchedPermissions granted requested = [] \<longleftrightarrow>
      (\<forall>p \<in> set requested. set (unmatchedScopes granted p) = {})"
    unfolding unmatchedPermissions_def
    by (induction requested) (auto simp: List.map_filter_def Let_def)
  also have "\<dots> \<longleftrightarrow> access_of requested \<subseteq> access_of granted"
    by (auto simp: set_unmatchedScopes in_access_of subset_iff)
  finally show ?thesis .
qed

lemma access_of_nonempty_scopes [simp]:
  "access_of (filter (\<lambda>p. resource_scopes p \<noteq> []) ps) = access_of ps"
  by (rule set_eqI) (auto simp: access_of_def, fastforce)

subsection \<open>The immediate strategy keeps the contract\<close>

locale plain_strategy = ticketing_strategy strategy "(=)" for strategy

lemma calculatePermissions_quiet:
  "sound_authorizer auth \<Longrightarrow> keeps quiet (calculatePermissions auth tk)"
  unfolding calculatePermissions_def by (intro quiet_intros sound_authorizer.reads_only)

lemma calculatePermissions_access:
  assumes "sound_authorizer auth" and "calculatePermissions auth tk s = (Inr granted, t)"
  shows "access_of granted \<subseteq> access_of (permissions tk)"
  using assms(2)
  by (auto simp: calculatePermissions_def bind_eq_Inr dest!: sound_authorizer.sound_run [OF assms(1)])

lemma immediate_resolve_Success:
  assumes "immediate_resolveTicket auth part tk s = (Inr (Success ps), t)"
  shows "calculatePermissions auth tk s = (Inr ps, t) \<and> ps \<noteq> []
    \<and> (\<not> part \<longrightarrow> access_of (permissions tk) \<subseteq> access_of ps)"
  using assms
  by (auto simp: immediate_resolveTicket_def bind_eq_Inr Let_def
      simp flip: unmatched_empty_iff split: if_splits)

lemma immediate_plain:
  assumes "sound_authorizer auth"
  shows "plain_strategy (ImmediateAuthorizerStrategy auth part)"
proof
  show "keeps quiet (initializeTicket (ImmediateAuthorizerStrategy auth part) ps)" for ps
    by (simp add: ImmediateAuthorizerStrategy_def immediate_initializeTicket_def quiet.keeps_return)
  show "keeps quiet (validateClaims (ImmediateAuthorizerStrategy auth part) tk claims)" for tk claims
    by (simp add: ImmediateAuthorizerStrategy_def immediate_validateClaims_def quiet.keeps_return)
  show "keeps quiet (resolveTicket (ImmediateAuthorizerStrategy auth part) tk)" for tk
    unfolding ImmediateAuthorizerStrategy_def immediate_resolveTicket_def ticketing.simps
    by (intro quiet_intros calculatePermissions_quiet assms)
  show "access_within (=) ps (permissions tk) \<and> ps \<noteq> []"
    if "fst (resolveTicket (ImmediateAuthorizerStrategy auth part) tk s) = Inr (Success ps)" for tk s ps
    using immediate_resolve_Success [OF run_fst [OF that [unfolded ImmediateAuthorizerStrategy_def ticketing.simps]]]
    by (auto dest!: calculatePermissions_access [OF assms])
qed (auto simp: ImmediateAuthorizerStrategy_def immediate_initializeTicket_def immediate_validateClaims_def)

sublocale sound_authorizer < immediate: plain_strategy "ImmediateAuthorizerStrategy auth part" for part
  by (rule immediate_plain) unfold_locales

subsection \<open>Aggregate identifiers\<close>

text \<open>
  \<open>util/AggregatorUtil.ts\<close>. The cipher of \<open>node:crypto\<close> is a pair of functions on hexadecimal
  strings: \<open>seal iv id\<close> gives the authentication tag and the encrypted text, \<open>unseal\<close> the
  identifier, or \<open>None\<close> when it throws. The initialization vector is the next random draw.
\<close>

record aead =
  seal :: "string \<Rightarrow> string \<Rightarrow> string \<times> string"
  unseal :: "string \<Rightarrow> string \<Rightarrow> string \<Rightarrow> string option"

definition encode_with_iv :: "aead \<Rightarrow> string \<Rightarrow> string \<Rightarrow> string" where
  "encode_with_iv c iv i = (case seal c iv i of (tag, enc) \<Rightarrow> iv @ '':'' @ tag @ '':'' @ enc)"

definition encodeAggregateId :: "aead \<Rightarrow> string \<Rightarrow> string dialog" where
  "encodeAggregateId c i = bind randomUUID (\<lambda>iv. return (encode_with_iv c iv i))"

definition decodeAggregateId :: "aead \<Rightarrow> string \<Rightarrow> string option" where
  "decodeAggregateId c payload =
     (case split_on (CHR '':'') payload of
        iv # tag # enc # _ \<Rightarrow> unseal c iv tag enc
      | _ \<Rightarrow> None)"

text \<open>Decoding undoes encoding, for a cipher that decrypts what it encrypted and hexadecimal parts.\<close>

lemma decode_encode_with_iv:
  assumes "\<And>tag enc. seal c iv i = (tag, enc) \<Longrightarrow>
      unseal c iv tag enc = Some i \<and> CHR '':'' \<notin> set tag \<and> CHR '':'' \<notin> set enc"
    and "CHR '':'' \<notin> set iv"
  shows "decodeAggregateId c (encode_with_iv c iv i) = Some i"
proof -
  obtain tag enc where "seal c iv i = (tag, enc)" by force
  with assms show ?thesis
    by (simp add: encode_with_iv_def decodeAggregateId_def split_append_sep split_no_sep)
qed

lemma encodeAggregateId_quiet: "keeps quiet (encodeAggregateId c i)"
  unfolding encodeAggregateId_def by (intro quiet_intros)

subsection \<open>\<open>AggregatorStrategy\<close>\<close>

definition derivedFrom :: "dialog_state \<Rightarrow> string \<Rightarrow> derived_entry list" where
  "derivedFrom s i = (case kv_get (registrationStore s) i of
      None \<Rightarrow> []
    | Some reg \<Rightarrow> (case rd_derived_from (reg_description reg) of None \<Rightarrow> [] | Some ds \<Rightarrow> ds))"

definition derivation_permission :: "derived_entry \<Rightarrow> permission" where
  "derivation_permission d =
     \<lparr>resource_id = de_derivation_resource_id d, resource_scopes = [derivation_read]\<rparr>"

text \<open>One turn of the first loop: the additional identifiers and permissions of one target.\<close>

definition additional_step ::
  "string list \<times> permission list \<Rightarrow> permission \<Rightarrow> (string list \<times> permission list) dialog" where
  "additional_step acc p = (case acc of (ids, extra) \<Rightarrow>
     bind (gets (\<lambda>s. derivedFrom s (resource_id p))) (\<lambda>ds.
       if ds \<noteq> [] \<and> resource_scopes p \<noteq> [ODRL_READ] then throw BadRequest
       else return (ids @ map de_derivation_resource_id ds, extra @ map derivation_permission ds)))"

definition additional_permissions :: "permission list \<Rightarrow> (string list \<times> permission list) dialog" where
  "additional_permissions ps = fold_act additional_step ([], []) ps"

definition aggregator_initializeTicket :: "ticketing \<Rightarrow> permission list \<Rightarrow> ticket dialog" where
  "aggregator_initializeTicket strat ps =
     bind (additional_permissions ps) (\<lambda>(ids, extra).
     bind (initializeTicket strat (ps @ extra)) (\<lambda>tk.
     return (tk\<lparr>derivedIds := Some (ids @ (case derivedIds tk of None \<Rightarrow> [] | Some ds \<Rightarrow> ds))\<rparr>)))"

text \<open>
  \<open>scopes.includes(..)\<close> on whatever the claim holds: an array of values, a string (where it
  looks for a substring), or something without the method.
\<close>

definition js_includes :: "js \<Rightarrow> string \<Rightarrow> error + bool" where
  "js_includes v x = (case v of
      JArr xs \<Rightarrow> Inr (JStr x \<in> set xs)
    | JStr s \<Rightarrow> Inr (sublist x s)
    | _ \<Rightarrow> Inl PlainError)"

definition grants_derivation_read :: "js \<Rightarrow> error + bool" where
  "grants_derivation_read v = (case v of
      JUndef \<Rightarrow> Inl PlainError
    | JNull \<Rightarrow> Inl PlainError
    | _ \<Rightarrow> js_includes (js_prop v ''resource_scopes'') derivation_read)"

fun derived_read_ids :: "js list \<Rightarrow> error + js list" where
  "derived_read_ids [] = Inr []"
| "derived_read_ids (v # vs) =
     (case grants_derivation_read v of
        Inl e \<Rightarrow> Inl e
      | Inr b \<Rightarrow>
          (case derived_read_ids vs of
             Inl e \<Rightarrow> Inl e
           | Inr ids \<Rightarrow> Inr (if b then js_prop v ''resource_id'' # ids else ids)))"

text \<open>The permissions left once the derivation-read requirements the claims fulfil are dropped.\<close>

definition drop_fulfilled :: "ticket \<Rightarrow> js list \<Rightarrow> permission list" where
  "drop_fulfilled tk ids = concat (map (\<lambda>p.
     if is_derived tk (resource_id p) \<and> JStr (resource_id p) \<in> set ids
        \<and> derivation_read \<in> set (resource_scopes p)
     then (let remaining = filter (\<lambda>sc. sc \<noteq> derivation_read) (resource_scopes p) in
           if remaining \<noteq> [] then [p\<lparr>resource_scopes := remaining\<rparr>] else [])
     else [p]) (permissions tk))"

definition decode_step ::
  "(string \<Rightarrow> string option) \<Rightarrow> ticket \<Rightarrow> string obj \<times> permission list \<Rightarrow> permission \<Rightarrow>
   string obj \<times> permission list" where
  "decode_step decode tk acc p = (case acc of (ids, ps) \<Rightarrow>
     if \<not> is_derived tk (resource_id p) \<and> derivation_read \<in> set (resource_scopes p)
     then (case decode (resource_id p) of
         Some d \<Rightarrow> (obj_set d (resource_id p) ids, ps @ [p\<lparr>resource_id := d\<rparr>])
       | None \<Rightarrow> (ids, ps @ [p]))
     else (ids, ps @ [p]))"

definition decodeIds :: "(string \<Rightarrow> string option) \<Rightarrow> ticket \<Rightarrow> ticket \<times> string obj" where
  "decodeIds decode tk =
     (case foldl (decode_step decode tk) ([], []) (permissions tk) of
        (ids, ps) \<Rightarrow> (tk\<lparr>permissions := ps\<rparr>, ids))"

definition encodeIds :: "ticket \<Rightarrow> string obj \<Rightarrow> ticket" where
  "encodeIds tk ids =
     (if ids = [] then tk
      else tk\<lparr>permissions := map (\<lambda>p. p\<lparr>resource_id :=
             (case obj_get ids (resource_id p) of None \<Rightarrow> resource_id p | Some e \<Rightarrow> e)\<rparr>)
           (permissions tk)\<rparr>)"

definition aggregator_validateClaims ::
  "(string \<Rightarrow> string option) \<Rightarrow> ticketing \<Rightarrow> ticket \<Rightarrow> claimset \<Rightarrow> ticket dialog" where
  "aggregator_validateClaims decode strat tk claims =
     bind (lift (derived_read_ids (case obj_get claims ACCESS of None \<Rightarrow> [] | Some vs \<Rightarrow> vs))) (\<lambda>ids.
     case decodeIds decode (tk\<lparr>permissions := drop_fulfilled tk ids\<rparr>) of
       (newTicket, decodedIds) \<Rightarrow>
         bind (validateClaims strat newTicket claims) (\<lambda>sourceTicket.
           return (encodeIds sourceTicket decodedIds)))"

definition derivation_claim :: "string \<Rightarrow> string \<Rightarrow> required_claim" where
  "derivation_claim issuer i = empty_claim\<lparr>
     rc_claim_token_format := Some ACCESS_TOKEN, rc_issuer := Some issuer,
     rc_derivation_resource_id := Some i, rc_resource_scopes := Some [derivation_read]\<rparr>"

definition missing_step :: "ticket \<Rightarrow> required_claim list \<Rightarrow> permission \<Rightarrow> required_claim list dialog" where
  "missing_step tk claims p =
     (if is_derived tk (resource_id p) \<and> derivation_read \<in> set (resource_scopes p)
      then bind (gets (\<lambda>s. kv_get (derivationStore s) (resource_id p))) (\<lambda>issuer.
        if \<not> truthy_opt issuer then throw InternalServer
        else return (claims @ [derivation_claim (the issuer) (resource_id p)]))
      else return claims)"

definition missing_derivations :: "ticket \<Rightarrow> required_claim list dialog" where
  "missing_derivations tk = fold_act (missing_step tk) [] (permissions tk)"

definition encode_result :: "string obj \<Rightarrow> permission list \<Rightarrow> permission list" where
  "encode_result ids = map (\<lambda>p.
     if truthy_opt (obj_get ids (resource_id p))
     then \<lparr>resource_id = the (obj_get ids (resource_id p)), resource_scopes = resource_scopes p\<rparr>
     else p)"

definition aggregator_resolveTicket ::
  "(string \<Rightarrow> string option) \<Rightarrow> ticketing \<Rightarrow> ticket \<Rightarrow>
   (permission list, required_claim list) result dialog" where
  "aggregator_resolveTicket decode strat tk =
     bind (missing_derivations tk) (\<lambda>requiredClaims.
     case decodeIds decode tk of (decodedTicket, decodedIds) \<Rightarrow>
       bind (resolveTicket strat decodedTicket) (\<lambda>res.
         case res of
           Success ps \<Rightarrow>
             if requiredClaims \<noteq> [] then return (Failure requiredClaims)
             else return (Success (encode_result decodedIds ps))
         | Failure claims \<Rightarrow> return (Failure (claims @ requiredClaims))))"

definition AggregatorStrategy :: "(string \<Rightarrow> string option) \<Rightarrow> ticketing \<Rightarrow> ticketing" where
  "AggregatorStrategy decode strat = \<lparr>
     initializeTicket = aggregator_initializeTicket strat,
     validateClaims = aggregator_validateClaims decode strat,
     resolveTicket = aggregator_resolveTicket decode strat\<rparr>"

subsection \<open>The aggregator strategy keeps the contract\<close>

text \<open>Two identifiers are the same resource if decoding, in either direction, leads from one to the other.\<close>

definition same_resource :: "(string \<Rightarrow> string option) \<Rightarrow> string \<Rightarrow> string \<Rightarrow> bool" where
  "same_resource decode = equivclp (\<lambda>e d. decode e = Some d)"

lemma same_resource_refl [simp]: "same_resource decode x x"
  by (simp add: same_resource_def)

lemma same_resource_trans: "same_resource decode x y \<Longrightarrow> same_resource decode y z \<Longrightarrow> same_resource decode x z"
  unfolding same_resource_def by (rule equivclp_trans)

lemma same_resource_sym: "same_resource decode x y \<Longrightarrow> same_resource decode y x"
  unfolding same_resource_def by (rule equivclp_sym)

lemma same_resource_decode: "decode e = Some d \<Longrightarrow> same_resource decode e d"
  unfolding same_resource_def by (rule r_into_equivclp)

lemma access_within_pointwise:
  assumes "list_all2 (\<lambda>p q. rel (resource_id p) (resource_id q)
      \<and> set (resource_scopes p) \<subseteq> set (resource_scopes q)) ps qs"
  shows "access_within rel ps qs"
  unfolding access_within_def
proof (intro allI impI)
  fix r sc assume "(r, sc) \<in> access_of ps"
  then obtain p where p: "p \<in> set ps" "resource_id p = r" "sc \<in> set (resource_scopes p)"
    by (auto simp: in_access_of)
  obtain q where "q \<in> set qs" "rel (resource_id p) (resource_id q)"
    "set (resource_scopes p) \<subseteq> set (resource_scopes q)"
    using assms p(1) by (metis (lifting) in_set_conv_nth list_all2_conv_all_nth)
  with p show "\<exists>r'. rel r r' \<and> (r', sc) \<in> access_of qs" by (auto simp: in_access_of)
qed

lemma decode_fold:
  assumes "foldl (decode_step decode tk) (ids, acc) qs = (ids', acc')"
  shows "(\<exists>ps. acc' = acc @ ps \<and> list_all2 (\<lambda>p q. resource_scopes p = resource_scopes q
       \<and> (resource_id p = resource_id q \<or> decode (resource_id q) = Some (resource_id p))) ps qs)
    \<and> (\<forall>d e. obj_get ids' d = Some e \<longrightarrow> obj_get ids d = Some e \<or> decode e = Some d)"
  using assms
proof (induction qs arbitrary: ids acc)
  case (Cons q qs)
  define dec where "dec = (if \<not> is_derived tk (resource_id q) \<and> derivation_read \<in> set (resource_scopes q)
     then decode (resource_id q) else None)"
  define p where "p = (case dec of None \<Rightarrow> q | Some d \<Rightarrow> q\<lparr>resource_id := d\<rparr>)"
  define ids1 where "ids1 = (case dec of None \<Rightarrow> ids | Some d \<Rightarrow> obj_set d (resource_id q) ids)"
  have step: "decode_step decode tk (ids, acc) q = (ids1, acc @ [p])"
    by (simp add: decode_step_def dec_def p_def ids1_def split: option.split)
  have p: "resource_scopes p = resource_scopes q"
      "resource_id p = resource_id q \<or> decode (resource_id q) = Some (resource_id p)"
    by (auto simp: p_def dec_def split: option.split if_splits)
  have ids1: "\<forall>d e. obj_get ids1 d = Some e \<longrightarrow> obj_get ids d = Some e \<or> decode e = Some d"
    by (auto simp: ids1_def dec_def obj_get_set split: option.splits if_splits)
  from Cons.prems have "foldl (decode_step decode tk) (ids1, acc @ [p]) qs = (ids', acc')"
    by (simp add: step)
  from Cons.IH [OF this] obtain ps where "acc' = acc @ p # ps"
    "list_all2 (\<lambda>p q. resource_scopes p = resource_scopes q
       \<and> (resource_id p = resource_id q \<or> decode (resource_id q) = Some (resource_id p))) ps qs"
    and "\<forall>d e. obj_get ids' d = Some e \<longrightarrow> obj_get ids1 d = Some e \<or> decode e = Some d"
    by auto
  with p ids1 show ?case by (intro conjI exI [of _ "p # ps"]) auto
qed simp

lemma decodeIds_within:
  assumes "decodeIds decode tk = (tk', ids)"
  shows "access_within (same_resource decode) (permissions tk') (permissions tk)
    \<and> derivedIds tk' = derivedIds tk \<and> provided tk' = provided tk
    \<and> (\<forall>d e. obj_get ids d = Some e \<longrightarrow> decode e = Some d)"
proof -
  obtain ps where f: "foldl (decode_step decode tk) ([], []) (permissions tk) = (ids, ps)"
    and tk': "tk' = tk\<lparr>permissions := ps\<rparr>"
    using assms by (auto simp: decodeIds_def split: prod.splits)
  from decode_fold [OF f] have "list_all2 (\<lambda>p q. resource_scopes p = resource_scopes q
       \<and> (resource_id p = resource_id q \<or> decode (resource_id q) = Some (resource_id p))) ps (permissions tk)"
    and ids: "\<forall>d e. obj_get ids d = Some e \<longrightarrow> decode e = Some d" by auto
  then have "access_within (same_resource decode) ps (permissions tk)"
    by (intro access_within_pointwise) (auto elim!: list.rel_mono_strong intro: same_resource_sym same_resource_decode)
  with ids show ?thesis by (simp add: tk')
qed

lemma encodeIds_within:
  assumes "\<forall>d e. obj_get ids d = Some e \<longrightarrow> decode e = Some d"
  shows "access_within (same_resource decode) (permissions (encodeIds tk ids)) (permissions tk)"
proof (cases "ids = []")
  case True
  then show ?thesis by (simp add: encodeIds_def access_within_refl)
next
  case False
  have "same_resource decode (case obj_get ids i of None \<Rightarrow> i | Some e \<Rightarrow> e) i" for i
    using assms by (auto intro: same_resource_decode split: option.split)
  then show ?thesis
    using False unfolding encodeIds_def
    by (intro access_within_pointwise) (simp add: list_all2_map1 list_all2_same)
qed

lemma encodeIds_fields [simp]:
  "provided (encodeIds tk ids) = provided tk" "derivedIds (encodeIds tk ids) = derivedIds tk"
  by (simp_all add: encodeIds_def)

lemma encode_result_within:
  assumes "\<forall>d e. obj_get ids d = Some e \<longrightarrow> decode e = Some d"
  shows "access_within (same_resource decode) (encode_result ids ps) ps"
  unfolding encode_result_def
  by (intro access_within_pointwise)
    (auto simp: list_all2_map1 list_all2_same
      intro!: same_resource_decode assms [rule_format] dest: truthy_optD)

lemma drop_fulfilled_access: "access_of (drop_fulfilled tk ids) \<subseteq> access_of (permissions tk)"
  by (auto simp: drop_fulfilled_def access_of_concat in_access_of Let_def split: if_splits)

lemma access_subset_within: "access_of ps \<subseteq> access_of qs \<Longrightarrow> access_within (same_resource decode) ps qs"
  unfolding access_within_def by (meson same_resource_refl subsetD)

lemma same_resource_within_trans:
  assumes "access_within (same_resource decode) ps qs" and "access_within (same_resource decode) qs us"
  shows "access_within (same_resource decode) ps us"
  using same_resource_trans assms by (rule access_within_trans)

lemma additional_permissions_quiet: "unchanged (\<lambda>s. s) (additional_permissions ps)"
  unfolding additional_permissions_def additional_step_def by (intro unchanged_intros)

lemma missing_derivations_quiet: "unchanged (\<lambda>s. s) (missing_derivations tk)"
  unfolding missing_derivations_def missing_step_def by (intro unchanged_intros)

lemma aggregator_init_run:
  assumes "aggregator_initializeTicket strat ps s = (Inr tk, t)"
  obtains ids extra inner where "additional_permissions ps s = (Inr (ids, extra), s)"
    "initializeTicket strat (ps @ extra) s = (Inr inner, t)"
    "tk = inner\<lparr>derivedIds := Some (ids @ (case derivedIds inner of None \<Rightarrow> [] | Some ds \<Rightarrow> ds))\<rparr>"
proof -
  obtain ids extra s' where a: "additional_permissions ps s = (Inr (ids, extra), s')"
    using assms by (auto simp: aggregator_initializeTicket_def bind_eq_Inr)
  have "s' = s" using keepsD [OF additional_permissions_quiet a] .
  with a assms that show thesis
    by (auto simp: aggregator_initializeTicket_def bind_eq_Inr)
qed

lemma aggregator_validate_run:
  assumes "aggregator_validateClaims decode strat tk claims s = (Inr tk', t)"
  obtains ids newTicket decodedIds source where
    "derived_read_ids (case obj_get claims ACCESS of None \<Rightarrow> [] | Some vs \<Rightarrow> vs) = Inr ids"
    "decodeIds decode (tk\<lparr>permissions := drop_fulfilled tk ids\<rparr>) = (newTicket, decodedIds)"
    "validateClaims strat newTicket claims s = (Inr source, t)"
    "tk' = encodeIds source decodedIds"
proof -
  obtain ids where i: "derived_read_ids (case obj_get claims ACCESS of None \<Rightarrow> [] | Some vs \<Rightarrow> vs) = Inr ids"
    using assms unfolding aggregator_validateClaims_def bind_eq_Inr lift_eq by metis
  obtain n d where "decodeIds decode (tk\<lparr>permissions := drop_fulfilled tk ids\<rparr>) = (n, d)" by force
  with i assms that show thesis
    by (auto simp: aggregator_validateClaims_def bind_eq_Inr)
qed

lemma aggregator_resolve_run:
  assumes "aggregator_resolveTicket decode strat tk s = (Inr (Success ps), t)"
  obtains decoded decodedIds out where "missing_derivations tk s = (Inr [], s)"
    "decodeIds decode tk = (decoded, decodedIds)"
    "resolveTicket strat decoded s = (Inr (Success out), t)"
    "ps = encode_result decodedIds out"
proof -
  obtain claims s' where m: "missing_derivations tk s = (Inr claims, s')"
    using assms unfolding aggregator_resolveTicket_def bind_eq_Inr by blast
  have s': "s' = s" using keepsD [OF missing_derivations_quiet m] .
  obtain n d where d: "decodeIds decode tk = (n, d)" by force
  obtain res t' where r: "resolveTicket strat n s = (Inr res, t')"
    using assms m d by (auto simp: aggregator_resolveTicket_def bind_eq_Inr s')
  show thesis
  proof (cases res)
    case (Success out)
    with assms m d r s' show ?thesis
      by (intro that [of n d out])
        (auto simp: aggregator_resolveTicket_def bind_eq_Inr split: if_splits)
  next
    case (Failure claims)
    with assms m d r s' show ?thesis by (auto simp: aggregator_resolveTicket_def bind_eq_Inr)
  qed
qed

context plain_strategy
begin

lemma aggregator_initialized:
  assumes "fst (initializeTicket (AggregatorStrategy decode strategy) ps s) = Inr tk"
  shows "provided tk = [] \<and> (\<exists>more. permissions tk = ps @ more)"
proof -
  from run_fst [OF assms] obtain s' ids extra inner where
    "initializeTicket strategy (ps @ extra) s = (Inr inner, s')"
    "tk = inner\<lparr>derivedIds := Some (ids @ (case derivedIds inner of None \<Rightarrow> [] | Some ds \<Rightarrow> ds))\<rparr>"
    by (auto simp: AggregatorStrategy_def elim: aggregator_init_run)
  then show ?thesis using init_ticket [of "ps @ extra" s inner] by auto
qed

lemma aggregator_validated:
  assumes "fst (validateClaims (AggregatorStrategy decode strategy) tk claims s) = Inr tk'"
  shows "provided tk' = add_claims (provided tk) claims
    \<and> access_within (same_resource decode) (permissions tk') (permissions tk)"
proof -
  from run_fst [OF assms] obtain ids newTicket decodedIds source s' where
    d: "decodeIds decode (tk\<lparr>permissions := drop_fulfilled tk ids\<rparr>) = (newTicket, decodedIds)"
    and v: "validateClaims strategy newTicket claims s = (Inr source, s')"
    and tk': "tk' = encodeIds source decodedIds"
    by (auto simp: AggregatorStrategy_def elim: aggregator_validate_run)
  let ?w = "access_within (same_resource decode)"
  note trans = same_resource_within_trans
  have w1: "?w (permissions tk') (permissions source)"
    using decodeIds_within [OF d] by (simp add: tk' encodeIds_within)
  have w2: "?w (permissions source) (permissions newTicket)"
    using validate_ticket [of newTicket claims s source] v by (simp add: access_subset_within)
  have w3: "?w (permissions newTicket) (drop_fulfilled tk ids)"
    using decodeIds_within [OF d] by simp
  have w4: "?w (drop_fulfilled tk ids) (permissions tk)"
    by (rule access_subset_within) (rule drop_fulfilled_access)
  have "?w (permissions tk') (permissions tk)"
    by (rule trans [OF w1 trans [OF w2 trans [OF w3 w4]]])
  moreover have "provided tk' = add_claims (provided tk) claims"
    using decodeIds_within [OF d] validate_ticket [of newTicket claims s source] v by (simp add: tk')
  ultimately show ?thesis by simp
qed

lemma aggregator_resolved:
  assumes "fst (resolveTicket (AggregatorStrategy decode strategy) tk s) = Inr (Success ps)"
  shows "access_within (same_resource decode) ps (permissions tk) \<and> ps \<noteq> []"
proof -
  from run_fst [OF assms] obtain decoded decodedIds out s' where
    d: "decodeIds decode tk = (decoded, decodedIds)"
    and r: "resolveTicket strategy decoded s = (Inr (Success out), s')"
    and ps: "ps = encode_result decodedIds out"
    by (auto simp: AggregatorStrategy_def elim: aggregator_resolve_run)
  let ?w = "access_within (same_resource decode)"
  have "?w ps out" using decodeIds_within [OF d] by (simp add: ps encode_result_within)
  moreover have "?w out (permissions decoded)" "out \<noteq> []"
    using resolve_ticket [of decoded s out] r by (simp_all add: access_subset_within)
  moreover have "?w (permissions decoded) (permissions tk)" using decodeIds_within [OF d] by simp
  ultimately show ?thesis
    by (auto simp: ps encode_result_def intro: same_resource_within_trans)
qed

lemma aggregator_strategy: "ticketing_strategy (AggregatorStrategy decode strategy) (same_resource decode)"
proof
  show "keeps quiet (initializeTicket (AggregatorStrategy decode strategy) ps)" for ps
    unfolding AggregatorStrategy_def aggregator_initializeTicket_def ticketing.simps
    by (intro quiet_intros init_quiet same_is_quiet [OF additional_permissions_quiet])
  show "keeps quiet (validateClaims (AggregatorStrategy decode strategy) tk claims)" for tk claims
    unfolding AggregatorStrategy_def aggregator_validateClaims_def ticketing.simps
    by (intro quiet_intros validate_quiet)
  show "keeps quiet (resolveTicket (AggregatorStrategy decode strategy) tk)" for tk
    unfolding AggregatorStrategy_def aggregator_resolveTicket_def ticketing.simps
    by (intro quiet_intros resolve_quiet same_is_quiet [OF missing_derivations_quiet])
qed (auto intro: same_resource_trans dest: aggregator_initialized aggregator_validated aggregator_resolved)

end

sublocale plain_strategy < aggregated: ticketing_strategy "AggregatorStrategy decode strategy" "same_resource decode"
  for decode
  by (rule aggregator_strategy)

interpretation default_strategy: plain_strategy
  "ImmediateAuthorizerStrategy (SimpleOdrlAuthorizer parse_date query_json (OdrlAuthorizer eng iso_date blank)) part"
  for parse_date query_json eng iso_date blank part
  by (rule default_auth.immediate.plain_strategy_axioms)

end
