(* ===== verification/TicketingFacts.thy ===== *)
theory TicketingFacts
  imports Ticketing
begin

text \<open>
  What the ticketing strategies guarantee: the exact decision of the immediate strategy, and the
  derivation gate of the aggregator strategy.
\<close>

subsection \<open>The immediate strategy\<close>

text \<open>
  the immediate strategy decides exactly. With the authorizer's non-empty answers in hand, it
  refuses without requirements when there are none, accepts them when partial success is allowed
  or when every requested (resource, scope) pair is granted, and otherwise fails with one
  required claim per request that is short of scopes.
\<close>

theorem immediate_decides:
  assumes "calculatePermissions auth tk s = (Inr granted, t)"
  shows "immediate_resolveTicket auth part tk s =
    (Inr (if granted = [] then Failure []
          else if part \<or> access_of (permissions tk) \<subseteq> access_of granted then Success granted
          else Failure (map scopes_claim (unmatchedPermissions granted (permissions tk)))), t)"
  using assms
  by (auto simp: immediate_resolveTicket_def bind_def return_def Let_def unmatched_empty_iff)

text \<open>
  C30: a complete success grants precisely what the ticket asks for. For every authorizer that
  does not grant more than it is asked, the granted (resource, scope) pairs of a ticket resolved
  without partial success are the requested ones, neither more nor fewer.
\<close>

theorem immediate_success_is_exact:
  assumes "sound_authorizer auth"
    and "immediate_resolveTicket auth False tk s = (Inr (Success ps), t)"
  shows "access_of ps = access_of (permissions tk) \<and> ps \<noteq> []"
  using immediate_resolve_Success [OF assms(2)] calculatePermissions_access [OF assms(1)]
  by blast

definition example_ticket :: ticket where
  "example_ticket = \<lparr>derivedIds = None,
     permissions = [\<lparr>resource_id = ''x'', resource_scopes = [''read'']\<rparr>], provided = []\<rparr>"

lemma immediate_decides_witness:
  "immediate_resolveTicket NoneAuthorizer True example_ticket empty_state = (Inr (Failure []), empty_state)"
proof -
  have "calculatePermissions NoneAuthorizer example_ticket empty_state = (Inr [], empty_state)"
    by (simp add: calculatePermissions_def NoneAuthorizer_def)
  from immediate_decides [OF this] show ?thesis by simp
qed

lemma immediate_success_is_exact_witness:
  "access_of [\<lparr>resource_id = ''x'', resource_scopes = [''read'']\<rparr>] = access_of (permissions example_ticket)"
proof -
  have "fst (immediate_resolveTicket AllAuthorizer False example_ticket empty_state)
      = Inr (Success [\<lparr>resource_id = ''x'', resource_scopes = [''read'']\<rparr>])"
    by code_simp
  from immediate_success_is_exact [OF all_auth.sound_authorizer_axioms run_fst [OF this]]
  show ?thesis by simp
qed

subsection \<open>The derivation gate\<close>

text \<open>A derived identifier whose derivation-read is still required.\<close>

definition pending :: "string \<Rightarrow> ticket \<Rightarrow> bool" where
  "pending i tk \<longleftrightarrow> is_derived tk i
     \<and> (\<exists>p \<in> set (permissions tk). resource_id p = i \<and> derivation_read \<in> set (resource_scopes p))"

text \<open>A claim set with an access token's entry that gives derivation-read for the identifier.\<close>

definition proves_derivation :: "string \<Rightarrow> claimset \<Rightarrow> bool" where
  "proves_derivation i claims \<longleftrightarrow> (\<exists>vs v. obj_get claims ACCESS = Some vs \<and> v \<in> set vs
     \<and> js_prop v ''resource_id'' = JStr i \<and> grants_derivation_read v = Inr True)"

lemma derived_read_ids_mem:
  "derived_read_ids vs = Inr ids \<Longrightarrow> JStr i \<in> set ids \<Longrightarrow>
     \<exists>v \<in> set vs. js_prop v ''resource_id'' = JStr i \<and> grants_derivation_read v = Inr True"
  by (induction vs arbitrary: ids) (auto split: sum.splits if_splits)

lemma drop_fulfilled_keeps:
  assumes "p \<in> set (permissions tk)" and "JStr (resource_id p) \<notin> set ids"
  shows "p \<in> set (drop_fulfilled tk ids)"
  using assms by (auto simp: drop_fulfilled_def intro!: bexI [of _ p])

lemma decode_step_keeps:
  "p \<in> set (snd acc) \<Longrightarrow> p \<in> set (snd (foldl (decode_step decode tk) acc qs))"
  by (induction qs arbitrary: acc)
    (auto simp: decode_step_def split: prod.splits option.splits if_splits)

lemma decode_fold_derived:
  assumes "p \<in> set qs" and "is_derived tk (resource_id p)"
  shows "p \<in> set (snd (foldl (decode_step decode tk) acc qs))"
  using assms
proof (induction qs arbitrary: acc)
  case (Cons q qs)
  show ?case
  proof (cases "p = q")
    case True
    then have "p \<in> set (snd (decode_step decode tk acc q))"
      using Cons.prems(2) by (cases acc) (simp add: decode_step_def)
    then show ?thesis by (simp add: decode_step_keeps)
  next
    case False
    with Cons show ?thesis by simp
  qed
qed simp

lemma decodeIds_derived:
  assumes "decodeIds decode tk = (tk', ids)" "p \<in> set (permissions tk)" "is_derived tk (resource_id p)"
  shows "p \<in> set (permissions tk')"
  using decode_fold_derived [OF assms(2,3), of decode "([], [])"] assms(1)
  by (auto simp: decodeIds_def split: prod.splits)

lemma encodeIds_keeps:
  assumes "p \<in> set (permissions tk)" and "obj_get ids (resource_id p) = None"
  shows "p \<in> set (permissions (encodeIds tk ids))"
  using assms by (auto simp: encodeIds_def image_iff intro!: bexI [of _ p])

text \<open>
  Over an immediate strategy, a requirement stays pending until a claim set proves it, for an
  identifier no identifier of the server decodes to.
\<close>

lemma pending_until_proved:
  assumes run: "aggregator_validateClaims decode (ImmediateAuthorizerStrategy auth part) tk claims s = (Inr tk', t)"
    and pend: "pending i tk" and fresh: "\<forall>e. decode e \<noteq> Some i"
    and unproved: "\<not> proves_derivation i claims"
  shows "pending i tk'"
proof -
  obtain p where p: "p \<in> set (permissions tk)" "resource_id p = i"
      "derivation_read \<in> set (resource_scopes p)" and der: "is_derived tk i"
    using pend by (auto simp: pending_def)
  from run obtain ids newTicket decodedIds source where
    ids: "derived_read_ids (case obj_get claims ACCESS of None \<Rightarrow> [] | Some vs \<Rightarrow> vs) = Inr ids"
    and d: "decodeIds decode (tk\<lparr>permissions := drop_fulfilled tk ids\<rparr>) = (newTicket, decodedIds)"
    and v: "validateClaims (ImmediateAuthorizerStrategy auth part) newTicket claims s = (Inr source, t)"
    and tk': "tk' = encodeIds source decodedIds"
    by (rule aggregator_validate_run)
  have "JStr i \<notin> set ids"
  proof
    assume "JStr i \<in> set ids"
    from derived_read_ids_mem [OF ids this] unproved show False
      by (cases "obj_get claims ACCESS") (auto simp: proves_derivation_def)
  qed
  then have "p \<in> set (drop_fulfilled tk ids)"
    using drop_fulfilled_keeps p by simp
  then have "p \<in> set (permissions newTicket)"
    by (intro decodeIds_derived [OF d]) (use der p(2) in \<open>simp_all add: is_derived_def\<close>)
  moreover have source: "permissions source = permissions newTicket" "derivedIds source = derivedIds newTicket"
    using v by (auto simp: ImmediateAuthorizerStrategy_def immediate_validateClaims_def)
  moreover have none: "obj_get decodedIds i = None"
    using decodeIds_within [OF d] fresh by (meson option.exhaust)
  ultimately have "p \<in> set (permissions tk')"
    unfolding tk' using p(2) by (intro encodeIds_keeps) simp_all
  moreover have "derivedIds tk' = derivedIds tk"
    using decodeIds_within [OF d] source by (simp add: tk')
  ultimately show ?thesis using p der by (auto simp: pending_def is_derived_def)
qed

lemma missing_step_run:
  assumes "missing_step tk claims p s = (Inr claims', t)"
  shows "t = s \<and> (claims \<noteq> [] \<longrightarrow> claims' \<noteq> [])
    \<and> (is_derived tk (resource_id p) \<and> derivation_read \<in> set (resource_scopes p) \<longrightarrow> claims' \<noteq> [])"
  using assms by (auto simp: missing_step_def split: if_splits)

lemma missing_fold_nonempty:
  assumes "fold_act (missing_step tk) acc ps s = (Inr claims, t)"
    and "acc \<noteq> [] \<or> (\<exists>p \<in> set ps. is_derived tk (resource_id p) \<and> derivation_read \<in> set (resource_scopes p))"
  shows "claims \<noteq> []"
  using assms
proof (induction ps arbitrary: acc s)
  case (Cons p ps)
  obtain acc' s' where step: "missing_step tk acc p s = (Inr acc', s')"
    and rest: "fold_act (missing_step tk) acc' ps s' = (Inr claims, t)"
    using Cons.prems(1) by (auto simp: bind_eq_Inr)
  show ?case using Cons.IH [OF rest] missing_step_run [OF step] Cons.prems(2) by auto
qed simp

lemma missing_derivations_pending:
  "missing_derivations tk s = (Inr claims, t) \<Longrightarrow> pending i tk \<Longrightarrow> claims \<noteq> []"
  unfolding missing_derivations_def pending_def by (rule missing_fold_nonempty) auto

lemma pending_blocks:
  assumes "pending i tk"
  shows "aggregator_resolveTicket decode strat tk s \<noteq> (Inr (Success ps), t)"
proof
  assume "aggregator_resolveTicket decode strat tk s = (Inr (Success ps), t)"
  then show False
    by (rule aggregator_resolve_run) (use missing_derivations_pending [OF _ assms] in auto)
qed

lemma additional_step_run:
  assumes "additional_step acc p s = (Inr acc', t)"
  shows "t = s \<and> fst acc' = fst acc @ map de_derivation_resource_id (derivedFrom s (resource_id p))
    \<and> snd acc' = snd acc @ map derivation_permission (derivedFrom s (resource_id p))"
  using assms by (auto simp: additional_step_def split: prod.splits if_splits)

lemma additional_fold_run:
  assumes "fold_act additional_step acc ps s = (Inr out, t)"
  shows "fst out = fst acc @ concat (map (\<lambda>p. map de_derivation_resource_id (derivedFrom s (resource_id p))) ps)
    \<and> snd out = snd acc @ concat (map (\<lambda>p. map derivation_permission (derivedFrom s (resource_id p))) ps)"
  using assms
proof (induction ps arbitrary: acc)
  case (Cons p ps)
  obtain acc' s' where step: "additional_step acc p s = (Inr acc', s')"
    and rest: "fold_act additional_step acc' ps s' = (Inr out, t)"
    using Cons.prems by (auto simp: bind_eq_Inr)
  show ?case using Cons.IH [of acc'] rest additional_step_run [OF step] by simp
qed simp

lemma aggregator_init_pending:
  assumes "aggregator_initializeTicket (ImmediateAuthorizerStrategy auth part) ps s = (Inr tk, t)"
    and "p \<in> set ps" and "d \<in> set (derivedFrom s (resource_id p))"
  shows "pending (de_derivation_resource_id d) tk"
proof -
  from assms(1) obtain ids extra inner where
    a: "additional_permissions ps s = (Inr (ids, extra), s)"
    and i: "initializeTicket (ImmediateAuthorizerStrategy auth part) (ps @ extra) s = (Inr inner, t)"
    and tk: "tk = inner\<lparr>derivedIds := Some (ids @ (case derivedIds inner of None \<Rightarrow> [] | Some ds \<Rightarrow> ds))\<rparr>"
    by (rule aggregator_init_run)
  note run = additional_fold_run [OF a [unfolded additional_permissions_def]]
  have "derivation_permission d \<in> set extra" "de_derivation_resource_id d \<in> set ids"
    using run assms(2,3) by auto
  moreover have "permissions inner = ps @ extra"
    using i by (auto simp: ImmediateAuthorizerStrategy_def immediate_initializeTicket_def)
  ultimately show ?thesis
    unfolding pending_def is_derived_def tk
    by (auto simp: derivation_permission_def intro!: bexI [of _ "derivation_permission d"])
qed

definition derived_state :: dialog_state where
  "derived_state = empty_state\<lparr>registrationStore := [''agg'' \<mapsto> \<lparr>reg_owner = ''alice'',
     reg_description = \<lparr>rd_resource_scopes = [ODRL_READ], rd_resource_defaults = None,
       rd_resource_relations = None,
       rd_derived_from = Some [\<lparr>de_issuer = ''as2'', de_derivation_resource_id = ''d1''\<rparr>],
       rd_name = None, rd_body = JObj []\<rparr>\<rparr>]\<rparr>"

definition derivation_proof :: claimset where
  "derivation_proof = [(ACCESS, [JObj [(''resource_id'', JStr ''d1''),
     (''resource_scopes'', JArr [JStr derivation_read])]])]"


end
