(* ===== verification/Verifiers.thy ===== *)
theory Verifiers
  imports Stores
begin

text \<open>
  \<open>credentials/verify/\<close>, \<open>credentials/parse/\<close> and \<open>util/JwtUtil.ts\<close>: turning credentials
  into claims. The JWT library, the Solid token verifier, URL parsing and the HTTP client are the
  fields of \<open>web\<close>, an argument of the definitions. The locale \<open>verifier\<close> is the contract
  the negotiators rely on.
\<close>

subsection \<open>The libraries used\<close>

text \<open>
  \<open>fetch_config\<close>: the status, \<open>issuer\<close> and \<open>jwks_uri\<close> of an OpenID configuration, \<open>None\<close>
  when the request fails. \<open>decodeJwt\<close> reads the payload without any check, \<open>jwtVerify\<close> with a
  key set and options, \<open>verifyToken\<close> is the Solid verifier; \<open>None\<close> stands for an exception.
  \<open>parse_url\<close> is \<open>new URL(s).toString()\<close>.
\<close>

record web =
  joinUrl :: "string \<Rightarrow> string \<Rightarrow> string"
  fetch_config :: "string \<Rightarrow> (nat \<times> string option \<times> string option) option"
  parse_url :: "string \<Rightarrow> string option"
  decodeURIComponent :: "string \<Rightarrow> string option"
  decodeJwt :: "string \<Rightarrow> js option"
  jwtVerify :: "string \<Rightarrow> string \<Rightarrow> js \<Rightarrow> js option"
  verifyToken :: "string \<Rightarrow> js option"
  parse_date :: "string \<Rightarrow> int option"

subsection \<open>The interface\<close>

type_synonym verify_fun = "credential \<Rightarrow> claimset dialog"

text \<open>
  A verifier leaves every storage alone except that it may drop entries of the refresh store.
\<close>

definition drops_refresh :: "dialog_state \<Rightarrow> dialog_state \<Rightarrow> bool" where
  "drops_refresh s t \<longleftrightarrow>
     stored (t\<lparr>refreshStore := Map.empty\<rparr>) = stored (s\<lparr>refreshStore := Map.empty\<rparr>)
     \<and> drawn s \<le> drawn t \<and> refreshStore t \<subseteq>\<^sub>m refreshStore s"

interpretation drops: state_frame drops_refresh
  by unfold_locales (auto simp: drops_refresh_def intro: map_le_trans)

lemma drops_refresh_fields:
  assumes "drops_refresh s t"
  shows "ticketStore t = ticketStore s" "tokenStore t = tokenStore s"
    "registrationStore t = registrationStore s" "derivationStore t = derivationStore s"
    "ownershipStore t = ownershipStore s" "policies t = policies s" "clock t = clock s"
    "entropy t = entropy s" "drawn s \<le> drawn t"
    "clientTable t = clientTable s" "patTable t = patTable s"
  using assms
  by (auto simp: drops_refresh_def stored_def dest: arg_cong [where f = ticketStore]
      arg_cong [where f = tokenStore] arg_cong [where f = registrationStore]
      arg_cong [where f = derivationStore] arg_cong [where f = ownershipStore]
      arg_cong [where f = policies] arg_cong [where f = clock] arg_cong [where f = entropy]
      arg_cong [where f = clientTable] arg_cong [where f = patTable])

lemma quiet_drops: "quiet s t \<Longrightarrow> drops_refresh s t"
  by (cases s; cases t) (simp add: quiet_def drops_refresh_def stored_def)

lemma quiet_is_drops: "keeps quiet m \<Longrightarrow> keeps drops_refresh m"
  by (erule keeps_weaken) (rule quiet_drops)

locale verifier =
  fixes verify :: verify_fun
  assumes verify_frame: "keeps drops_refresh (verify c)"
begin

lemma frame: "verify c s = (r, t) \<Longrightarrow> drops_refresh s t"
  using verify_frame by (rule keepsD)

end

subsection \<open>Key sets\<close>

text \<open>\<open>getJwks\<close>: a cached key set is the address it is loaded from; an absent issuer is a type error.\<close>

definition getJwks :: "web \<Rightarrow> js \<Rightarrow> string dialog" where
  "getJwks w iss =
     (case iss of
        JStr issuer \<Rightarrow>
          bind (gets (\<lambda>s. jwksRecord s issuer)) (\<lambda>cached.
          case cached of
            Some uri \<Rightarrow> return uri
          | None \<Rightarrow>
              (case fetch_config w (joinUrl w issuer ''/.well-known/openid-configuration'') of
                 None \<Rightarrow> throw PlainError
               | Some (status, config_issuer, jwks_uri) \<Rightarrow>
                   if status \<noteq> 200 then throw BadRequest
                   else if config_issuer \<noteq> Some issuer then throw BadRequest
                   else if \<not> truthy_opt jwks_uri then throw BadRequest
                   else (case parse_url w (the jwks_uri) of
                       None \<Rightarrow> throw PlainError
                     | Some uri \<Rightarrow>
                         bind (modify (\<lambda>s. s\<lparr>jwksRecord := (jwksRecord s)(issuer \<mapsto> uri)\<rparr>)) (\<lambda>_.
                           return uri))))
      | _ \<Rightarrow> throw PlainError)"

text \<open>\<open>jwtVerify\<close> as an action.\<close>

definition verify_jwt :: "web \<Rightarrow> string \<Rightarrow> string \<Rightarrow> js \<Rightarrow> js dialog" where
  "verify_jwt w tok uri opts = (case jwtVerify w tok uri opts of
      None \<Rightarrow> throw PlainError | Some payload \<Rightarrow> return payload)"

definition decode_jwt :: "web \<Rightarrow> string \<Rightarrow> js dialog" where
  "decode_jwt w tok = (case decodeJwt w tok of None \<Rightarrow> throw PlainError | Some payload \<Rightarrow> return payload)"

subsection \<open>The verifiers\<close>

definition KeyValueVerifier :: verify_fun where
  "KeyValueVerifier c = return [(format c, [JStr (token c)])]"

definition UnsecureVerifier :: "web \<Rightarrow> verify_fun" where
  "UnsecureVerifier w c =
     (if format c \<noteq> UNSECURE then throw PlainError
      else (let raw = split_on (CHR '':'') (token c);
                read = (\<lambda>part. case decodeURIComponent w part of None \<Rightarrow> None | Some u \<Rightarrow> parse_url w u)
            in if length raw > 2 then throw PlainError
               else (case read (hd raw) of
                   None \<Rightarrow> throw PlainError
                 | Some webid \<Rightarrow>
                     if length raw = 2
                     then (case read (raw ! 1) of
                         None \<Rightarrow> throw PlainError
                       | Some client \<Rightarrow> return [(WEBID, [JStr webid]), (CLIENTID, [JStr client])])
                     else return [(WEBID, [JStr webid])])))"

definition jwt_claim :: "js \<Rightarrow> js list" where
  "jwt_claim v = (case v of JArr xs \<Rightarrow> xs | _ \<Rightarrow> [v])"

definition allowed_claims :: "string list \<Rightarrow> bool \<Rightarrow> js \<Rightarrow> claimset dialog" where
  "allowed_claims allowedClaims errorOnExtraClaims claims =
     fold_act (\<lambda>result (claim, v).
       if claim \<in> set allowedClaims then return (obj_set claim (jwt_claim v) result)
       else if errorOnExtraClaims then throw PlainError
       else return result) [] (own_props claims)"

definition JwtVerifier :: "web \<Rightarrow> string list \<Rightarrow> bool \<Rightarrow> bool \<Rightarrow> verify_fun" where
  "JwtVerifier w allowedClaims errorOnExtraClaims checkJwt c =
     (if format c \<noteq> JWT then throw PlainError
      else bind (decode_jwt w (token c)) (\<lambda>claims.
        bind (if checkJwt
          then (if \<not> truthy (js_prop claims ''iss'') then throw PlainError
                else bind (getJwks w (js_prop claims ''iss'')) (\<lambda>uri.
                  bind (verify_jwt w (token c) uri JUndef) (\<lambda>_. return ())))
          else return ()) (\<lambda>_.
        allowed_claims allowedClaims errorOnExtraClaims claims)))"

definition RefreshTokenVerifier :: verify_fun where
  "RefreshTokenVerifier c =
     (if format c \<noteq> REFRESH_TOKEN then throw BadRequest
      else bind (gets (\<lambda>s. (ex_get (clock s) (refreshStore s) (token c), clock s))) (\<lambda>(found, now).
        case found of
          None \<Rightarrow> throw BadRequest
        | Some information \<Rightarrow>
            if now > ri_expiration information
            then bind (modify (\<lambda>s. s\<lparr>refreshStore := ex_delete (refreshStore s) (token c)\<rparr>)) (\<lambda>_.
              throw Forbidden)
            else return (ri_claims information)))"

definition TypedVerifier :: "verify_fun obj \<Rightarrow> verify_fun" where
  "TypedVerifier verifiers c =
     (case obj_get verifiers (format c) of None \<Rightarrow> throw BadRequest | Some v \<Rightarrow> v c)"

text \<open>\<open>OidcVerifier\<close>: \<open>verifyOptions.issuer\<close> is a string, a list of strings, or absent.\<close>

definition allowedIssuers :: "js \<Rightarrow> js list option" where
  "allowedIssuers opts = (case js_prop opts ''issuer'' of
      JStr i \<Rightarrow> Some [JStr i]
    | JArr xs \<Rightarrow> Some xs
    | _ \<Rightarrow> None)"

definition nullish :: "js \<Rightarrow> bool" where
  "nullish v = (v = JUndef \<or> v = JNull)"

definition verifySolidToken :: "web \<Rightarrow> js \<Rightarrow> string \<Rightarrow> claimset dialog" where
  "verifySolidToken w opts tok =
     (case verifyToken w (''Bearer '' @ tok) of
        None \<Rightarrow> throw PlainError
      | Some claims \<Rightarrow>
          (let iss = js_prop claims ''iss'';
               clientId = (if nullish (js_prop claims ''azp'') then js_prop claims ''client_id''
                           else js_prop claims ''azp'')
           in if \<not> truthy iss \<or> (case allowedIssuers opts of None \<Rightarrow> False | Some is \<Rightarrow> iss \<notin> set is)
              then throw BadRequest
              else return ((WEBID, [js_prop claims ''webid''])
                # (if truthy clientId then [(CLIENTID, [clientId])] else []))))"

definition access_permission :: "js \<Rightarrow> permission list \<Rightarrow> permission \<Rightarrow> permission list dialog" where
  "access_permission iss acc p =
     (if derivation_read \<in> set (resource_scopes p)
      then bind (gets (\<lambda>s. kv_get (derivationStore s) (resource_id p))) (\<lambda>issuer.
        if (case issuer of None \<Rightarrow> JUndef | Some i \<Rightarrow> JStr i) \<noteq> iss then throw Forbidden
        else return (acc @ [\<lparr>resource_id = resource_id p, resource_scopes = [derivation_read]\<rparr>]))
      else return acc)"

definition verifyStandardToken :: "web \<Rightarrow> js \<Rightarrow> string \<Rightarrow> string \<Rightarrow> js \<Rightarrow> claimset dialog" where
  "verifyStandardToken w opts tok fmt issuer =
     bind (getJwks w issuer) (\<lambda>uri.
     bind (verify_jwt w tok uri opts) (\<lambda>payload.
       if fmt = OIDC then
         (if \<not> truthy (js_prop payload ''sub'') then throw BadRequest
          else return ((WEBID, [js_prop payload ''sub''])
            # (if truthy (js_prop payload ''azp'') then [(CLIENTID, [js_prop payload ''azp''])] else [])))
       else if fmt = ACCESS_TOKEN then
         (if \<not> reType payload AccessToken then throw PlainError
          else bind (fold_act (access_permission (js_prop payload ''iss'')) []
              (decode_permissions (js_prop payload ''permissions''))) (\<lambda>ps.
            return [(ACCESS, map encode_permission ps)]))
       else throw InternalServer))"

definition isSolidToken :: "js \<Rightarrow> bool" where
  "isSolidToken payload =
     ((js_prop payload ''aud'' = JStr ''solid''
       \<or> (case js_prop payload ''aud'' of JArr xs \<Rightarrow> JStr ''solid'' \<in> set xs | _ \<Rightarrow> False))
      \<and> is_string (js_prop payload ''webid''))"

definition OidcVerifier :: "web \<Rightarrow> js \<Rightarrow> verify_fun" where
  "OidcVerifier w opts c =
     (if format c \<noteq> OIDC \<and> format c \<noteq> ACCESS_TOKEN then throw BadRequest
      else bind (decode_jwt w (token c)) (\<lambda>unsafeDecoded.
        catch (if isSolidToken unsafeDecoded then verifySolidToken w opts (token c)
               else verifyStandardToken w opts (token c) (format c) (js_prop unsafeDecoded ''iss''))
          (\<lambda>_. throw BadRequest)))"

text \<open>\<open>VcVerifier\<close>: an unparseable date compares false, so it neither delays nor expires a VC.\<close>

definition date_after :: "web \<Rightarrow> js \<Rightarrow> int \<Rightarrow> bool" where
  "date_after w v now = (case v of
      JStr d \<Rightarrow> (case parse_date w d of None \<Rightarrow> False | Some t \<Rightarrow> t > now) | _ \<Rightarrow> False)"

definition date_before :: "web \<Rightarrow> js \<Rightarrow> int \<Rightarrow> bool" where
  "date_before w v now = (case v of
      JStr d \<Rightarrow> (case parse_date w d of None \<Rightarrow> False | Some t \<Rightarrow> t < now) | _ \<Rightarrow> False)"

definition extractVcClaims :: "web \<Rightarrow> int \<Rightarrow> js \<Rightarrow> error + js" where
  "extractVcClaims w now payload =
     (let vc = js_prop payload ''vc'' in
      if \<not> is_object vc then Inl BadRequest
      else if date_after w (js_prop vc ''issuanceDate'') now then Inl BadRequest
      else if date_after w (js_prop vc ''validFrom'') now then Inl BadRequest
      else if date_before w (js_prop vc ''expirationDate'') now then Inl BadRequest
      else if date_before w (js_prop vc ''validUntil'') now then Inl BadRequest
      else if \<not> (is_object (js_prop vc ''credentialSubject'') \<or> js_prop vc ''credentialSubject'' = JNull)
      then Inl BadRequest
      else Inr vc)"

definition VcVerifier :: "web \<Rightarrow> js \<Rightarrow> verify_fun" where
  "VcVerifier w opts c =
     (if format c \<noteq> VC_JWT then throw BadRequest
      else bind (decode_jwt w (token c)) (\<lambda>unsafeDecoded.
        if \<not> truthy (js_prop unsafeDecoded ''iss'') then throw BadRequest
        else bind (getJwks w (js_prop unsafeDecoded ''iss'')) (\<lambda>uri.
          bind (verify_jwt w (token c) uri opts) (\<lambda>payload.
          bind (gets clock) (\<lambda>now.
          bind (lift (extractVcClaims w now payload)) (\<lambda>vc.
            return [(VC, [vc])]))))))"

text \<open>
  \<open>IriVerifier\<close>: for each of the two claim types the original values are kept under a second
  name, and values that are not IRIs are turned into one below the base URL.
\<close>

definition iri_entry :: "web \<Rightarrow> string \<Rightarrow> js \<Rightarrow> js" where
  "iri_entry w baseUrl v = (case v of
      JStr s \<Rightarrow> if isIri s then v else JStr (joinUrl w baseUrl (encodeURIComponent s))
    | _ \<Rightarrow> v)"

definition iri_step :: "web \<Rightarrow> string \<Rightarrow> claimset \<Rightarrow> claimset \<Rightarrow> string \<times> string \<Rightarrow> claimset" where
  "iri_step w baseUrl claims result names = (case names of (claimType, original) \<Rightarrow>
     (case obj_get claims claimType of
        None \<Rightarrow> result
      | Some vs \<Rightarrow> obj_set claimType (map (iri_entry w baseUrl) vs) (obj_set original vs result)))"

definition iri_claims :: "web \<Rightarrow> string \<Rightarrow> claimset \<Rightarrow> claimset" where
  "iri_claims w baseUrl claims = foldl (iri_step w baseUrl claims) claims
     [(WEBID, ORIGINAL_WEBID), (CLIENTID, ORIGINAL_CLIENTID)]"

definition IriVerifier :: "web \<Rightarrow> string \<Rightarrow> verify_fun \<Rightarrow> verify_fun" where
  "IriVerifier w baseUrl v c = bind (v c) (\<lambda>claims. return (iri_claims w baseUrl claims))"

subsection \<open>\<open>MappedSchemeParser\<close>\<close>

text \<open>
  \<open>canHandle\<close> and \<open>handle\<close>, run one after the other as \<open>handleSafe\<close> does. The scheme is the
  header up to the first space, the token what follows that space.
\<close>

definition first_word :: "string \<Rightarrow> string" where
  "first_word s = hd (split_on (CHR '' '') s)"

definition MappedSchemeParser :: "string obj \<Rightarrow> string option \<Rightarrow> error + credential" where
  "MappedSchemeParser schemeMap authorization =
     (if \<not> truthy_opt authorization then Inl Unauthorized
      else (let header = the authorization; scheme = first_word header in
        if \<not> truthy_opt (obj_get schemeMap scheme) then Inl Forbidden
        else Inr \<lparr>token = drop (length scheme + 1) header,
                  format = the (obj_get schemeMap scheme)\<rparr>))"

subsection \<open>The verifiers keep the contract\<close>

lemma getJwks_quiet: "keeps quiet (getJwks w iss)"
proof -
  have upd: "quiet s (s\<lparr>jwksRecord := m\<rparr>)" for s m by (simp add: quiet_def stored_def)
  show ?thesis
    unfolding getJwks_def
    by (cases iss; simp only: js.case) (intro quiet_intros upd)+
qed

lemma jwt_actions_quiet: "keeps quiet (verify_jwt w tok uri opts)" "keeps quiet (decode_jwt w tok)"
  unfolding verify_jwt_def decode_jwt_def by (intro quiet_intros)+

lemma access_permission_quiet: "keeps quiet (access_permission iss acc p)"
  unfolding access_permission_def by (intro quiet_intros)

interpretation key_value_verifier: verifier KeyValueVerifier
  by unfold_locales (simp add: KeyValueVerifier_def drops.keeps_return)

interpretation unsecure_verifier: verifier "UnsecureVerifier w" for w
  by unfold_locales (unfold UnsecureVerifier_def, intro drops.intros)

interpretation jwt_verifier: verifier "JwtVerifier w allowedClaims errorOnExtraClaims checkJwt"
  for w allowedClaims errorOnExtraClaims checkJwt
  by unfold_locales (unfold JwtVerifier_def allowed_claims_def,
    intro quiet_is_drops quiet_intros getJwks_quiet jwt_actions_quiet)

interpretation oidc_verifier: verifier "OidcVerifier w opts" for w opts
  by unfold_locales (unfold OidcVerifier_def verifySolidToken_def verifyStandardToken_def,
    intro quiet_is_drops quiet_intros getJwks_quiet jwt_actions_quiet access_permission_quiet)

interpretation vc_verifier: verifier "VcVerifier w opts" for w opts
  by unfold_locales (unfold VcVerifier_def,
    intro quiet_is_drops quiet_intros getJwks_quiet jwt_actions_quiet)

lemma drop_entry: "drops_refresh s (s\<lparr>refreshStore := ex_delete (refreshStore s) k\<rparr>)"
  by (simp add: drops_refresh_def map_le_def ex_delete_def)

interpretation refresh_verifier: verifier RefreshTokenVerifier
  by unfold_locales (unfold RefreshTokenVerifier_def, intro drops.intros drop_entry)

lemma typed_verifier:
  assumes "\<And>v. v \<in> snd ` set verifiers \<Longrightarrow> verifier v"
  shows "verifier (TypedVerifier verifiers)"
proof
  fix c
  show "keeps drops_refresh (TypedVerifier verifiers c)"
  proof (cases "obj_get verifiers (format c)")
    case None
    then show ?thesis by (simp add: TypedVerifier_def drops.keeps_throw)
  next
    case (Some v)
    then have "v \<in> snd ` set verifiers" by (force dest: map_of_SomeD)
    then show ?thesis using assms Some by (simp add: TypedVerifier_def verifier.verify_frame)
  qed
qed

lemma iri_verifier: "verifier v \<Longrightarrow> verifier (IriVerifier w baseUrl v)"
  by unfold_locales (unfold IriVerifier_def, intro drops.intros verifier.verify_frame)

text \<open>The verifiers of the default configuration.\<close>

definition default_verifiers :: "web \<Rightarrow> js \<Rightarrow> verify_fun obj" where
  "default_verifiers w opts = [
     (PURPOSE, KeyValueVerifier), (UNSECURE, UnsecureVerifier w), (OIDC, OidcVerifier w opts),
     (VC_JWT, VcVerifier w opts), (ACCESS_TOKEN, OidcVerifier w opts),
     (REFRESH_TOKEN, RefreshTokenVerifier),
     (JWT, JwtVerifier w [WEBID, PURPOSE, ''https://w3id.org/oac#LegalBasis''] False False)]"

lemma default_typed: "verifier (TypedVerifier (default_verifiers w opts))"
  by (rule typed_verifier)
    (auto simp: default_verifiers_def key_value_verifier.verifier_axioms
      unsecure_verifier.verifier_axioms oidc_verifier.verifier_axioms vc_verifier.verifier_axioms
      refresh_verifier.verifier_axioms jwt_verifier.verifier_axioms)

definition default_verify :: "web \<Rightarrow> js \<Rightarrow> string \<Rightarrow> verify_fun" where
  "default_verify w opts baseUrl = IriVerifier w baseUrl (TypedVerifier (default_verifiers w opts))"

interpretation default_verifier: verifier "default_verify w opts baseUrl" for w opts baseUrl
  unfolding default_verify_def by (rule iri_verifier) (rule default_typed)

subsection \<open>What the claims are\<close>

lemma iri_claims_get:
  "obj_get (iri_claims w baseUrl claims) WEBID = map_option (map (iri_entry w baseUrl)) (obj_get claims WEBID)"
  "obj_get (iri_claims w baseUrl claims) CLIENTID
     = map_option (map (iri_entry w baseUrl)) (obj_get claims CLIENTID)"
  "obj_get (iri_claims w baseUrl claims) ORIGINAL_WEBID
     = (case obj_get claims WEBID of None \<Rightarrow> obj_get claims ORIGINAL_WEBID | Some vs \<Rightarrow> Some vs)"
  "obj_get (iri_claims w baseUrl claims) ORIGINAL_CLIENTID
     = (case obj_get claims CLIENTID of None \<Rightarrow> obj_get claims ORIGINAL_CLIENTID | Some vs \<Rightarrow> Some vs)"
  by (auto simp: iri_claims_def iri_step_def obj_get_set split: option.splits)

lemma iri_claims_other:
  "k \<notin> {WEBID, CLIENTID, ORIGINAL_WEBID, ORIGINAL_CLIENTID} \<Longrightarrow>
     obj_get (iri_claims w baseUrl claims) k = obj_get claims k"
  by (auto simp: iri_claims_def iri_step_def obj_get_set split: option.splits)

lemma iri_entry_iri:
  "(\<And>s. isIri (joinUrl w baseUrl (encodeURIComponent s))) \<Longrightarrow> iri_entry w baseUrl v = JStr u \<Longrightarrow> isIri u"
  by (auto simp: iri_entry_def split: js.splits if_splits)

text \<open>
  after the IRI verifier every user and client identifier that is a string is an IRI, the
  identifiers that were already IRIs are untouched, the values as the credential gave them are
  kept under the original-identifier claims, and no other claim changes.
\<close>

theorem iri_verifier_identifiers:
  assumes base: "\<forall>s. isIri (joinUrl w baseUrl (encodeURIComponent s))"
    and run: "IriVerifier w baseUrl v c s = (Inr out, t)"
  shows "\<exists>claims. v c s = (Inr claims, t)
    \<and> (\<forall>ty \<in> {WEBID, CLIENTID}. \<forall>vs u. obj_get out ty = Some vs \<and> JStr u \<in> set vs \<longrightarrow> isIri u)
    \<and> (\<forall>ty \<in> {WEBID, CLIENTID}. \<forall>vs u. obj_get claims ty = Some vs \<and> JStr u \<in> set vs \<and> isIri u \<longrightarrow>
        (\<exists>ws. obj_get out ty = Some ws \<and> JStr u \<in> set ws))
    \<and> (\<forall>(ty, orig) \<in> {(WEBID, ORIGINAL_WEBID), (CLIENTID, ORIGINAL_CLIENTID)}. \<forall>vs.
        obj_get claims ty = Some vs \<longrightarrow> obj_get out orig = Some vs)
    \<and> (\<forall>k. k \<notin> {WEBID, CLIENTID, ORIGINAL_WEBID, ORIGINAL_CLIENTID} \<longrightarrow> obj_get out k = obj_get claims k)"
proof -
  obtain claims where v: "v c s = (Inr claims, t)" and out: "out = iri_claims w baseUrl claims"
    using run by (auto simp: IriVerifier_def bind_eq_Inr)
  have same: "iri_entry w baseUrl (JStr u) = JStr u" if "isIri u" for u
    using that by (simp add: iri_entry_def)
  have iri: "isIri u" if "iri_entry w baseUrl x = JStr u" for x u
    by (rule iri_entry_iri [OF spec [OF base] that])
  have iris: "isIri u" if "map_option (map (iri_entry w baseUrl)) ws = Some vs \<and> JStr u \<in> set vs" for u vs ws
    using that by (cases ws) (auto intro: iri [OF sym])
  have mem: "JStr u \<in> iri_entry w baseUrl ` set vs" if "JStr u \<in> set vs" "isIri u" for u vs
    using same [OF that(2)] that(1) by force
  show ?thesis
  proof (intro exI [of _ claims] conjI v)
    show "\<forall>ty \<in> {WEBID, CLIENTID}. \<forall>vs u. obj_get out ty = Some vs \<and> JStr u \<in> set vs \<longrightarrow> isIri u"
      unfolding out by (simp add: iri_claims_get iris)
    show "\<forall>ty \<in> {WEBID, CLIENTID}. \<forall>vs u. obj_get claims ty = Some vs \<and> JStr u \<in> set vs \<and> isIri u \<longrightarrow>
        (\<exists>ws. obj_get out ty = Some ws \<and> JStr u \<in> set ws)"
      unfolding out by (simp add: iri_claims_get mem)
    show "\<forall>(ty, orig) \<in> {(WEBID, ORIGINAL_WEBID), (CLIENTID, ORIGINAL_CLIENTID)}. \<forall>vs.
        obj_get claims ty = Some vs \<longrightarrow> obj_get out orig = Some vs"
      unfolding out by (simp add: iri_claims_get)
    show "\<forall>k. k \<notin> {WEBID, CLIENTID, ORIGINAL_WEBID, ORIGINAL_CLIENTID} \<longrightarrow> obj_get out k = obj_get claims k"
      unfolding out by (simp add: iri_claims_other)
  qed
qed

definition example_web :: web where
  "example_web = \<lparr>joinUrl = (\<lambda>b p. b @ p),
     fetch_config = (\<lambda>u. Some (200, Some ''https://as2'', Some ''https://as2/jwks'')),
     parse_url = Some, decodeURIComponent = Some,
     decodeJwt = (\<lambda>_. Some (JObj [(''iss'', JStr ''https://as2'')])),
     jwtVerify = (\<lambda>_ _ _. Some (JObj [(''iss'', JStr ''https://as2''), (''permissions'', JArr [encode_permission
        \<lparr>resource_id = ''d1'', resource_scopes = [derivation_read]\<rparr>])])),
     verifyToken = (\<lambda>_. None), parse_date = (\<lambda>d. Some (int (length d)))\<rparr>"

lemma isIri_joined: "isIri (''https://as/id/'' @ encodeURIComponent s)"
  by (rule isIri_append [OF _ encodeURIComponent_no_space]) code_simp

lemma iri_verifier_identifiers_witness:
  "\<exists>claims. KeyValueVerifier \<lparr>token = ''bob'', format = WEBID\<rparr> empty_state = (Inr claims, empty_state)
    \<and> obj_get claims WEBID = Some [JStr ''bob'']
    \<and> (\<exists>ws. obj_get (iri_claims example_web ''https://as/id/'' claims) WEBID = Some ws
        \<and> (\<forall>u. JStr u \<in> set ws \<longrightarrow> isIri u))"
proof -
  let ?c = "\<lparr>token = ''bob'', format = WEBID\<rparr>"
  let ?claims = "[(WEBID, [JStr ''bob''])]"
  have run: "IriVerifier example_web ''https://as/id/'' KeyValueVerifier ?c empty_state
    = (Inr (iri_claims example_web ''https://as/id/'' ?claims), empty_state)"
    by (simp add: IriVerifier_def KeyValueVerifier_def)
  have "\<forall>s. isIri (joinUrl example_web ''https://as/id/'' (encodeURIComponent s))"
    using isIri_joined by (simp add: example_web_def)
  from iri_verifier_identifiers [OF this run] show ?thesis
    by (auto simp: KeyValueVerifier_def iri_claims_get)
qed

text \<open>The issuer that access to a derived resource must come from.\<close>

lemma access_fold:
  assumes "fold_act (access_permission iss) acc ps s = (Inr out, t)"
    and "p \<in> set out" "p \<notin> set acc"
  shows "resource_scopes p = [derivation_read]
    \<and> (case kv_get (derivationStore s) (resource_id p) of None \<Rightarrow> JUndef | Some i \<Rightarrow> JStr i) = iss
    \<and> (\<exists>q \<in> set ps. resource_id q = resource_id p \<and> derivation_read \<in> set (resource_scopes q))"
  using assms
proof (induction ps arbitrary: acc)
  case (Cons q ps)
  obtain acc' s' where step: "access_permission iss acc q s = (Inr acc', s')"
    and rest: "fold_act (access_permission iss) acc' ps s' = (Inr out, t)"
    using Cons.prems(1) by (auto simp: bind_eq_Inr)
  have s': "s' = s" using step by (auto simp: access_permission_def split: if_splits)
  show ?case
  proof (cases "p \<in> set acc'")
    case True
    with step Cons.prems(3) show ?thesis by (auto simp: access_permission_def split: if_splits)
  next
    case False
    with Cons.IH rest Cons.prems(2) s' show ?thesis by auto
  qed
qed simp



text \<open>
  a refresh token is accepted as a credential exactly while it is stored and not past its
  expiration; a stored but expired one is removed and refused, everything else is refused
  without any change.
\<close>

theorem refresh_token_credential:
  "RefreshTokenVerifier c s =
    (if format c \<noteq> REFRESH_TOKEN then (Inl BadRequest, s)
     else case ex_get (clock s) (refreshStore s) (token c) of
       None \<Rightarrow> (Inl BadRequest, s)
     | Some info \<Rightarrow>
         if clock s \<le> ri_expiration info then (Inr (ri_claims info), s)
         else (Inl Forbidden, s\<lparr>refreshStore := ex_delete (refreshStore s) (token c)\<rparr>))"
  by (auto simp: RefreshTokenVerifier_def return_def throw_def bind_def modify_def split: option.split)

text \<open>
  an accepted verifiable credential is within its validity window as far as its dates can be
  read: no readable issuance or start date lies in the future and no readable expiration or end
  date in the past, the credential verified under its issuer's keys, and it has a subject.
\<close>

theorem vc_window:
  assumes "VcVerifier w opts c s = (Inr claims, t)"
  shows "\<exists>uri payload vc. jwtVerify w (token c) uri opts = Some payload
    \<and> js_prop payload ''vc'' = vc \<and> claims = [(VC, [vc])] \<and> is_object vc
    \<and> js_prop vc ''credentialSubject'' \<noteq> JUndef
    \<and> (\<forall>k \<in> {''issuanceDate'', ''validFrom''}. \<forall>d time.
         js_prop vc k = JStr d \<and> parse_date w d = Some time \<longrightarrow> time \<le> clock s)
    \<and> (\<forall>k \<in> {''expirationDate'', ''validUntil''}. \<forall>d time.
         js_prop vc k = JStr d \<and> parse_date w d = Some time \<longrightarrow> clock s \<le> time)"
proof -
  obtain iss uri s1 payload vc where jwks: "getJwks w iss s = (Inr uri, s1)"
    and jwt: "jwtVerify w (token c) uri opts = Some payload"
    and ext: "extractVcClaims w (clock s1) payload = Inr vc" and claims: "claims = [(VC, [vc])]"
    using assms
    by (auto simp: VcVerifier_def decode_jwt_def verify_jwt_def bind_eq_Inr
        split: if_splits option.splits)
  have now: "clock s1 = clock s"
    by (rule stored_fields(8) [OF quietD(1) [OF keepsD [OF getJwks_quiet jwks]]])
  have vc: "js_prop payload ''vc'' = vc" "is_object vc" "js_prop vc ''credentialSubject'' \<noteq> JUndef"
    and dates: "\<not> date_after w (js_prop vc ''issuanceDate'') (clock s)"
      "\<not> date_after w (js_prop vc ''validFrom'') (clock s)"
      "\<not> date_before w (js_prop vc ''expirationDate'') (clock s)"
      "\<not> date_before w (js_prop vc ''validUntil'') (clock s)"
    using ext unfolding now
    by (auto simp: extractVcClaims_def Let_def is_object_def split: if_splits)
  show ?thesis
    using jwt claims vc dates
    by (intro exI [of _ uri] exI [of _ payload] exI [of _ vc])
      (auto simp: date_after_def date_before_def)
qed

text \<open>
  the scheme parser recovers scheme and token of a well-formed header: for a known scheme
  without spaces, the header \<open>scheme token\<close> yields that token (spaces included) and the format
  the scheme is mapped to.
\<close>

theorem scheme_parser_roundtrip:
  assumes "CHR '' '' \<notin> set scheme" and "obj_get schemeMap scheme = Some fmt" and "fmt \<noteq> ''''"
  shows "MappedSchemeParser schemeMap (Some (scheme @ '' '' @ tok)) = Inr \<lparr>token = tok, format = fmt\<rparr>"
  using assms by (simp add: MappedSchemeParser_def first_word_def Let_def split_append_sep)

definition vc_web :: web where
  "vc_web = example_web\<lparr>jwtVerify := (\<lambda>_ _ _. Some (JObj [(''vc'', JObj [
     (''validUntil'', JStr ''2030''), (''credentialSubject'', JObj [])])]))\<rparr>"

lemma vc_window_witness:
  "clock empty_state \<le> 4"
proof -
  let ?vc = "JObj [(''validUntil'', JStr ''2030''), (''credentialSubject'', JObj [])]"
  have "fst (VcVerifier vc_web JUndef \<lparr>token = ''t'', format = VC_JWT\<rparr> empty_state) = Inr [(VC, [?vc])]"
    by code_simp
  from vc_window [OF run_fst [OF this]] show ?thesis
    by (auto simp: vc_web_def example_web_def)
qed

lemma scheme_parser_roundtrip_witness:
  "MappedSchemeParser [(''Bearer'', OIDC)] (Some ''Bearer a b'') = Inr \<lparr>token = ''a b'', format = OIDC\<rparr>"
  using scheme_parser_roundtrip [of "''Bearer''" "[(''Bearer'', OIDC)]" OIDC "''a b''"]
  by (simp add: OIDC_def)

end
