(* ===== verification/Tokens.thy ===== *)
theory Tokens
  imports Verifiers
begin

text \<open>
  \<open>tokens/\<close>: access tokens as signed JWTs or opaque strings, and refresh tokens. A factory is a
  record of its two methods; the locale \<open>token_factory\<close> is the contract the negotiators rely
  on: the issued string is filed with exactly the access token it was issued for.
\<close>

subsection \<open>What a dialog step may change\<close>

text \<open>
  A step of a dialog leaves registrations, derivations, ownership, policies, the clock and the
  source of identifiers alone, and any ticket or refresh token it adds is an identifier drawn
  during the step.
\<close>

definition adds_drawn :: "(dialog_state \<Rightarrow> string \<rightharpoonup> 'v) \<Rightarrow> dialog_state \<Rightarrow> dialog_state \<Rightarrow> bool" where
  "adds_drawn store s t \<longleftrightarrow> (\<forall>k. store t k \<noteq> None \<longrightarrow>
     store s k \<noteq> None \<or> (\<exists>n. drawn s \<le> n \<and> n < drawn t \<and> k = entropy s n))"

lemma adds_drawn_same: "store t = store s \<Longrightarrow> adds_drawn store s t"
  by (simp add: adds_drawn_def)

lemma adds_drawn_trans:
  assumes st: "adds_drawn store s t" and tu: "adds_drawn store t u"
    and "drawn s \<le> drawn t" and "drawn t \<le> drawn u" and "entropy t = entropy s"
  shows "adds_drawn store s u"
  unfolding adds_drawn_def
proof (intro allI impI)
  fix k assume k: "store u k \<noteq> None"
  show "store s k \<noteq> None \<or> (\<exists>n. drawn s \<le> n \<and> n < drawn u \<and> k = entropy s n)"
  proof (cases "store t k \<noteq> None")
    case True
    with st assms(4) show ?thesis unfolding adds_drawn_def by (meson less_le_trans)
  next
    case False
    with k tu obtain n where "drawn t \<le> n" "n < drawn u" "k = entropy t n"
      unfolding adds_drawn_def by blast
    with assms(3,5) show ?thesis by (auto intro: exI [of _ n])
  qed
qed

definition dialog_step :: "dialog_state \<Rightarrow> dialog_state \<Rightarrow> bool" where
  "dialog_step s t \<longleftrightarrow>
     registrationStore t = registrationStore s \<and> derivationStore t = derivationStore s
     \<and> ownershipStore t = ownershipStore s \<and> policies t = policies s
     \<and> clock t = clock s \<and> entropy t = entropy s \<and> drawn s \<le> drawn t
     \<and> adds_drawn ticketStore s t \<and> adds_drawn refreshStore s t"

interpretation dialog_step: state_frame dialog_step
proof
  fix s t u
  assume st: "dialog_step s t" and tu: "dialog_step t u"
  then have "adds_drawn ticketStore s u" "adds_drawn refreshStore s u"
    by (auto simp: dialog_step_def intro: adds_drawn_trans)
  with st tu show "dialog_step s u" by (simp add: dialog_step_def)
qed (simp add: dialog_step_def adds_drawn_same)

lemma drops_dialog_step:
  assumes "drops_refresh s t" shows "dialog_step s t"
proof -
  have "refreshStore s k \<noteq> None" if "refreshStore t k \<noteq> None" for k
    using assms that unfolding drops_refresh_def map_le_def by (metis domIff)
  then have "adds_drawn refreshStore s t" by (simp add: adds_drawn_def)
  with drops_refresh_fields [OF assms] show ?thesis by (simp add: dialog_step_def adds_drawn_same)
qed

lemma drops_is_dialog_step: "keeps drops_refresh m \<Longrightarrow> keeps dialog_step m"
  by (erule keeps_weaken) (rule drops_dialog_step)

lemma quiet_is_dialog_step: "keeps quiet m \<Longrightarrow> keeps dialog_step m"
  by (rule drops_is_dialog_step) (rule quiet_is_drops)

lemma dialog_step_consumed:
  assumes "dialog_step s t" and "ticketStore s k = None" and "\<forall>n \<ge> drawn s. entropy s n \<noteq> k"
  shows "ticketStore t k = None"
  using assms unfolding dialog_step_def adds_drawn_def by blast

subsection \<open>The interface\<close>

record token_ops =
  serialize :: "access_token \<Rightarrow> serialized_token dialog"
  deserialize :: "string \<Rightarrow> access_token dialog"

locale token_factory =
  fixes factory :: token_ops
  assumes serialize_step: "keeps dialog_step (serialize factory tok)"
    and serialize_tickets: "unchanged ticketStore (serialize factory tok)"
    and serialize_refresh: "unchanged refreshStore (serialize factory tok)"
    and serialize_stored: "fst (serialize factory tok s) = Inr st \<Longrightarrow>
          \<exists>expires. tokenStore (snd (serialize factory tok s)) (st_token st) = Some (tok, expires)"
    and deserialize_reads: "unchanged (\<lambda>s. s) (deserialize factory str)"
begin

lemma stored_token:
  "serialize factory tok s = (Inr st, t) \<Longrightarrow> \<exists>expires. tokenStore t (st_token st) = Some (tok, expires)"
  using serialize_stored [of tok s st] by simp

end

subsection \<open>\<open>JwtTokenFactory\<close>\<close>

text \<open>
  The key generator and the JWT library: \<open>sign_jwt\<close> signs a payload with the server's key,
  \<open>check_jwt\<close> verifies a token for an issuer and an audience at a time, \<open>duration_ms\<close> and
  \<open>expiry_of\<close> read a time span (milliseconds, and the epoch second it ends).
\<close>

record jwt_library =
  sign_jwt :: "js \<Rightarrow> string"
  check_jwt :: "int \<Rightarrow> string \<Rightarrow> string \<Rightarrow> string \<Rightarrow> js option"
  duration_ms :: "string \<Rightarrow> int"
  expiry_of :: "int \<Rightarrow> string \<Rightarrow> int"

record jwt_params =
  jp_issuer :: string
  jp_aud :: "string option"
  jp_expirationTime :: string
  jp_addSub :: bool

definition jwt_audience :: "jwt_params \<Rightarrow> string" where
  "jwt_audience prm = (case jp_aud prm of None \<Rightarrow> ''solid'' | Some a \<Rightarrow> a)"

definition jwt_payload :: "jwt_library \<Rightarrow> jwt_params \<Rightarrow> int \<Rightarrow> string \<Rightarrow> access_token \<Rightarrow> js" where
  "jwt_payload lib prm now jti tok = JObj
     ([(''permissions'', JArr (map encode_permission (at_permissions tok)))]
      @ (case at_contract tok of None \<Rightarrow> [] | Some c \<Rightarrow> [(''contract'', c)])
      @ [(''iat'', JNum (now div 1000)), (''iss'', JStr (jp_issuer prm)),
         (''aud'', JStr (jwt_audience prm)),
         (''exp'', JNum (expiry_of lib now (jp_expirationTime prm))), (''jti'', JStr jti)]
      @ (if jp_addSub prm \<and> truthy_opt (at_sub tok) then [(''sub'', JStr (the (at_sub tok)))] else []))"

definition jwt_serialize :: "jwt_library \<Rightarrow> jwt_params \<Rightarrow> access_token \<Rightarrow> serialized_token dialog" where
  "jwt_serialize lib prm tok =
     bind randomUUID (\<lambda>jti.
     bind (gets clock) (\<lambda>now.
     let jwt = sign_jwt lib (jwt_payload lib prm now jti tok) in
     bind (modify (\<lambda>s. s\<lparr>tokenStore :=
         ex_set now (tokenStore s) jwt tok (duration_ms lib (jp_expirationTime prm))\<rparr>)) (\<lambda>_.
     return \<lparr>st_tokenType = ''Bearer'', st_token = jwt\<rparr>)))"

definition jwt_deserialize :: "jwt_library \<Rightarrow> jwt_params \<Rightarrow> string \<Rightarrow> access_token dialog" where
  "jwt_deserialize lib prm str =
     bind (gets clock) (\<lambda>now.
     case check_jwt lib now str (jp_issuer prm) (jwt_audience prm) of
       None \<Rightarrow> throw BadRequest
     | Some payload \<Rightarrow>
         (let ps = js_prop payload ''permissions'' in
          if \<not> truthy ps then throw BadRequest
          else if \<not> reType ps (PArray Permission) then throw BadRequest
          else return \<lparr>at_permissions = decode_permissions ps,
                       at_sub = js_str (js_prop payload ''sub''), at_contract = None\<rparr>))"

definition JwtTokenFactory :: "jwt_library \<Rightarrow> jwt_params \<Rightarrow> token_ops" where
  "JwtTokenFactory lib prm =
     \<lparr>serialize = jwt_serialize lib prm, deserialize = jwt_deserialize lib prm\<rparr>"

subsection \<open>\<open>OpaqueTokenFactory\<close>\<close>

definition opaque_serialize :: "access_token \<Rightarrow> serialized_token dialog" where
  "opaque_serialize tok = bind randomUUID (\<lambda>serialized.
     bind (modify (\<lambda>s. s\<lparr>tokenStore := ex_put (tokenStore s) serialized tok\<rparr>)) (\<lambda>_.
     return \<lparr>st_tokenType = ''Bearer'', st_token = serialized\<rparr>))"

definition opaque_deserialize :: "string \<Rightarrow> access_token dialog" where
  "opaque_deserialize str = bind (gets (\<lambda>s. ex_get (clock s) (tokenStore s) str)) (\<lambda>retrieved.
     case retrieved of Some tok \<Rightarrow> return tok | None \<Rightarrow> throw PlainError)"

definition OpaqueTokenFactory :: token_ops where
  "OpaqueTokenFactory = \<lparr>serialize = opaque_serialize, deserialize = opaque_deserialize\<rparr>"

subsection \<open>\<open>StoredRefreshTokenIssuer\<close>\<close>

type_synonym refresh_issuer = "claimset \<Rightarrow> permission list \<Rightarrow> string dialog"

definition StoredRefreshTokenIssuer :: "int \<Rightarrow> refresh_issuer" where
  "StoredRefreshTokenIssuer refreshExpiration claims ps = bind randomUUID (\<lambda>refreshToken.
     bind (modify (\<lambda>s. s\<lparr>refreshStore := ex_set (clock s) (refreshStore s) refreshToken
         \<lparr>ri_claims = claims, ri_permissions = ps, ri_expiration = clock s + refreshExpiration\<rparr>
         refreshExpiration\<rparr>)) (\<lambda>_.
     return refreshToken))"

subsection \<open>The factories keep the contract\<close>

lemma token_update_step: "dialog_step s (s\<lparr>tokenStore := f s\<rparr>)"
  by (simp add: dialog_step_def adds_drawn_same)

lemma randomUUID_step: "keeps dialog_step randomUUID"
  by (rule quiet_is_dialog_step) (rule quiet_randomUUID)

lemma randomUUID_frame: "(\<And>s n. f (s\<lparr>drawn := n\<rparr>) = f s) \<Longrightarrow> unchanged f randomUUID"
  by (simp add: keeps_def randomUUID_def)

lemmas step_intros = dialog_step.intros randomUUID_step token_update_step

interpretation jwt_factory: token_factory "JwtTokenFactory lib prm" for lib prm
proof
  show "keeps dialog_step (serialize (JwtTokenFactory lib prm) tok)" for tok
    unfolding JwtTokenFactory_def jwt_serialize_def token_ops.simps by (intro step_intros)
  show "unchanged ticketStore (serialize (JwtTokenFactory lib prm) tok)" for tok
    unfolding JwtTokenFactory_def jwt_serialize_def token_ops.simps
    by (intro unchanged_intros randomUUID_frame) simp_all
  show "unchanged refreshStore (serialize (JwtTokenFactory lib prm) tok)" for tok
    unfolding JwtTokenFactory_def jwt_serialize_def token_ops.simps
    by (intro unchanged_intros randomUUID_frame) simp_all
  show "\<exists>expires. tokenStore (snd (serialize (JwtTokenFactory lib prm) tok s)) (st_token st) = Some (tok, expires)"
    if "fst (serialize (JwtTokenFactory lib prm) tok s) = Inr st" for tok s st
    using that by (auto simp: JwtTokenFactory_def jwt_serialize_def Let_def ex_set_def)
  show "unchanged (\<lambda>s. s) (deserialize (JwtTokenFactory lib prm) str)" for str
    unfolding JwtTokenFactory_def jwt_deserialize_def token_ops.simps by (intro unchanged_intros)
qed

interpretation opaque_factory: token_factory OpaqueTokenFactory
proof
  show "keeps dialog_step (serialize OpaqueTokenFactory tok)" for tok
    unfolding OpaqueTokenFactory_def opaque_serialize_def token_ops.simps by (intro step_intros)
  show "unchanged ticketStore (serialize OpaqueTokenFactory tok)" for tok
    unfolding OpaqueTokenFactory_def opaque_serialize_def token_ops.simps
    by (intro unchanged_intros randomUUID_frame) simp_all
  show "unchanged refreshStore (serialize OpaqueTokenFactory tok)" for tok
    unfolding OpaqueTokenFactory_def opaque_serialize_def token_ops.simps
    by (intro unchanged_intros randomUUID_frame) simp_all
  show "\<exists>expires. tokenStore (snd (serialize OpaqueTokenFactory tok s)) (st_token st) = Some (tok, expires)"
    if "fst (serialize OpaqueTokenFactory tok s) = Inr st" for tok s st
    using that by (auto simp: OpaqueTokenFactory_def opaque_serialize_def ex_put_def)
  show "unchanged (\<lambda>s. s) (deserialize OpaqueTokenFactory str)" for str
    unfolding OpaqueTokenFactory_def opaque_deserialize_def token_ops.simps by (intro unchanged_intros)
qed

lemma refresh_issuer_step: "keeps dialog_step (StoredRefreshTokenIssuer d claims ps)"
proof (rule keepsI)
  fix s r t assume "StoredRefreshTokenIssuer d claims ps s = (r, t)"
  then show "dialog_step s t"
    by (auto simp: StoredRefreshTokenIssuer_def dialog_step_def adds_drawn_def ex_set_def fresh_id_def
        intro: exI [of _ "drawn s"])
qed

subsection \<open>Properties\<close>

lemma encode_permissions_accepted: "reType (JArr (map encode_permission ps)) (PArray Permission)"
  by (auto simp: Permission_accepts)

lemma decode_encode_permissions [simp]:
  "decode_permissions (JArr (map encode_permission ps)) = ps"
  by (simp add: decode_permissions_def o_def)

text \<open>
  a JWT access token reads back as what was issued. When the library verifies the issued
  string to the payload it signed, deserializing gives the same permissions and the subject
  (present only when the factory adds subjects and the token has a non-empty one); the contract
  travels in the payload but is not read back.
\<close>

theorem jwt_token_roundtrip:
  assumes "jwt_serialize lib prm tok s = (Inr st, t)"
    and "check_jwt lib (clock u) (st_token st) (jp_issuer prm) (jwt_audience prm)
      = Some (jwt_payload lib prm (clock s) (fresh_id s) tok)"
  shows "jwt_deserialize lib prm (st_token st) u = (Inr \<lparr>at_permissions = at_permissions tok,
      at_sub = (if jp_addSub prm \<and> truthy_opt (at_sub tok) then at_sub tok else None),
      at_contract = None\<rparr>, u)"
proof -
  let ?p = "jwt_payload lib prm (clock s) (fresh_id s) tok"
  have ps: "js_prop ?p ''permissions'' = JArr (map encode_permission (at_permissions tok))"
    by (simp add: jwt_payload_def)
  have sub: "js_str (js_prop ?p ''sub'') =
      (if jp_addSub prm \<and> truthy_opt (at_sub tok) then at_sub tok else None)"
    by (auto simp: jwt_payload_def map_add_def js_str_def dest: truthy_optD split: option.split)
  show ?thesis
    using assms(2) encode_permissions_accepted [of "at_permissions tok"]
    by (simp add: jwt_deserialize_def ps sub Let_def del: reType_simps)
qed

text \<open>an opaque access token reads back exactly, until its store entry is changed.\<close>

theorem opaque_token_roundtrip:
  assumes "opaque_serialize tok s = (Inr st, t)"
    and "tokenStore u (st_token st) = tokenStore t (st_token st)"
  shows "opaque_deserialize (st_token st) u = (Inr tok, u)"
  using assms by (auto simp: opaque_serialize_def opaque_deserialize_def ex_get_def ex_put_def)

text \<open>
  an issued refresh token stands, for exactly its life time, for the claims and permissions it
  was issued with: as a credential it yields those claims until the expiration, and is refused
  after it.
\<close>

theorem refresh_token_lifetime:
  assumes "StoredRefreshTokenIssuer d claims ps s = (Inr rt, t)"
    and "refreshStore u rt = refreshStore t rt" and "clock s \<le> clock u"
  shows "fst (RefreshTokenVerifier \<lparr>token = rt, format = REFRESH_TOKEN\<rparr> u) =
    (if clock u \<le> clock s + d then Inr claims else Inl BadRequest)"
  using assms
  by (auto simp: StoredRefreshTokenIssuer_def refresh_token_credential ex_get_def ex_set_def)

definition example_jwt_library :: jwt_library where
  "example_jwt_library = \<lparr>sign_jwt = (\<lambda>_. ''jwt''),
     check_jwt = (\<lambda>_ _ iss aud. Some (JObj [(''permissions'', JArr [encode_permission
        \<lparr>resource_id = ''x'', resource_scopes = [''read'']\<rparr>]), (''iat'', JNum 0), (''iss'', JStr iss),
        (''aud'', JStr aud), (''exp'', JNum 1800), (''jti'', JStr ''id-0''), (''sub'', JStr ''alice'')])),
     duration_ms = (\<lambda>_. 1800000), expiry_of = (\<lambda>now _. now div 1000 + 1800)\<rparr>"

definition example_params :: jwt_params where
  "example_params = \<lparr>jp_issuer = ''https://as'', jp_aud = None, jp_expirationTime = ''30m'', jp_addSub = True\<rparr>"

definition example_token :: access_token where
  "example_token = \<lparr>at_permissions = [\<lparr>resource_id = ''x'', resource_scopes = [''read'']\<rparr>],
     at_sub = Some ''alice'', at_contract = None\<rparr>"

lemma jwt_token_roundtrip_witness:
  "jwt_deserialize example_jwt_library example_params ''jwt'' empty_state = (Inr example_token, empty_state)"
proof -
  have "fst (jwt_serialize example_jwt_library example_params example_token empty_state)
      = Inr \<lparr>st_tokenType = ''Bearer'', st_token = ''jwt''\<rparr>"
    by code_simp
  moreover have "check_jwt example_jwt_library (clock empty_state) ''jwt''
      (jp_issuer example_params) (jwt_audience example_params)
    = Some (jwt_payload example_jwt_library example_params (clock empty_state) (fresh_id empty_state) example_token)"
    by code_simp
  ultimately show ?thesis
    using jwt_token_roundtrip [OF run_fst, of example_jwt_library example_params example_token
        empty_state "\<lparr>st_tokenType = ''Bearer'', st_token = ''jwt''\<rparr>" empty_state]
    by (simp add: example_params_def example_token_def)
qed

lemma opaque_token_roundtrip_witness:
  "fst (opaque_deserialize ''id-0'' (snd (opaque_serialize example_token empty_state))) = Inr example_token"
proof -
  let ?t = "snd (opaque_serialize example_token empty_state)"
  have "fst (opaque_serialize example_token empty_state) = Inr \<lparr>st_tokenType = ''Bearer'', st_token = ''id-0''\<rparr>"
    by code_simp
  from opaque_token_roundtrip [OF run_fst [OF this], of ?t] show ?thesis by simp
qed

lemma refresh_token_lifetime_witness:
  "fst (RefreshTokenVerifier \<lparr>token = ''id-0'', format = REFRESH_TOKEN\<rparr>
     (snd (StoredRefreshTokenIssuer 60 [] [] empty_state))) = Inr []"
proof -
  let ?t = "snd (StoredRefreshTokenIssuer 60 [] [] empty_state)"
  have "fst (StoredRefreshTokenIssuer 60 [] [] empty_state) = Inr ''id-0''"
    by code_simp
  moreover have "clock ?t = clock empty_state" by code_simp
  ultimately show ?thesis
    using refresh_token_lifetime [OF run_fst, of 60 "[]" "[]" empty_state "''id-0''" ?t] by simp
qed

end
