(* ===== verification/Negotiation.thy ===== *)
theory Negotiation
  imports TicketingFacts Tokens
begin

text \<open>
  \<open>dialog/BaseNegotiator.ts\<close> and \<open>dialog/AggregatorNegotiator.ts\<close>. The inputs are typed: the
  routes check the body against the \<open>DialogInput\<close> pattern before they pass it on, and the same
  check at the start of \<open>negotiate\<close> accepts every typed input.
\<close>

subsection \<open>\<open>BaseNegotiator\<close>\<close>

definition getTicket :: "ticketing \<Rightarrow> dialog_input \<Rightarrow> ticket dialog" where
  "getTicket strat input =
     (if truthy_opt (di_ticket input) then
        bind (gets (\<lambda>s. kv_get (ticketStore s) (the (di_ticket input)))) (\<lambda>found.
        case found of
          None \<Rightarrow> throw BadRequest
        | Some tk \<Rightarrow>
            bind (modify (\<lambda>s. s\<lparr>ticketStore := kv_delete (ticketStore s) (the (di_ticket input))\<rparr>)) (\<lambda>_.
            return tk))
      else (case di_permissions input of
          None \<Rightarrow> throw BadRequest
        | Some ps \<Rightarrow> initializeTicket strat ps))"

definition claim_token_list :: "dialog_input \<Rightarrow> (string option \<times> string option) list" where
  "claim_token_list input =
     (case di_claim_token input of
        Some (TokenList ts) \<Rightarrow> ts
      | Some (SingleToken t) \<Rightarrow>
          if t \<noteq> '''' \<or> truthy_opt (di_claim_token_format input)
          then [(Some t, di_claim_token_format input)] else []
      | None \<Rightarrow>
          if truthy_opt (di_claim_token_format input)
          then [(None, di_claim_token_format input)] else [])"

definition process_token ::
  "verify_fun \<Rightarrow> ticketing \<Rightarrow> ticket \<Rightarrow> string option \<times> string option \<Rightarrow> ticket dialog" where
  "process_token verify strat tk pair = (case pair of (tok, fmt) \<Rightarrow>
     if \<not> truthy_opt tok \<or> \<not> truthy_opt fmt then throw BadRequest
     else bind (verify \<lparr>token = the tok, format = the fmt\<rparr>) (\<lambda>claims.
       validateClaims strat tk claims))"

definition processCredentials ::
  "verify_fun \<Rightarrow> ticketing \<Rightarrow> dialog_input \<Rightarrow> ticket \<Rightarrow> ticket dialog" where
  "processCredentials verify strat input tk =
     fold_act (process_token verify strat) tk (claim_token_list input)"

definition denyRequest :: "ticket \<Rightarrow> required_claim list \<Rightarrow> dialog_output dialog" where
  "denyRequest tk requirements =
     (if requirements = [] then throw Forbidden
      else bind randomUUID (\<lambda>i.
        bind (modify (\<lambda>s. s\<lparr>ticketStore := kv_set (ticketStore s) i tk\<rparr>)) (\<lambda>_.
        throw (NeedInfo i requirements))))"

definition isPartialResult :: "permission list \<Rightarrow> permission list \<Rightarrow> bool" where
  "isPartialResult requested granted =
     (length requested \<noteq> length granted
      \<or> list_ex (\<lambda>request. \<not> list_ex (\<lambda>grant.
            resource_id grant = resource_id request
            \<and> length (resource_scopes grant) = length (resource_scopes request)
            \<and> list_all (\<lambda>sc. sc \<in> set (resource_scopes grant)) (resource_scopes request)) granted)
          requested)"

definition token_sub :: "claimset \<Rightarrow> string option" where
  "token_sub prov =
     (case (case obj_get prov ORIGINAL_WEBID of Some vs \<Rightarrow> Some vs | None \<Rightarrow> obj_get prov WEBID) of
        Some (v # _) \<Rightarrow> js_str v
      | _ \<Rightarrow> None)"

definition grant_response ::
  "token_ops \<Rightarrow> refresh_issuer option \<Rightarrow> ticket \<Rightarrow> permission list \<Rightarrow> dialog_output dialog" where
  "grant_response factory issuer tk granted =
     bind (serialize factory \<lparr>at_permissions = granted, at_sub = token_sub (provided tk),
         at_contract = None\<rparr>) (\<lambda>st.
     bind (case issuer of
         None \<Rightarrow> return None
       | Some issue \<Rightarrow> bind (issue (provided tk) granted) (\<lambda>rt. return (Some rt))) (\<lambda>refreshToken.
     return \<lparr>do_access_token = st_token st, do_refresh_token = refreshToken,
             do_token_type = st_tokenType st, do_partial = isPartialResult (permissions tk) granted,
             do_expires_in = None, do_derivation_resource_id = None\<rparr>))"

text \<open>
  The strategies update \<open>ticket.provided\<close> in place and every version of the ticket shares that
  object, so the ticket stored on failure has the permissions the dialog started with and the
  claims it ended with.
\<close>

definition negotiate_ticket ::
  "verify_fun \<Rightarrow> ticketing \<Rightarrow> token_ops \<Rightarrow> refresh_issuer option \<Rightarrow> dialog_input \<Rightarrow> ticket \<Rightarrow>
   dialog_output dialog" where
  "negotiate_ticket verify strat factory issuer input tk =
     bind (processCredentials verify strat input tk) (\<lambda>updated.
     bind (resolveTicket strat updated) (\<lambda>resolved.
     case resolved of
       Success granted \<Rightarrow> grant_response factory issuer updated granted
     | Failure requirements \<Rightarrow> denyRequest (tk\<lparr>provided := provided updated\<rparr>) requirements))"

definition BaseNegotiator ::
  "verify_fun \<Rightarrow> ticketing \<Rightarrow> token_ops \<Rightarrow> refresh_issuer option \<Rightarrow> dialog_input \<Rightarrow> dialog_output dialog"
where
  "BaseNegotiator verify strat factory issuer input =
     bind (getTicket strat input) (negotiate_ticket verify strat factory issuer input)"

subsection \<open>\<open>AggregatorNegotiator\<close>\<close>

type_synonym negotiate_fun = "dialog_input \<Rightarrow> dialog_output dialog"

text \<open>The scope is appended to the first permission of the stored ticket, in place.\<close>

definition add_creation_scope :: "ticket \<Rightarrow> ticket" where
  "add_creation_scope tk = (case permissions tk of
      [] \<Rightarrow> tk
    | p # ps \<Rightarrow> tk\<lparr>permissions :=
        p\<lparr>resource_scopes := resource_scopes p @ [derivation_creation]\<rparr> # ps\<rparr>)"

definition negotiateDerivationCreation :: "aead \<Rightarrow> negotiate_fun \<Rightarrow> negotiate_fun" where
  "negotiateDerivationCreation cipher negotiate input =
     (if \<not> truthy_opt (di_ticket input) then throw BadRequest
      else bind (gets (\<lambda>s. kv_get (ticketStore s) (the (di_ticket input)))) (\<lambda>found.
        case found of
          None \<Rightarrow> throw BadRequest
        | Some tk \<Rightarrow>
            (case permissions tk of
               [p] \<Rightarrow>
                 bind (modify (\<lambda>s. s\<lparr>ticketStore :=
                     kv_set (ticketStore s) (the (di_ticket input)) (add_creation_scope tk)\<rparr>)) (\<lambda>_.
                 bind (negotiate input) (\<lambda>output.
                 bind (encodeAggregateId cipher (resource_id p)) (\<lambda>derivationId.
                 return (output\<lparr>do_derivation_resource_id := Some derivationId\<rparr>))))
             | _ \<Rightarrow> throw BadRequest)))"

definition AggregatorNegotiator :: "aead \<Rightarrow> negotiate_fun \<Rightarrow> negotiate_fun" where
  "AggregatorNegotiator cipher negotiate input =
     (let scopes = (case di_scope input of None \<Rightarrow> [] | Some sc \<Rightarrow> split_on (CHR '' '') sc) in
      if derivation_creation \<notin> set scopes then negotiate input
      else negotiateDerivationCreation cipher negotiate input)"

subsection \<open>The contract of a negotiator\<close>

locale negotiator =
  fixes negotiate :: negotiate_fun
  assumes negotiate_step: "keeps dialog_step (negotiate input)"
begin

lemma step: "negotiate input s = (r, t) \<Longrightarrow> dialog_step s t"
  using negotiate_step by (rule keepsD)

lemma fixed_stores:
  assumes "negotiate input s = (r, t)"
  shows "registrationStore t = registrationStore s" "derivationStore t = derivationStore s"
    "ownershipStore t = ownershipStore s" "policies t = policies s" "clock t = clock s"
    "entropy t = entropy s"
  using step [OF assms] by (simp_all add: dialog_step_def)

end

text \<open>The parts a base negotiator is built from, each under its own contract.\<close>

locale base_negotiation =
  verifier verify + ticketing_strategy strat rel + token_factory factory
  for verify :: verify_fun and strat :: ticketing and rel :: "string \<Rightarrow> string \<Rightarrow> bool"
    and factory :: token_ops +
  fixes issuer :: "refresh_issuer option"
  assumes issuer_step: "issuer = Some issue \<Longrightarrow> keeps dialog_step (issue claims ps)"
    and issuer_tokens: "issuer = Some issue \<Longrightarrow> unchanged tokenStore (issue claims ps)"
begin

lemma getTicket_step: "keeps dialog_step (getTicket strat input)"
proof -
  have del: "dialog_step s (s\<lparr>ticketStore := kv_delete (ticketStore s) k\<rparr>)" for s k
    by (simp add: dialog_step_def adds_drawn_def kv_delete_def)
  show ?thesis
    unfolding getTicket_def
    by (intro step_intros del quiet_is_dialog_step [OF init_quiet])
qed

lemma processCredentials_step: "keeps drops_refresh (processCredentials verify strat input tk)"
  unfolding processCredentials_def process_token_def
  by (intro drops.intros verify_frame quiet_is_drops [OF validate_quiet])

lemma denyRequest_step: "keeps dialog_step (denyRequest tk reqs)"
proof (rule keepsI)
  fix s r t
  assume "denyRequest tk reqs s = (r, t)"
  then show "dialog_step s t"
    by (auto simp: denyRequest_def dialog_step_def adds_drawn_def kv_set_def fresh_id_def
        split: if_splits intro: exI [of _ "drawn s"])
qed

lemma grant_response_step: "keeps dialog_step (grant_response factory issuer tk granted)"
  unfolding grant_response_def
  by (cases issuer; simp only: option.case)
    (intro step_intros serialize_step issuer_step | simp)+

lemma negotiate_ticket_step: "keeps dialog_step (negotiate_ticket verify strat factory issuer input tk)"
  unfolding negotiate_ticket_def
  by (intro step_intros drops_is_dialog_step [OF processCredentials_step]
      quiet_is_dialog_step [OF resolve_quiet] grant_response_step denyRequest_step)

lemma BaseNegotiator_step: "keeps dialog_step (BaseNegotiator verify strat factory issuer input)"
  unfolding BaseNegotiator_def
  by (intro step_intros getTicket_step negotiate_ticket_step)

text \<open>A ticket only gathers claims, and its permissions stay within those it started from.\<close>

lemma processCredentials_ticket:
  assumes "processCredentials verify strat input tk s = (Inr tk', t)"
  shows "access_within rel (permissions tk') (permissions tk)
    \<and> (\<forall>k vs. obj_get (provided tk) k = Some vs \<longrightarrow> (\<exists>more. obj_get (provided tk') k = Some (vs @ more)))"
  using assms unfolding processCredentials_def
proof (rule fold_act_inv [where P = "\<lambda>tk' _. access_within rel (permissions tk') (permissions tk)
    \<and> (\<forall>k vs. obj_get (provided tk) k = Some vs \<longrightarrow> (\<exists>more. obj_get (provided tk') k = Some (vs @ more)))"])
  show "access_within rel (permissions tk) (permissions tk)
    \<and> (\<forall>k vs. obj_get (provided tk) k = Some vs \<longrightarrow> (\<exists>more. obj_get (provided tk) k = Some (vs @ more)))"
    by (simp add: access_within_refl rel_refl)
next
  fix acc pair s acc' s'
  assume ih: "access_within rel (permissions acc) (permissions tk)
      \<and> (\<forall>k vs. obj_get (provided tk) k = Some vs \<longrightarrow> (\<exists>more. obj_get (provided acc) k = Some (vs @ more)))"
    and step: "process_token verify strat acc pair s = (Inr acc', s')"
  obtain claims s1 where v: "validateClaims strat acc claims s1 = (Inr acc', s')"
    using step by (auto simp: process_token_def bind_eq_Inr split: prod.splits if_splits)
  have "provided acc' = add_claims (provided acc) claims"
    using validate_ticket [of acc claims s1 acc'] v by simp
  with ih validate_within [OF v]
  show "access_within rel (permissions acc') (permissions tk)
    \<and> (\<forall>k vs. obj_get (provided tk) k = Some vs \<longrightarrow> (\<exists>more. obj_get (provided acc') k = Some (vs @ more)))"
    by (metis add_claims_keeps append_assoc)
qed

lemma grant_response_run:
  assumes "grant_response factory issuer tk granted s = (Inr out, t)"
  shows "\<exists>expires. tokenStore t (do_access_token out)
      = Some (\<lparr>at_permissions = granted, at_sub = token_sub (provided tk), at_contract = None\<rparr>, expires)
    \<and> do_partial out = isPartialResult (permissions tk) granted"
proof -
  let ?tok = "\<lparr>at_permissions = granted, at_sub = token_sub (provided tk), at_contract = None\<rparr>"
  obtain st s1 where ser: "serialize factory ?tok s = (Inr st, s1)"
    and tok: "do_access_token out = st_token st"
    and part: "do_partial out = isPartialResult (permissions tk) granted"
    and same: "tokenStore t = tokenStore s1"
    using assms
    by (auto simp: grant_response_def bind_eq_Inr split: option.splits
        dest: keepsD [OF issuer_tokens])
  from stored_token [OF ser] same tok part show ?thesis by auto
qed

lemma negotiate_ticket_run:
  assumes "negotiate_ticket verify strat factory issuer input tk s = (r, t)"
  obtains (credentials) e where "r = Inl e" "processCredentials verify strat input tk s = (Inl e, t)"
    | (resolving) updated s2 e where "r = Inl e"
        "processCredentials verify strat input tk s = (Inr updated, s2)"
        "resolveTicket strat updated s2 = (Inl e, t)"
    | (granted) updated s2 granted s3 where "processCredentials verify strat input tk s = (Inr updated, s2)"
        "resolveTicket strat updated s2 = (Inr (Success granted), s3)"
        "grant_response factory issuer updated granted s3 = (r, t)"
    | (denied) updated s2 reqs s3 where "processCredentials verify strat input tk s = (Inr updated, s2)"
        "resolveTicket strat updated s2 = (Inr (Failure reqs), s3)"
        "denyRequest (tk\<lparr>provided := provided updated\<rparr>) reqs s3 = (r, t)"
proof (cases "processCredentials verify strat input tk s")
  case (Pair p s2)
  show thesis
  proof (cases p)
    case (Inl e)
    with Pair assms show ?thesis
      by (intro credentials [of e]) (auto simp: negotiate_ticket_def bind_def)
  next
    case (Inr updated)
    obtain q s3 where q: "resolveTicket strat updated s2 = (q, s3)" by force
    have "(case q of Inl e \<Rightarrow> (Inl e, s3) | Inr (Success granted) \<Rightarrow>
        grant_response factory issuer updated granted s3
      | Inr (Failure reqs) \<Rightarrow> denyRequest (tk\<lparr>provided := provided updated\<rparr>) reqs s3) = (r, t)"
      using assms Pair Inr q
      by (auto simp: negotiate_ticket_def bind_def split: sum.splits result.splits)
    with Pair Inr q show ?thesis
      by (auto split: sum.splits result.splits intro: resolving granted denied)
  qed
qed

lemma negotiate_run:
  assumes "BaseNegotiator verify strat factory issuer input s = (Inr out, t)"
  obtains tk s1 updated s2 granted s3 where "getTicket strat input s = (Inr tk, s1)"
    "processCredentials verify strat input tk s1 = (Inr updated, s2)"
    "resolveTicket strat updated s2 = (Inr (Success granted), s3)"
    "grant_response factory issuer updated granted s3 = (Inr out, t)"
proof -
  obtain tk s1 where g: "getTicket strat input s = (Inr tk, s1)"
    and n: "negotiate_ticket verify strat factory issuer input tk s1 = (Inr out, t)"
    using assms by (auto simp: BaseNegotiator_def bind_eq_Inr)
  from n show thesis
    by (cases rule: negotiate_ticket_run)
      (auto simp: denyRequest_def split: if_splits intro: that [OF g])
qed

lemma negotiate_no_overgrant:
  assumes run: "BaseNegotiator verify strat factory issuer input s = (Inr out, t)"
  shows "\<exists>tk s1 ps sub expires. getTicket strat input s = (Inr tk, s1)
    \<and> tokenStore t (do_access_token out)
        = Some (\<lparr>at_permissions = ps, at_sub = sub, at_contract = None\<rparr>, expires)
    \<and> access_within rel ps (permissions tk) \<and> ps \<noteq> []"
proof -
  from run obtain tk s1 updated s2 granted s3 where
    "getTicket strat input s = (Inr tk, s1)"
    and p: "processCredentials verify strat input tk s1 = (Inr updated, s2)"
    and r: "resolveTicket strat updated s2 = (Inr (Success granted), s3)"
    and g: "grant_response factory issuer updated granted s3 = (Inr out, t)"
    by (rule negotiate_run)
  moreover have "access_within rel granted (permissions tk)"
    using resolve_within [OF r] processCredentials_ticket [OF p] by blast
  moreover have "granted \<noteq> []" using resolve_ticket [of updated s2 granted] r by simp
  ultimately show ?thesis using grant_response_run [OF g] by blast
qed

lemma ticket_consumed:
  assumes "truthy_opt (di_ticket input)" and "\<forall>n \<ge> drawn s. entropy s n \<noteq> the (di_ticket input)"
    and "BaseNegotiator verify strat factory issuer input s = (r, t)"
  shows "kv_get (ticketStore t) (the (di_ticket input)) = None"
proof (cases "ticketStore s (the (di_ticket input))")
  case None
  with assms dialog_step_consumed [OF keepsD [OF BaseNegotiator_step assms(3)]] show ?thesis
    by (simp add: kv_get_def)
next
  case (Some tk)
  let ?s1 = "s\<lparr>ticketStore := kv_delete (ticketStore s) (the (di_ticket input))\<rparr>"
  have g: "getTicket strat input s = (Inr tk, ?s1)"
    using assms(1) Some by (simp add: getTicket_def kv_get_def return_def)
  have "negotiate_ticket verify strat factory issuer input tk ?s1 = (r, t)"
    using assms(3) by (simp add: BaseNegotiator_def bind_def g)
  then have "dialog_step ?s1 t" by (rule keepsD [OF negotiate_ticket_step])
  moreover have "ticketStore ?s1 (the (di_ticket input)) = None"
    "\<forall>n \<ge> drawn ?s1. entropy ?s1 n \<noteq> the (di_ticket input)"
    using assms(2) by (simp_all add: kv_delete_def)
  ultimately have "ticketStore t (the (di_ticket input)) = None" by (rule dialog_step_consumed)
  then show ?thesis by (simp add: kv_get_def)
qed

end

end
