(* ===== verification/NegotiationFacts.thy ===== *)
theory NegotiationFacts
  imports Negotiation
begin

text \<open>
  What a negotiation guarantees, for the composition of the default configuration: any verifier,
  the aggregator strategy over the immediate one with any authorizer that does not over-grant,
  JWT access tokens and stored refresh tokens.
\<close>

definition server_strategy :: "aead \<Rightarrow> authorizer \<Rightarrow> bool \<Rightarrow> ticketing" where
  "server_strategy cipher auth part =
     AggregatorStrategy (decodeAggregateId cipher) (ImmediateAuthorizerStrategy auth part)"

definition server_negotiate ::
  "verify_fun \<Rightarrow> ticketing \<Rightarrow> jwt_library \<Rightarrow> jwt_params \<Rightarrow> int \<Rightarrow> negotiate_fun" where
  "server_negotiate verify strat lib prm refreshExpiration =
     BaseNegotiator verify strat (JwtTokenFactory lib prm) (Some (StoredRefreshTokenIssuer refreshExpiration))"

subsection \<open>The contracts, put together\<close>

lemma refresh_issuer_tokens: "unchanged tokenStore (StoredRefreshTokenIssuer d claims ps)"
  unfolding StoredRefreshTokenIssuer_def by (intro unchanged_intros randomUUID_frame) simp_all

lemma server_negotiation:
  assumes "verifier verify" and "ticketing_strategy strat rel"
  shows "base_negotiation verify strat rel (JwtTokenFactory lib prm)
    (Some (StoredRefreshTokenIssuer refreshExpiration))"
proof (intro base_negotiation.intro base_negotiation_axioms.intro assms jwt_factory.token_factory_axioms)
  fix issue :: refresh_issuer and claims ps
  assume "Some (StoredRefreshTokenIssuer refreshExpiration) = Some issue"
  then show "keeps dialog_step (issue claims ps)" "unchanged tokenStore (issue claims ps)"
    using refresh_issuer_step refresh_issuer_tokens by auto
qed

lemma server_strategy_contract:
  "sound_authorizer auth \<Longrightarrow>
     ticketing_strategy (server_strategy cipher auth part) (same_resource (decodeAggregateId cipher))"
  unfolding server_strategy_def by (rule plain_strategy.aggregator_strategy [OF immediate_plain])

interpretation default_negotiation: base_negotiation
  "default_verify w opts baseUrl"
  "server_strategy cipher (SimpleOdrlAuthorizer parse_date query_json (OdrlAuthorizer eng iso_date blank)) part"
  "same_resource (decodeAggregateId cipher)" "JwtTokenFactory lib prm"
  "Some (StoredRefreshTokenIssuer refreshExpiration)"
  for w opts baseUrl cipher parse_date query_json eng iso_date blank part lib prm refreshExpiration
  by (intro server_negotiation server_strategy_contract default_verifier.verifier_axioms
      default_auth.sound_authorizer_axioms)

lemma server_negotiator:
  assumes "verifier verify" and "ticketing_strategy strat rel"
  shows "negotiator (server_negotiate verify strat lib prm refreshExpiration)"
  unfolding server_negotiate_def
  by unfold_locales (rule base_negotiation.BaseNegotiator_step [OF server_negotiation [OF assms]])

lemma aggregator_negotiator:
  assumes "negotiator negotiate"
  shows "negotiator (AggregatorNegotiator cipher negotiate)"
proof
  fix input
  have "keeps dialog_step (negotiateDerivationCreation cipher negotiate input)"
  proof (rule keepsI)
    fix s r t
    assume run: "negotiateDerivationCreation cipher negotiate input s = (r, t)"
    show "dialog_step s t"
    proof (cases "\<exists>tk p. truthy_opt (di_ticket input) \<and> ticketStore s (the (di_ticket input)) = Some tk
        \<and> permissions tk = [p]")
      case True
      then obtain tk p where tk: "truthy_opt (di_ticket input)"
        "ticketStore s (the (di_ticket input)) = Some tk" "permissions tk = [p]" by blast
      let ?s1 = "s\<lparr>ticketStore :=
          kv_set (ticketStore s) (the (di_ticket input)) (add_creation_scope tk)\<rparr>"
      have "bind (negotiate input) (\<lambda>output.
          bind (encodeAggregateId cipher (resource_id p)) (\<lambda>derivationId.
          return (output\<lparr>do_derivation_resource_id := Some derivationId\<rparr>))) ?s1 = (r, t)"
        using run tk by (simp add: negotiateDerivationCreation_def kv_get_def)
      moreover have "keeps dialog_step (bind (negotiate input) (\<lambda>output.
          bind (encodeAggregateId cipher (resource_id p)) (\<lambda>derivationId.
          return (output\<lparr>do_derivation_resource_id := Some derivationId\<rparr>))))"
        by (intro step_intros negotiator.negotiate_step assms
            quiet_is_dialog_step [OF encodeAggregateId_quiet])
      ultimately have "dialog_step ?s1 t" by (blast dest: keepsD)
      moreover have "dialog_step s ?s1" using tk(2) by (simp add: dialog_step_def adds_drawn_def kv_set_def)
      ultimately show ?thesis by (blast intro: dialog_step.trans)
    next
      case False
      with run have "t = s"
        by (auto simp: negotiateDerivationCreation_def kv_get_def split: if_splits option.splits list.splits)
      then show ?thesis by (simp add: dialog_step.refl)
    qed
  qed
  then show "keeps dialog_step (AggregatorNegotiator cipher negotiate input)"
    using negotiator.negotiate_step [OF assms] by (simp add: AggregatorNegotiator_def Let_def)
qed

interpretation default_negotiator: negotiator
  "AggregatorNegotiator cipher (server_negotiate (default_verify w opts baseUrl)
     (server_strategy cipher (SimpleOdrlAuthorizer parse_date query_json (OdrlAuthorizer eng iso_date blank)) part)
     lib prm refreshExpiration)"
  for w opts baseUrl cipher parse_date query_json eng iso_date blank part lib prm refreshExpiration
  by (intro aggregator_negotiator server_negotiator [OF _ server_strategy_contract]
      default_verifier.verifier_axioms default_auth.sound_authorizer_axioms)

subsection \<open>Properties\<close>

lemma getTicket_stored:
  assumes "truthy_opt (di_ticket input)" and "getTicket strat input s = (Inr tk, t)"
  shows "ticketStore s (the (di_ticket input)) = Some tk
    \<and> t = s\<lparr>ticketStore := kv_delete (ticketStore s) (the (di_ticket input))\<rparr>"
  using assms by (auto simp: getTicket_def kv_get_def bind_eq_Inr split: option.splits)

text \<open>
  C2: no token exceeds its ticket. Whatever credentials are presented, and whichever verifier and
  authorizer are configured, a successful negotiation on a ticket files an access token whose
  every (resource, scope) pair is one of the pairs of the stored ticket, up to the aggregate
  identifiers of the same resource; the token is never empty.
\<close>

theorem token_within_ticket:
  assumes "verifier verify" and "sound_authorizer auth" and "truthy_opt (di_ticket input)"
    and "server_negotiate verify (server_strategy cipher auth part) lib prm d input s = (Inr out, t)"
  shows "\<exists>tk ps sub expires. ticketStore s (the (di_ticket input)) = Some tk
    \<and> tokenStore t (do_access_token out)
        = Some (\<lparr>at_permissions = ps, at_sub = sub, at_contract = None\<rparr>, expires)
    \<and> access_within (same_resource (decodeAggregateId cipher)) ps (permissions tk) \<and> ps \<noteq> []"
proof -
  note contract = server_negotiation [OF assms(1) server_strategy_contract [OF assms(2)]]
  obtain tk s1 ps sub expires where g: "getTicket (server_strategy cipher auth part) input s = (Inr tk, s1)"
    and "tokenStore t (do_access_token out)
        = Some (\<lparr>at_permissions = ps, at_sub = sub, at_contract = None\<rparr>, expires)"
    and "access_within (same_resource (decodeAggregateId cipher)) ps (permissions tk)" "ps \<noteq> []"
    using base_negotiation.negotiate_no_overgrant [OF contract assms(4) [unfolded server_negotiate_def]]
    by (elim exE conjE)
  with getTicket_stored [OF assms(3) g] show ?thesis by blast
qed

text \<open>
  C13: a ticket is used once. Whatever the outcome of a negotiation that names a ticket (a token, a
  refusal, a request for more information, a credential that fails to verify), the ticket is gone
  afterwards, and naming it again is a bad request that changes nothing. The hypothesis says that
  the random identifiers still to be drawn do not repeat the ticket's.
\<close>

theorem ticket_used_once:
  assumes "verifier verify" and "sound_authorizer auth" and "truthy_opt (di_ticket input)"
    and "\<forall>n \<ge> drawn s. entropy s n \<noteq> the (di_ticket input)"
    and "server_negotiate verify (server_strategy cipher auth part) lib prm d input s = (r, t)"
    and "di_ticket again = di_ticket input"
  shows "ticketStore t (the (di_ticket input)) = None
    \<and> server_negotiate verify (server_strategy cipher auth part) lib prm d again t = (Inl BadRequest, t)"
proof -
  note contract = server_negotiation [OF assms(1) server_strategy_contract [OF assms(2)]]
  have gone: "kv_get (ticketStore t) (the (di_ticket input)) = None"
    using base_negotiation.ticket_consumed [OF contract assms(3,4) assms(5) [unfolded server_negotiate_def]] .
  have "getTicket (server_strategy cipher auth part) again t = (Inl BadRequest, t)"
    using assms(3,6) gone by (simp add: getTicket_def throw_def)
  then show ?thesis
    using gone by (simp add: server_negotiate_def BaseNegotiator_def bind_Inl kv_get_def)
qed

text \<open>The errors the strategy raises by itself are not requests for information.\<close>

lemma fold_act_Inl:
  "fold_act f acc xs s = (Inl e, t) \<Longrightarrow> \<exists>acc x s'. x \<in> set xs \<and> f acc x s' = (Inl e, t)"
proof (induction xs arbitrary: acc s)
  case (Cons y ys)
  then consider "f acc y s = (Inl e, t)" | acc' s' where "fold_act f acc' ys s' = (Inl e, t)"
    by (auto simp: bind_eq_Inl)
  then show ?case
  proof cases
    case 1
    then show ?thesis by auto
  next
    case 2
    from Cons.IH [OF this] show ?thesis by auto
  qed
qed simp

lemma derived_read_ids_error: "derived_read_ids vs = Inl e \<Longrightarrow> e = PlainError"
  by (induction vs)
    (auto simp: grants_derivation_read_def js_includes_def split: sum.splits js.splits if_splits)

lemma server_validate_error:
  "validateClaims (server_strategy cipher auth part) tk claims s = (Inl e, t) \<Longrightarrow> e = PlainError"
  by (auto simp: server_strategy_def AggregatorStrategy_def aggregator_validateClaims_def
      ImmediateAuthorizerStrategy_def immediate_validateClaims_def bind_eq_Inl derived_read_ids_error
      split: prod.splits)

lemma server_credentials_error:
  assumes "processCredentials verify (server_strategy cipher auth part) input tk s = (Inl e, t)"
  shows "e \<in> {BadRequest, PlainError} \<or> (\<exists>c u. verify c u = (Inl e, t))"
  using fold_act_Inl [OF assms [unfolded processCredentials_def]]
  by (auto simp: process_token_def bind_eq_Inl dest: server_validate_error split: prod.splits if_splits)

lemma server_resolve_error:
  assumes "resolveTicket (server_strategy cipher auth part) tk s = (Inl e, t)"
  shows "e = InternalServer \<or> (\<exists>claims q u. auth claims q u = (Inl e, t))"
proof -
  have missing: "e' = InternalServer" if "missing_derivations tk s = (Inl e', t')" for e' t'
    using fold_act_Inl [OF that [unfolded missing_derivations_def]]
    by (auto simp: missing_step_def split: if_splits)
  have inner: "\<exists>claims q u. auth claims q u = (Inl e', t')"
    if "resolveTicket (ImmediateAuthorizerStrategy auth part) x v = (Inl e', t')" for x v e' t'
    using that
    by (auto simp: ImmediateAuthorizerStrategy_def immediate_resolveTicket_def calculatePermissions_def
        bind_eq_Inl Let_def split: if_splits)
  have last: "(case res of Success ps \<Rightarrow>
        if rc \<noteq> [] then return (Failure rc) else return (Success (encode_result ids ps))
      | Failure claims \<Rightarrow> return (Failure (claims @ rc))) v \<noteq> (Inl e, t)" for res rc ids v
    by (cases res) auto
  obtain decoded ids where d: "decodeIds (decodeAggregateId cipher) tk = (decoded, ids)" by force
  have "aggregator_resolveTicket (decodeAggregateId cipher) (ImmediateAuthorizerStrategy auth part) tk s = (Inl e, t)"
    using assms by (simp add: server_strategy_def AggregatorStrategy_def)
  then show ?thesis
    using last missing inner unfolding aggregator_resolveTicket_def bind_eq_Inl d case_prod_conv
    by blast
qed

text \<open>
  a request for more information keeps the dialog alive. The error carries at least one
  required claim and the identifier of a newly stored ticket that asks for the permissions and
  derivations of the ticket the dialog was on and has gathered at least the claims it had. The
  hypotheses say that the verifier and the authorizer do not raise this error themselves.
\<close>

theorem need_info_keeps_dialog:
  assumes "verifier verify" and "sound_authorizer auth" and tid: "truthy_opt (di_ticket input)"
    and run: "server_negotiate verify (server_strategy cipher auth part) lib prm d input s
      = (Inl (NeedInfo i reqs), t)"
    and ver: "\<And>c u v. verify c u \<noteq> (Inl (NeedInfo i reqs), v)"
    and aut: "\<And>claims q u v. auth claims q u \<noteq> (Inl (NeedInfo i reqs), v)"
  shows "reqs \<noteq> [] \<and> (\<exists>tk stored. ticketStore s (the (di_ticket input)) = Some tk
    \<and> ticketStore t i = Some stored \<and> permissions stored = permissions tk
    \<and> derivedIds stored = derivedIds tk
    \<and> (\<forall>k vs. obj_get (provided tk) k = Some vs \<longrightarrow>
          (\<exists>more. obj_get (provided stored) k = Some (vs @ more))))"
proof -
  let ?strat = "server_strategy cipher auth part"
  note contract = server_negotiation [OF assms(1) server_strategy_contract [OF assms(2)]]
  have "getTicket ?strat input s \<noteq> (Inl (NeedInfo i reqs), t)"
    using tid by (auto simp: getTicket_def kv_get_def split: option.splits)
  then obtain tk s1 where g: "getTicket ?strat input s = (Inr tk, s1)"
    and n: "negotiate_ticket verify ?strat (JwtTokenFactory lib prm) (Some (StoredRefreshTokenIssuer d))
        input tk s1 = (Inl (NeedInfo i reqs), t)"
    using run by (auto simp: server_negotiate_def BaseNegotiator_def bind_eq_Inl)
  have "\<exists>updated s2 s3. processCredentials verify ?strat input tk s1 = (Inr updated, s2)
      \<and> denyRequest (tk\<lparr>provided := provided updated\<rparr>) reqs s3 = (Inl (NeedInfo i reqs), t)"
    (is ?found)
  proof (rule base_negotiation.negotiate_ticket_run [OF contract n])
    fix e assume "Inl (NeedInfo i reqs) = Inl e"
      "processCredentials verify ?strat input tk s1 = (Inl e, t)"
    then show ?found using server_credentials_error [of verify cipher auth part] ver by fastforce
  next
    fix updated s2 e assume "Inl (NeedInfo i reqs) = Inl e"
      "resolveTicket ?strat updated s2 = (Inl e, t)"
    then show ?found using server_resolve_error [of cipher auth part] aut by fastforce
  next
    fix updated s2 granted s3
    assume "grant_response (JwtTokenFactory lib prm) (Some (StoredRefreshTokenIssuer d)) updated granted s3
        = (Inl (NeedInfo i reqs), t)"
    then show ?found
      by (auto simp: grant_response_def JwtTokenFactory_def jwt_serialize_def StoredRefreshTokenIssuer_def
          bind_eq_Inl Let_def)
  next
    fix updated s2 rs s3
    assume "processCredentials verify ?strat input tk s1 = (Inr updated, s2)"
      "denyRequest (tk\<lparr>provided := provided updated\<rparr>) rs s3 = (Inl (NeedInfo i reqs), t)"
    moreover from this have "rs = reqs" by (auto simp: denyRequest_def split: if_splits)
    ultimately show ?found by blast
  qed
  then obtain updated s2 s3 where p: "processCredentials verify ?strat input tk s1 = (Inr updated, s2)"
    and deny: "denyRequest (tk\<lparr>provided := provided updated\<rparr>) reqs s3 = (Inl (NeedInfo i reqs), t)"
    by (elim exE conjE)
  have "reqs \<noteq> []" "ticketStore t i = Some (tk\<lparr>provided := provided updated\<rparr>)"
    using deny by (auto simp: denyRequest_def kv_set_def split: if_splits)
  then show ?thesis
    using getTicket_stored [OF tid g] base_negotiation.processCredentials_ticket [OF contract p]
    by auto
qed

text \<open>
  the refusals of a negotiation. Without a ticket and without permissions, with a ticket that
  is not stored, the request is bad and nothing changes; a stored ticket with a credential list
  that starts with an incomplete token/format pair is bad as well, but the ticket is consumed.
\<close>

theorem negotiation_refusals:
  "(\<not> truthy_opt (di_ticket input) \<and> di_permissions input = None \<longrightarrow>
      server_negotiate verify strat lib prm d input s = (Inl BadRequest, s))
   \<and> (truthy_opt (di_ticket input) \<and> ticketStore s (the (di_ticket input)) = None \<longrightarrow>
      server_negotiate verify strat lib prm d input s = (Inl BadRequest, s))
   \<and> (truthy_opt (di_ticket input) \<and> ticketStore s (the (di_ticket input)) = Some tk
      \<and> claim_token_list input = (tok, fmt) # rest \<and> (\<not> truthy_opt tok \<or> \<not> truthy_opt fmt) \<longrightarrow>
      server_negotiate verify strat lib prm d input s =
        (Inl BadRequest, s\<lparr>ticketStore := (ticketStore s)(the (di_ticket input) := None)\<rparr>))"
  by (auto simp: server_negotiate_def BaseNegotiator_def getTicket_def kv_get_def kv_delete_def
      negotiate_ticket_def processCredentials_def process_token_def bind_def throw_def return_def)

lemma isPartial_complete: "\<not> isPartialResult requested granted \<Longrightarrow> access_of requested \<subseteq> access_of granted"
  unfolding isPartialResult_def access_of_def by (auto simp: list_ex_iff list_all_iff) metis

lemma immediate_permissions:
  assumes "processCredentials verify (ImmediateAuthorizerStrategy auth part) input tk s = (Inr tk', t)"
  shows "permissions tk' = permissions tk"
  using assms unfolding processCredentials_def
  by (rule fold_act_inv [where P = "\<lambda>tk' _. permissions tk' = permissions tk"])
    (auto simp: process_token_def ImmediateAuthorizerStrategy_def immediate_validateClaims_def
      bind_eq_Inr split: prod.splits if_splits)

text \<open>
  an answer not marked partial is complete. Over the immediate strategy, partial success
  allowed or not, a response without the \<open>partial\<close> flag files a token for exactly the
  (resource, scope) pairs the ticket asks for.
\<close>

theorem unmarked_answer_is_complete:
  assumes "verifier verify" and "sound_authorizer auth"
    and g: "getTicket (ImmediateAuthorizerStrategy auth part) input s = (Inr tk, s1)"
    and run: "server_negotiate verify (ImmediateAuthorizerStrategy auth part) lib prm d input s = (Inr out, t)"
    and "\<not> do_partial out"
  shows "\<exists>ps sub expires. tokenStore t (do_access_token out)
        = Some (\<lparr>at_permissions = ps, at_sub = sub, at_contract = None\<rparr>, expires)
    \<and> access_of ps = access_of (permissions tk)"
proof (rule base_negotiation.negotiate_run [OF server_negotiation run [unfolded server_negotiate_def]])
  show "verifier verify" by fact
  show "ticketing_strategy (ImmediateAuthorizerStrategy auth part) (=)"
    using immediate_plain [OF assms(2)] by (simp add: plain_strategy_def)
next
  fix tk' s1' updated s2 granted s3
  assume g': "getTicket (ImmediateAuthorizerStrategy auth part) input s = (Inr tk', s1')"
    and p: "processCredentials verify (ImmediateAuthorizerStrategy auth part) input tk' s1' = (Inr updated, s2)"
    and r: "resolveTicket (ImmediateAuthorizerStrategy auth part) updated s2 = (Inr (Success granted), s3)"
    and resp: "grant_response (JwtTokenFactory lib prm) (Some (StoredRefreshTokenIssuer d)) updated granted s3
      = (Inr out, t)"
  have ps: "permissions updated = permissions tk" using immediate_permissions [OF p] g g' by simp
  have "access_of granted \<subseteq> access_of (permissions updated)"
    using immediate_resolve_Success [of auth part updated s2 granted s3] r
    by (auto simp: ImmediateAuthorizerStrategy_def dest!: calculatePermissions_access [OF assms(2)])
  moreover obtain e where filed: "tokenStore t (do_access_token out) = Some (\<lparr>at_permissions = granted,
      at_sub = token_sub (provided updated), at_contract = None\<rparr>, e)"
    and flag: "do_partial out = isPartialResult (permissions updated) granted"
    using base_negotiation.grant_response_run [OF server_negotiation resp] assms(1)
      immediate_plain [OF assms(2), unfolded plain_strategy_def] by blast
  moreover have "access_of (permissions updated) \<subseteq> access_of granted"
    using isPartial_complete flag assms(5) by simp
  ultimately show ?thesis using ps by auto
qed

text \<open>
  refreshing changes the subject. The claims kept with a refresh token already hold the user's
  IRI and the original identifier; read back through the IRI verifier, the IRI overwrites the
  original, so a ticket with just these claims names the IRI as token subject where the token it
  refreshes named the original identifier.
\<close>

theorem refresh_changes_subject:
  assumes "format c = REFRESH_TOKEN"
    and "ex_get (clock s) (refreshStore s) (token c) = Some info" and "clock s \<le> ri_expiration info"
    and "obj_get (ri_claims info) WEBID = Some [JStr iri]" and "isIri iri"
    and "obj_get (ri_claims info) ORIGINAL_WEBID = Some [JStr orig]"
  shows "\<exists>claims. IriVerifier w baseUrl RefreshTokenVerifier c s = (Inr claims, s)
    \<and> token_sub (ri_claims info) = Some orig \<and> token_sub claims = Some iri"
proof (intro exI conjI)
  show "IriVerifier w baseUrl RefreshTokenVerifier c s = (Inr (iri_claims w baseUrl (ri_claims info)), s)"
    using assms(1-3) by (simp add: IriVerifier_def bind_def refresh_token_credential return_def)
  show "token_sub (ri_claims info) = Some orig"
    using assms(6) by (simp add: token_sub_def)
  show "token_sub (iri_claims w baseUrl (ri_claims info)) = Some iri"
    using assms(4) by (simp add: token_sub_def iri_claims_get)
qed

text \<open>
  a derivation request yields the aggregate identifier of the one resource of its ticket. When
  it succeeds, the stored ticket had exactly one permission, the wrapped negotiation ran on that
  ticket with the derivation-creation scope added, and the returned identifier decodes to the
  resource, for a cipher that decrypts what it encrypts, with hexadecimal parts and vectors.
\<close>

theorem derivation_id_decodes:
  assumes "derivation_creation \<in> set (split_on (CHR '' '') sc)" and "di_scope input = Some sc"
    and cipher: "\<And>iv i tag enc. seal cipher iv i = (tag, enc) \<Longrightarrow>
      unseal cipher iv tag enc = Some i \<and> CHR '':'' \<notin> set tag \<and> CHR '':'' \<notin> set enc"
    and "negotiator negotiate" and ivs: "\<forall>n. CHR '':'' \<notin> set (entropy s n)"
    and run: "AggregatorNegotiator cipher negotiate input s = (Inr out, t)"
  shows "\<exists>tk p inner t' derived. ticketStore s (the (di_ticket input)) = Some tk \<and> permissions tk = [p]
    \<and> negotiate input (s\<lparr>ticketStore := (ticketStore s)(the (di_ticket input) \<mapsto>
          tk\<lparr>permissions := [p\<lparr>resource_scopes := resource_scopes p @ [derivation_creation]\<rparr>]\<rparr>)\<rparr>)
        = (Inr inner, t')
    \<and> do_access_token out = do_access_token inner
    \<and> do_derivation_resource_id out = Some derived
    \<and> decodeAggregateId cipher derived = Some (resource_id p)"
proof -
  have "negotiateDerivationCreation cipher negotiate input s = (Inr out, t)"
    using run assms(1,2) by (simp add: AggregatorNegotiator_def)
  then obtain tk p where tk: "ticketStore s (the (di_ticket input)) = Some tk" "permissions tk = [p]"
    and rest: "bind (negotiate input) (\<lambda>output.
        bind (encodeAggregateId cipher (resource_id p)) (\<lambda>derivationId.
        return (output\<lparr>do_derivation_resource_id := Some derivationId\<rparr>)))
      (s\<lparr>ticketStore := kv_set (ticketStore s) (the (di_ticket input)) (add_creation_scope tk)\<rparr>)
      = (Inr out, t)"
    by (auto simp: negotiateDerivationCreation_def kv_get_def split: if_splits option.splits list.splits)
  obtain inner t' where n: "negotiate input
      (s\<lparr>ticketStore := kv_set (ticketStore s) (the (di_ticket input)) (add_creation_scope tk)\<rparr>)
      = (Inr inner, t')"
    and out: "out = inner\<lparr>do_derivation_resource_id :=
        Some (encode_with_iv cipher (fresh_id t') (resource_id p))\<rparr>"
    using rest by (auto simp: bind_eq_Inr encodeAggregateId_def)
  have "entropy t' = entropy s" using negotiator.fixed_stores(6) [OF assms(4) n] by simp
  then have "CHR '':'' \<notin> set (fresh_id t')" using ivs by (simp add: fresh_id_def)
  then have "decodeAggregateId cipher (encode_with_iv cipher (fresh_id t') (resource_id p)) = Some (resource_id p)"
    using cipher by (intro decode_encode_with_iv) auto
  then show ?thesis
    using tk n out by (auto simp: add_creation_scope_def kv_set_def)
qed

subsection \<open>Examples\<close>

text \<open>A cipher that only writes the bytes in hexadecimal.\<close>

definition hex_value :: "char \<Rightarrow> nat" where
  "hex_value c = (if (of_char c :: nat) < 65 then of_char c - 48 else of_char c - 55)"

definition to_hex :: "string \<Rightarrow> string" where
  "to_hex s = concat (map (\<lambda>c. [hex_digit (of_char c div 16), hex_digit (of_char c mod 16)]) s)"

fun from_hex :: "string \<Rightarrow> string option" where
  "from_hex [] = Some []"
| "from_hex [c] = None"
| "from_hex (a # b # r) =
     (case from_hex r of None \<Rightarrow> None
      | Some s \<Rightarrow> Some (char_of (16 * hex_value a + hex_value b) # s))"

definition hex_cipher :: aead where
  "hex_cipher = \<lparr>seal = (\<lambda>iv i. (''00'', to_hex i)), unseal = (\<lambda>iv tag enc. from_hex enc)\<rparr>"

lemma hex_value_digit: "n < 16 \<Longrightarrow> hex_value (hex_digit n) = n"
  by (auto simp: hex_value_def hex_digit_def)

lemma hex_digit_no_colon: "n < 16 \<Longrightarrow> CHR '':'' \<noteq> hex_digit n"
  by (auto simp: hex_digit_def dest: arg_cong [where f = "of_char :: char \<Rightarrow> nat"])

lemma char_div_16: "(of_char c :: nat) div 16 < 16"
  using nat_of_char_less_256 [of c] by (simp del: nat_of_char_less_256 add: div_less_iff_less_mult)

lemma from_to_hex: "from_hex (to_hex s) = Some s"
  by (induction s) (simp_all add: to_hex_def hex_value_digit char_div_16)

lemma to_hex_no_colon: "CHR '':'' \<notin> set (to_hex s)"
  using hex_digit_no_colon [OF char_div_16] hex_digit_no_colon [OF mod_less_divisor]
  by (auto simp: to_hex_def)

lemma hex_cipher_ok:
  "seal hex_cipher iv i = (tag, enc) \<Longrightarrow>
     unseal hex_cipher iv tag enc = Some i \<and> CHR '':'' \<notin> set tag \<and> CHR '':'' \<notin> set enc"
  by (auto simp: hex_cipher_def from_to_hex to_hex_no_colon)

definition ticket_state :: dialog_state where
  "ticket_state = empty_state\<lparr>ticketStore := [''t1'' \<mapsto> example_ticket], entropy := (\<lambda>n. ''id'')\<rparr>"

definition ticket_input :: dialog_input where
  "ticket_input = empty_input\<lparr>di_ticket := Some ''t1''\<rparr>"

definition example_negotiate :: "authorizer \<Rightarrow> negotiate_fun" where
  "example_negotiate auth = server_negotiate KeyValueVerifier (server_strategy hex_cipher auth False)
     example_jwt_library example_params 60"

definition example_output :: dialog_output where
  "example_output = \<lparr>do_access_token = ''jwt'', do_refresh_token = Some ''id'', do_token_type = ''Bearer'',
     do_partial = False, do_expires_in = None, do_derivation_resource_id = None\<rparr>"

lemma example_run: "fst (example_negotiate AllAuthorizer ticket_input ticket_state) = Inr example_output"
  by code_simp

lemma token_within_ticket_witness:
  "\<exists>tk ps. ticketStore ticket_state ''t1'' = Some tk \<and> ps \<noteq> []
     \<and> access_within (same_resource (decodeAggregateId hex_cipher)) ps (permissions tk)"
  using token_within_ticket [OF key_value_verifier.verifier_axioms all_auth.sound_authorizer_axioms _
      run_fst [OF example_run [unfolded example_negotiate_def]]]
  by (auto simp: ticket_input_def)

lemma ticket_used_once_witness:
  "fst (example_negotiate AllAuthorizer ticket_input
     (snd (example_negotiate AllAuthorizer ticket_input ticket_state))) = Inl BadRequest"
proof -
  have "truthy_opt (di_ticket ticket_input)"
    "\<forall>n \<ge> drawn ticket_state. entropy ticket_state n \<noteq> the (di_ticket ticket_input)"
    by (simp_all add: ticket_input_def ticket_state_def)
  from ticket_used_once [OF key_value_verifier.verifier_axioms all_auth.sound_authorizer_axioms this
      run_fst [OF refl, unfolded example_negotiate_def] refl]
  show ?thesis unfolding example_negotiate_def by simp
qed

definition unmet_state :: dialog_state where
  "unmet_state = ticket_state\<lparr>ticketStore := [''t1'' \<mapsto> \<lparr>derivedIds = None,
     permissions = [\<lparr>resource_id = ''x'', resource_scopes = [''read'']\<rparr>,
                    \<lparr>resource_id = ''y'', resource_scopes = [''read'']\<rparr>], provided = []\<rparr>]\<rparr>"

text \<open>An authorizer that grants the first entry only.\<close>

definition first_only :: authorizer where
  "first_only claims query = (case query of
      Some (q # _) \<Rightarrow> return [grant_as_asked q] | _ \<Rightarrow> return [])"

lemma first_only_sound: "sound_authorizer first_only"
proof
  show "keeps quiet (first_only claims query)" for claims query
    unfolding first_only_def by (intro quiet_intros)
  show "access_of ps \<subseteq> access_of qs" if "fst (first_only claims (Some (map full qs)) s) = Inr ps"
    for claims qs s ps
    using that by (cases qs) (auto simp: first_only_def access_of_Cons)
qed

lemma need_info_keeps_dialog_witness:
  "\<exists>stored. ticketStore (snd (example_negotiate first_only ticket_input unmet_state)) ''id'' = Some stored
     \<and> length (permissions stored) = 2"
proof -
  let ?reqs = "[empty_claim\<lparr>rc_resource_scopes := Some [''read'']\<rparr>]"
  have run: "fst (example_negotiate first_only ticket_input unmet_state) = Inl (NeedInfo ''id'' ?reqs)"
    by code_simp
  have tid: "truthy_opt (di_ticket ticket_input)" by (simp add: ticket_input_def)
  have ver: "KeyValueVerifier c u \<noteq> (Inl (NeedInfo ''id'' ?reqs), v)" for c u v
    by (simp add: KeyValueVerifier_def)
  have aut: "first_only claims q u \<noteq> (Inl (NeedInfo ''id'' ?reqs), v)" for claims q u v
    by (simp add: first_only_def split: option.split list.split)
  from need_info_keeps_dialog [OF key_value_verifier.verifier_axioms first_only_sound tid
      run_fst [OF run [unfolded example_negotiate_def]] ver aut]
  show ?thesis
    unfolding example_negotiate_def by (auto simp: ticket_input_def unmet_state_def)
qed

lemma negotiation_refusals_witness:
  "server_negotiate KeyValueVerifier (server_strategy hex_cipher AllAuthorizer False) example_jwt_library
     example_params 60 empty_input empty_state = (Inl BadRequest, empty_state)"
  using negotiation_refusals [of empty_input KeyValueVerifier
      "server_strategy hex_cipher AllAuthorizer False" example_jwt_library example_params 60 empty_state]
  by (simp add: empty_input_def)

lemma unmarked_answer_is_complete_witness:
  "\<exists>ps. access_of ps = access_of (permissions example_ticket)"
proof -
  let ?strat = "ImmediateAuthorizerStrategy AllAuthorizer True"
  have g: "fst (getTicket ?strat ticket_input ticket_state) = Inr example_ticket"
    and n: "fst (server_negotiate KeyValueVerifier ?strat example_jwt_library example_params 60
        ticket_input ticket_state) = Inr example_output"
    by code_simp+
  show ?thesis
    using unmarked_answer_is_complete [OF key_value_verifier.verifier_axioms
        all_auth.sound_authorizer_axioms run_fst [OF g] run_fst [OF n]]
    by (auto simp: example_output_def)
qed

lemma refresh_changes_subject_witness:
  "\<exists>claims. token_sub claims = Some ''https://as/id/bob''"
proof -
  let ?info = "\<lparr>ri_claims = [(WEBID, [JStr ''https://as/id/bob'']), (ORIGINAL_WEBID, [JStr ''bob''])],
     ri_permissions = [], ri_expiration = 60\<rparr>"
  let ?s = "empty_state\<lparr>refreshStore := [''r'' \<mapsto> (?info, None)]\<rparr>"
  have "isIri ''https://as/id/bob''" by code_simp
  then show ?thesis
    using refresh_changes_subject [of "\<lparr>token = ''r'', format = REFRESH_TOKEN\<rparr>" ?s ?info
        "''https://as/id/bob''" "''bob''" example_web "''https://as/id/''"]
    by (auto simp: ex_get_def empty_state_def)
qed

lemma derivation_id_decodes_witness:
  "\<exists>derived. decodeAggregateId hex_cipher derived = Some ''x''"
proof -
  let ?in = "ticket_input\<lparr>di_scope := Some derivation_creation\<rparr>"
  have split: "derivation_creation \<in> set (split_on (CHR '' '') derivation_creation)"
    by code_simp
  have "fst (AggregatorNegotiator hex_cipher (example_negotiate AllAuthorizer) ?in ticket_state)
      = Inr (example_output\<lparr>do_derivation_resource_id := Some ''id:00:78''\<rparr>)"
    by code_simp
  from derivation_id_decodes [OF split _ hex_cipher_ok _ _ run_fst [OF this]]
  show ?thesis
    by (auto simp: ticket_state_def example_ticket_def ticket_input_def example_negotiate_def
        intro: server_negotiator server_strategy_contract key_value_verifier.verifier_axioms
          all_auth.sound_authorizer_axioms)
qed

end
