(* ===== verification/TokenEndpoint.thy ===== *)
theory TokenEndpoint
  imports NegotiationFacts
begin

text \<open>
  The routes that drive a dialog: \<open>routes/Token.ts\<close>, \<open>routes/token/RefreshTokenHandler.ts\<close>,
  \<open>routes/Ticket.ts\<close> and \<open>routes/Introspection.ts\<close>.
\<close>

subsection \<open>Requests and responses\<close>

text \<open>The parts of \<open>HttpHandlerRequest\<close> the routes look at.\<close>

record request =
  req_method :: string
  req_url :: string
  req_body :: js
  req_authorization :: "string option"
  req_content_type :: "string option"
  req_parameters :: "string obj"

record 'b response =
  status :: nat
  content :: 'b

subsection \<open>The token endpoint\<close>

datatype token_body = TokenBody dialog_output | NeedInfoBody string "required_claim list"

text \<open>
  The endpoint is polymorphic in the state: the handlers it delegates to are arguments, and one
  of them (\<open>UmaProtection\<close>) works on other storages.
\<close>

definition handleUmaGrant ::
  "(dialog_input \<Rightarrow> ('s, dialog_output) act) \<Rightarrow> dialog_input \<Rightarrow> ('s, token_body response) act" where
  "handleUmaGrant negotiate params =
     catch (bind (negotiate params) (\<lambda>out. return \<lparr>status = 200, content = TokenBody out\<rparr>))
       (\<lambda>e. case e of
           NeedInfo i claims \<Rightarrow> return \<lparr>status = 403, content = NeedInfoBody i claims\<rparr>
         | _ \<Rightarrow> throw e)"

definition TokenRequestHandler ::
  "(dialog_input \<Rightarrow> ('s, dialog_output) act) \<Rightarrow> (request \<Rightarrow> ('s, token_body response) act) \<Rightarrow>
   (request \<Rightarrow> ('s, token_body response) act) \<Rightarrow> request \<Rightarrow> ('s, token_body response) act" where
  "TokenRequestHandler negotiate umaProtection refreshTokenHandler req =
     (if \<not> reType (req_body req) DialogInput then throw BadRequest
      else (let params = decode_input (req_body req) in
        if di_scope params = Some UMA_PROTECTION_SCOPE then umaProtection req
        else if di_grant_type params = Some GRANT_TYPE_REFRESH_TOKEN then refreshTokenHandler req
        else if di_grant_type params = Some GRANT_TYPE_UMA_TICKET then handleUmaGrant negotiate params
        else throw BadRequest))"

subsection \<open>Refreshing\<close>

definition refresh_input :: "permission list \<Rightarrow> string \<Rightarrow> dialog_input" where
  "refresh_input ps rt = empty_input\<lparr>di_permissions := Some ps, di_claim_token := Some (SingleToken rt),
     di_claim_token_format := Some REFRESH_TOKEN\<rparr>"

definition RefreshTokenHandler :: "negotiate_fun \<Rightarrow> request \<Rightarrow> token_body response dialog" where
  "RefreshTokenHandler negotiate req =
     (if \<not> reType (req_body req) DialogInput then throw BadRequest
      else (let params = decode_input (req_body req) in
        if di_grant_type params \<noteq> Some GRANT_TYPE_REFRESH_TOKEN then throw BadRequest
        else if \<not> truthy_opt (di_refresh_token params) then throw BadRequest
        else (let rt = the (di_refresh_token params) in
          bind (gets (\<lambda>s. (ex_get (clock s) (refreshStore s) rt, clock s))) (\<lambda>(found, now).
          case found of
            None \<Rightarrow> throw BadRequest
          | Some information \<Rightarrow>
              if now > ri_expiration information
              then bind (modify (\<lambda>s. s\<lparr>refreshStore := ex_delete (refreshStore s) rt\<rparr>)) (\<lambda>_.
                throw Forbidden)
              else bind (negotiate (refresh_input (ri_permissions information) rt)) (\<lambda>out.
                bind (modify (\<lambda>s. s\<lparr>refreshStore := ex_delete (refreshStore s) rt\<rparr>)) (\<lambda>_.
                return \<lparr>status = 200, content = TokenBody out\<rparr>))))))"

subsection \<open>Requesting tickets\<close>

datatype ticket_body = Granted | InvalidResource string | TicketBody string

text \<open>
  \<open>validate\<close> is the request validator. The list is the one the pattern accepted; the first
  identifier without a registration ends the request.
\<close>

definition issue_ticket :: "ticketing \<Rightarrow> permission list \<Rightarrow> ticket_body response dialog" where
  "issue_ticket strat ps =
     bind (initializeTicket strat ps) (\<lambda>tk.
     bind (resolveTicket strat tk) (\<lambda>resolved.
     case resolved of
       Success granted \<Rightarrow> return \<lparr>status = 200, content = Granted\<rparr>
     | Failure reqs \<Rightarrow>
         bind randomUUID (\<lambda>i.
         bind (modify (\<lambda>s. s\<lparr>ticketStore := kv_set (ticketStore s) i tk\<rparr>)) (\<lambda>_.
         return \<lparr>status = 201, content = TicketBody i\<rparr>))))"

definition TicketRequestHandler ::
  "(request \<Rightarrow> unit dialog) \<Rightarrow> ticketing \<Rightarrow> request \<Rightarrow> ticket_body response dialog" where
  "TicketRequestHandler validate strat req =
     bind (validate req) (\<lambda>_.
     if \<not> reType (req_body req) (PArray Permission) then throw BadRequest
     else (let ps = decode_permissions (req_body req) in
       bind (gets (\<lambda>s. List.find (\<lambda>p. \<not> kv_has (registrationStore s) (resource_id p)) ps)) (\<lambda>unknown.
       case unknown of
         Some p \<Rightarrow> return \<lparr>status = 400, content = InvalidResource (resource_id p)\<rparr>
       | None \<Rightarrow> issue_ticket strat ps)))"

subsection \<open>Introspection\<close>

text \<open>\<open>token_param\<close> is \<open>new URLSearchParams(body).get('token')\<close>.\<close>

definition IntrospectionHandler ::
  "(js \<Rightarrow> string option) \<Rightarrow> (request \<Rightarrow> unit dialog) \<Rightarrow> token_ops \<Rightarrow> request \<Rightarrow>
   access_token response dialog" where
  "IntrospectionHandler token_param validate factory req =
     bind (validate req) (\<lambda>_.
     if \<not> truthy (req_body req) then throw BadRequest
     else catch (if \<not> truthy_opt (token_param (req_body req)) then throw PlainError
                 else bind (deserialize factory (the (token_param (req_body req)))) (\<lambda>tok.
                   return \<lparr>status = 200, content = tok\<rparr>))
            (\<lambda>_. throw BadRequest))"

subsection \<open>Properties\<close>

lemma refresh_run:
  assumes "RefreshTokenHandler negotiate req s = (Inr resp, t)"
  obtains rt info out t' where "di_refresh_token (decode_input (req_body req)) = Some rt"
    "ex_get (clock s) (refreshStore s) rt = Some info" "clock s \<le> ri_expiration info"
    "negotiate (refresh_input (ri_permissions info) rt) s = (Inr out, t')"
    "t = t'\<lparr>refreshStore := ex_delete (refreshStore t') rt\<rparr>"
    "resp = \<lparr>status = 200, content = TokenBody out\<rparr>"
  using assms
  by (auto simp: RefreshTokenHandler_def Let_def bind_eq_Inr dest!: truthy_optD
      split: if_splits option.splits)


text \<open>
  an expired refresh token is removed and refused. The request is forbidden, the entry is gone
  and nothing else changes.
\<close>

theorem refresh_expired:
  assumes "reType (req_body req) DialogInput"
    and "di_grant_type (decode_input (req_body req)) = Some GRANT_TYPE_REFRESH_TOKEN"
    and "di_refresh_token (decode_input (req_body req)) = Some rt" and "rt \<noteq> ''''"
    and "ex_get (clock s) (refreshStore s) rt = Some info" and "ri_expiration info < clock s"
  shows "RefreshTokenHandler negotiate req s
    = (Inl Forbidden, s\<lparr>refreshStore := (refreshStore s)(rt := None)\<rparr>)"
  using assms
  by (simp add: RefreshTokenHandler_def Let_def throw_def ex_delete_def)

text \<open>
  what the ticket endpoint stores and answers. With a validator that changes no storage, a
  request with an unregistered resource is answered 400 and changes nothing stored; an answer 200
  means the strategy resolved a ticket for the request without any claims; an answer 201 carries
  the identifier of a stored ticket that asks for everything requested, has no claims yet, and
  could not be resolved without claims.
\<close>

theorem ticket_endpoint:
  assumes "ticketing_strategy strat rel" and "\<And>r. keeps quiet (validate r)"
    and run: "TicketRequestHandler validate strat req s = (Inr resp, t)"
  shows "case content resp of
      InvalidResource i \<Rightarrow> status resp = 400 \<and> stored t = stored s \<and> registrationStore s i = None
        \<and> i \<in> resource_id ` set (decode_permissions (req_body req))
    | Granted \<Rightarrow> status resp = 200 \<and> stored t = stored s
        \<and> (\<exists>tk more granted u u'. permissions tk = decode_permissions (req_body req) @ more
            \<and> provided tk = [] \<and> resolveTicket strat tk u = (Inr (Success granted), u'))
    | TicketBody i \<Rightarrow> status resp = 201
        \<and> (\<exists>tk more reqs u u'. ticketStore t i = Some tk
            \<and> permissions tk = decode_permissions (req_body req) @ more \<and> provided tk = []
            \<and> resolveTicket strat tk u = (Inr (Failure reqs), u'))"
proof -
  let ?ps = "decode_permissions (req_body req)"
  obtain s1 where v: "validate req s = (Inr (), s1)"
    and rest: "(case List.find (\<lambda>p. \<not> kv_has (registrationStore s1) (resource_id p)) ?ps of
         Some p \<Rightarrow> return \<lparr>status = 400, content = InvalidResource (resource_id p)\<rparr>
       | None \<Rightarrow> issue_ticket strat ?ps) s1 = (Inr resp, t)"
    using run unfolding TicketRequestHandler_def bind_eq_Inr Let_def
    by (auto simp del: reType_simps split: if_splits)
  have same1: "stored s1 = stored s" using keepsD [OF assms(2) v] by (rule quietD)
  show ?thesis
  proof (cases "List.find (\<lambda>p. \<not> kv_has (registrationStore s1) (resource_id p)) ?ps")
    case (Some p)
    then have "p \<in> set ?ps" "registrationStore s1 (resource_id p) = None"
      by (auto simp: find_Some_iff kv_has_def)
    with Some rest same1 stored_fields(4) [OF same1] show ?thesis by auto
  next
    case None
    with rest have "issue_ticket strat ?ps s1 = (Inr resp, t)" by simp
    then obtain tk s2 res s3 where i: "initializeTicket strat ?ps s1 = (Inr tk, s2)"
      and r: "resolveTicket strat tk s2 = (Inr res, s3)"
      and last: "(case res of
             Success granted \<Rightarrow> return \<lparr>status = 200, content = Granted\<rparr>
           | Failure reqs \<Rightarrow>
               bind randomUUID (\<lambda>i.
               bind (modify (\<lambda>s. s\<lparr>ticketStore := kv_set (ticketStore s) i tk\<rparr>)) (\<lambda>_.
               return \<lparr>status = 201, content = TicketBody i\<rparr>))) s3 = (Inr resp, t)"
      unfolding issue_ticket_def bind_eq_Inr by blast
    have "stored s3 = stored s"
      using keepsD [OF ticketing_strategy.init_quiet [OF assms(1)] i]
        keepsD [OF ticketing_strategy.resolve_quiet [OF assms(1)] r] same1
      by (simp add: quiet_def)
    moreover obtain more where "permissions tk = ?ps @ more" "provided tk = []"
      using ticketing_strategy.init_ticket [OF assms(1), of ?ps s1 tk] i by auto
    ultimately show ?thesis
      using last r by (cases res) (auto simp: kv_set_def)
  qed
qed

text \<open>
  introspection reports exactly the live tokens. With a validator that accepts, a token string
  is answered 200 with the permissions and subject the factory reads from it, and every failure
  (no body, no token, a string the factory rejects) is the same bad request.
\<close>

theorem introspection_exact:
  assumes "validate req s = (Inr (), s)"
  shows "IntrospectionHandler token_param validate factory req s =
    (case (if truthy (req_body req) \<and> truthy_opt (token_param (req_body req))
           then deserialize factory (the (token_param (req_body req))) s else (Inl BadRequest, s)) of
       (Inl e, t) \<Rightarrow> (Inl BadRequest, t)
     | (Inr tok, t) \<Rightarrow> (Inr \<lparr>status = 200, content = tok\<rparr>, t))"
  using assms
  by (auto simp: IntrospectionHandler_def bind_def catch_def throw_def return_def
      split: prod.split sum.split)

subsection \<open>Examples\<close>

definition post :: "js \<Rightarrow> request" where
  "post v = \<lparr>req_method = ''POST'', req_url = ''https://as/token'', req_body = v,
     req_authorization = None, req_content_type = None, req_parameters = []\<rparr>"

definition refresh_request :: request where
  "refresh_request = post (JObj [(''grant_type'', JStr GRANT_TYPE_REFRESH_TOKEN),
     (''refresh_token'', JStr ''r'')])"

definition refresh_state :: dialog_state where
  "refresh_state = empty_state\<lparr>refreshStore := [''r'' \<mapsto> (\<lparr>ri_claims = [],
     ri_permissions = [\<lparr>resource_id = ''x'', resource_scopes = [''read'']\<rparr>], ri_expiration = 60\<rparr>, None)]\<rparr>"


lemma refresh_expired_witness:
  "fst (RefreshTokenHandler (\<lambda>_. throw PlainError) refresh_request (refresh_state\<lparr>clock := 61\<rparr>)) = Inl Forbidden"
proof -
  let ?info = "\<lparr>ri_claims = [], ri_permissions = [\<lparr>resource_id = ''x'', resource_scopes = [''read'']\<rparr>],
      ri_expiration = 60\<rparr>"
  have "reType (req_body refresh_request) DialogInput" by code_simp
  moreover have "di_grant_type (decode_input (req_body refresh_request)) = Some GRANT_TYPE_REFRESH_TOKEN"
    "di_refresh_token (decode_input (req_body refresh_request)) = Some ''r''"
    by code_simp+
  ultimately show ?thesis
    using refresh_expired [of refresh_request "''r''" "refresh_state\<lparr>clock := 61\<rparr>" ?info]
    by (simp add: refresh_state_def ex_get_def)
qed

definition ticket_request :: request where
  "ticket_request = post (JArr [encode_permission \<lparr>resource_id = ''x'', resource_scopes = [''read'']\<rparr>])"

definition registered_state :: dialog_state where
  "registered_state = empty_state\<lparr>registrationStore := [''x'' \<mapsto> \<lparr>reg_owner = ''alice'',
     reg_description = \<lparr>rd_resource_scopes = [''read''], rd_resource_defaults = None,
       rd_resource_relations = None, rd_derived_from = None, rd_name = None, rd_body = JObj []\<rparr>\<rparr>]\<rparr>"

lemma ticket_endpoint_witness:
  "\<exists>tk. ticketStore (snd (TicketRequestHandler (\<lambda>_. return ()) (ImmediateAuthorizerStrategy NoneAuthorizer False)
      ticket_request registered_state)) ''id-0'' = Some tk \<and> provided tk = []"
proof -
  have "fst (TicketRequestHandler (\<lambda>_. return ()) (ImmediateAuthorizerStrategy NoneAuthorizer False)
      ticket_request registered_state) = Inr \<lparr>status = 201, content = TicketBody ''id-0''\<rparr>"
    by code_simp
  from ticket_endpoint [OF none_auth.immediate.ticketing_strategy_axioms _ run_fst [OF this]]
  show ?thesis by (auto intro: quiet.keeps_return)
qed

lemma introspection_exact_witness:
  "IntrospectionHandler (\<lambda>_. None) (\<lambda>_. return ()) OpaqueTokenFactory (post (JObj [])) empty_state
    = (Inl BadRequest, empty_state)"
  using introspection_exact [of "\<lambda>_. return ()" "post (JObj [])" empty_state "\<lambda>_. None" OpaqueTokenFactory]
  by simp

end
