(* ===== verification/PolicyStorage.thy ===== *)
theory PolicyStorage
  imports Stores
begin

text \<open>
  The policy storages of \<open>ucp/storage/\<close> and the extraction of a rule with everything it refers
  to (\<open>ucp/util/Util.ts\<close>). The locale \<open>rules_storage\<close> is what the clients (resource
  registration, collections, controllers) rely on; the memory, directory and file-backup storages
  are shown to provide it.
\<close>

subsection \<open>Everything reachable from a subject\<close>

text \<open>
  \<open>extractQuadsRecursive\<close>. The terms on the path are not entered again; a quad that leads back
  to one of them is still part of the result.
\<close>

function extractQuadsRecursive :: "store \<Rightarrow> rterm \<Rightarrow> rterm list \<Rightarrow> store" where
  "extractQuadsRecursive st i existing =
     (let qs = get_quads st (Some i) None None in
      let existingSubjects = existing @ [i] in
      fold (\<lambda>q tmp. if object q \<in> set existingSubjects then add_quad tmp q
                    else add_quads tmp (extractQuadsRecursive st (object q) existingSubjects))
        qs (new_store qs))"
  by pat_completeness auto

text \<open>
  Every step along an edge either marks a term the store has as an object, or starts at a term
  that is marked already or is no object.
\<close>

termination
proof (relation "measures [\<lambda>(st, i, ex). card (object ` set st - set ex),
    \<lambda>(st, i, ex). if i \<in> object ` set st - set ex then 0 else 1]", goal_cases)
  case 1 show ?case by simp
next
  case (2 st i ex qs ex' q tmp)
  have q: "q \<in> set st" using 2 by (simp add: set_get_quads)
  have fin: "finite (object ` set st - set ex)" by simp
  show ?case
  proof (cases "i \<in> object ` set st - set ex")
    case True
    then have "object ` set st - set ex' \<subset> object ` set st - set ex"
      using 2 by auto
    then show ?thesis using 2 psubset_card_mono [OF fin] by simp
  next
    case False
    then have "object ` set st - set ex' = object ` set st - set ex"
      using 2 by auto
    with False q 2 show ?thesis by simp
  qed
qed

declare extractQuadsRecursive.simps [simp del]

lemma set_fold_collect:
  "set (fold (\<lambda>q tmp. if P q then add_quad tmp q else add_quads tmp (f q)) qs st) =
     set st \<union> {q \<in> set qs. P q} \<union> (\<Union>q \<in> {q \<in> set qs. \<not> P q}. set (f q))"
  by (induction qs arbitrary: st) (auto simp: set_add_quad)

lemma set_extract:
  "set (extractQuadsRecursive st i ex) = {q \<in> set st. subject q = i} \<union>
     (\<Union>q \<in> {q \<in> set st. subject q = i \<and> object q \<notin> set (ex @ [i])}.
        set (extractQuadsRecursive st (object q) (ex @ [i])))"
  by (subst extractQuadsRecursive.simps)
    (auto simp: Let_def set_fold_collect set_get_quads matches_def)

text \<open>The edges of a store, and what a subject reaches along them.\<close>

definition edges :: "store \<Rightarrow> (rterm \<times> rterm) set" where
  "edges st = {(subject q, object q) | q. q \<in> set st}"

lemma path_leaves_for_good:
  assumes "(a, b) \<in> R\<^sup>*"
  shows "b = a \<or> (\<exists>v. (a, v) \<in> R \<and> v \<noteq> a \<and> (v, b) \<in> {(x, y) \<in> R. y \<noteq> a}\<^sup>*)"
  using assms
proof (induction rule: rtrancl_induct)
  case (step y z)
  let ?A = "{(x, y) \<in> R. y \<noteq> a}"
  show ?case
  proof (cases "z = a")
    case False
    with step.hyps have yz: "(y, z) \<in> ?A" by simp
    show ?thesis
    proof (cases "y = a")
      case True
      with step.hyps False show ?thesis by (intro disjI2 exI [of _ z]) simp
    next
      case False
      with step.IH obtain v where "(a, v) \<in> R" "v \<noteq> a" "(v, y) \<in> ?A\<^sup>*" by blast
      with yz show ?thesis by (meson rtrancl.rtrancl_into_rtrancl)
    qed
  qed simp
qed simp

lemma extract_sound:
  "q \<in> set (extractQuadsRecursive st i ex) \<Longrightarrow> q \<in> set st \<and> (i, subject q) \<in> (edges st)\<^sup>*"
proof (induction st i ex rule: extractQuadsRecursive.induct)
  case (1 st i ex)
  from 1(2) consider "q \<in> set st" "subject q = i"
    | p where "p \<in> set st" "subject p = i" "object p \<notin> set (ex @ [i])"
        "q \<in> set (extractQuadsRecursive st (object p) (ex @ [i]))"
    by (subst (asm) set_extract) auto
  then show ?case
  proof cases
    case 2
    have "q \<in> set st \<and> (object p, subject q) \<in> (edges st)\<^sup>*"
      by (rule 1(1) [OF refl refl _ 2(3) 2(4)]) (use 2 in \<open>simp add: set_get_quads matches_def\<close>)
    moreover have "(i, object p) \<in> edges st" using 2 by (auto simp: edges_def)
    ultimately show ?thesis by (meson converse_rtrancl_into_rtrancl)
  qed simp
qed

lemma extract_complete:
  assumes "q \<in> set st" and "(i, subject q) \<in> {(x, y) \<in> edges st. y \<notin> set ex}\<^sup>*"
  shows "q \<in> set (extractQuadsRecursive st i ex)"
  using assms
proof (induction st i ex rule: extractQuadsRecursive.induct)
  case (1 st i ex)
  let ?R = "{(x, y) \<in> edges st. y \<notin> set ex}"
  have sub: "{(x, y) \<in> ?R. y \<noteq> i} = {(x, y) \<in> edges st. y \<notin> set (ex @ [i])}" by auto
  from path_leaves_for_good [OF 1(3)] consider "subject q = i"
    | v where "(i, v) \<in> ?R" "v \<noteq> i" "(v, subject q) \<in> {(x, y) \<in> edges st. y \<notin> set (ex @ [i])}\<^sup>*"
    unfolding sub by auto
  then show ?case
  proof cases
    case 1
    with \<open>q \<in> set st\<close> show ?thesis by (subst set_extract) simp
  next
    case 2
    then obtain p where p: "p \<in> set st" "subject p = i" "object p = v" by (auto simp: edges_def)
    have out: "object p \<notin> set (ex @ [i])" using 2 p by auto
    have "q \<in> set (extractQuadsRecursive st (object p) (ex @ [i]))"
      by (rule 1(1) [OF refl refl _ out 1(2)]) (use 2 p in \<open>simp_all add: set_get_quads matches_def\<close>)
    with p out show ?thesis by (subst set_extract) auto
  qed
qed

lemma extract_reachable:
  "set (extractQuadsRecursive st i []) = {q \<in> set st. (i, subject q) \<in> (edges st)\<^sup>*}"
  using extract_sound [of _ st i "[]"] extract_complete [of _ st i "[]"] by auto

subsection \<open>The interface\<close>

text \<open>
  \<open>UCRulesStorage\<close>. \<open>deleteRuleFromPolicy\<close> is \<open>None\<close> where the returned promise never
  settles.
\<close>

record 's rules_storage =
  getStore :: "('s, store) act"
  addRule :: "store \<Rightarrow> ('s, unit) act"
  getRule :: "string \<Rightarrow> ('s, store) act"
  deleteRule :: "string \<Rightarrow> ('s, unit) act"
  deleteRuleFromPolicy :: "string \<Rightarrow> string \<Rightarrow> ('s, unit) act option"
  removeData :: "store \<Rightarrow> ('s, unit) act"

definition reachable_quads :: "quad set \<Rightarrow> rterm \<Rightarrow> quad set" where
  "reachable_quads Q i = {q \<in> Q. (i, subject q) \<in> {(subject q, object q) | q. q \<in> Q}\<^sup>*}"

lemma set_extract_reachable: "set (extractQuadsRecursive st i []) = reachable_quads (set st) i"
  by (simp add: extract_reachable reachable_quads_def edges_def)

lemma reachable_subject: "q \<in> Q \<Longrightarrow> subject q = i \<Longrightarrow> q \<in> reachable_quads Q i"
  by (simp add: reachable_quads_def)

lemma reachable_empty:
  assumes "\<And>q. q \<in> Q \<Longrightarrow> subject q \<noteq> i"
  shows "reachable_quads Q i = {}"
proof -
  have "u = i" if "(i, u) \<in> {(subject q, object q) | q. q \<in> Q}\<^sup>*" for u
    using that by (rule converse_rtranclE) (use assms in auto)
  then show ?thesis using assms by (auto simp: reachable_quads_def)
qed

locale rules_storage =
  fixes contents :: "'s \<Rightarrow> quad set" and sto :: "'s rules_storage"
  assumes getStore_contents:
      "getStore sto s = (Inr d, t) \<Longrightarrow> set d = contents s \<and> contents t = contents s"
    and addRule_contents: "addRule sto d s = (Inr u, t) \<Longrightarrow> contents t = contents s \<union> set d"
    and getRule_contents: "getRule sto i s = (Inr d, t) \<Longrightarrow>
      set d = reachable_quads (contents s) (NamedNode i) \<and> contents t = contents s"
    and deleteRule_contents: "deleteRule sto i s = (Inr u, t) \<Longrightarrow>
      contents t = contents s - reachable_quads (contents s) (NamedNode i)"
    and removeData_contents: "removeData sto d s = (Inr u, t) \<Longrightarrow> contents t = contents s - set d"
begin

lemma added_rule_found:
  assumes "addRule sto d s = (Inr u, t)" and "q \<in> set d" and "subject q = NamedNode i"
    and "getRule sto i t = (Inr d', t')"
  shows "q \<in> set d'"
  using addRule_contents [OF assms(1)] getRule_contents [OF assms(4)] assms(2,3)
  by (simp add: reachable_subject)

lemma deleted_rule_gone:
  assumes "deleteRule sto i s = (Inr u, t)" and "getRule sto i t = (Inr d, t')"
  shows "d = []"
proof -
  have "reachable_quads (contents t) (NamedNode i) = {}"
    by (rule reachable_empty) (use deleteRule_contents [OF assms(1)] reachable_subject in blast)
  with getRule_contents [OF assms(2)] show ?thesis by simp
qed

lemma removed_data_gone:
  assumes "removeData sto d s = (Inr u, t)" and "getStore sto t = (Inr d', t')"
  shows "set d' = contents s - set d"
  using removeData_contents [OF assms(1)] getStore_contents [OF assms(2)] by simp

end

subsection \<open>\<open>MemoryUCRulesStorage\<close>\<close>

text \<open>
  The storage is a field of the state: \<open>get\<close> reads it and \<open>upd\<close> updates it. \<open>removeQuads\<close>
  after \<open>getRule\<close> runs to its end before the next request is handled.
\<close>

definition memory_addRule :: "((store \<Rightarrow> store) \<Rightarrow> 's \<Rightarrow> 's) \<Rightarrow> store \<Rightarrow> ('s, unit) act" where
  "memory_addRule upd d = modify (upd (\<lambda>st. add_quads st (get_quads d None None None)))"

definition memory_getRule :: "('s \<Rightarrow> store) \<Rightarrow> string \<Rightarrow> ('s, store) act" where
  "memory_getRule get i = gets (\<lambda>s. extractQuadsRecursive (get s) (NamedNode i) [])"

definition memory_removeData :: "((store \<Rightarrow> store) \<Rightarrow> 's \<Rightarrow> 's) \<Rightarrow> store \<Rightarrow> ('s, unit) act" where
  "memory_removeData upd d = modify (upd (\<lambda>st. remove_quads st (get_quads d None None None)))"

definition memory_deleteRule ::
  "('s \<Rightarrow> store) \<Rightarrow> ((store \<Rightarrow> store) \<Rightarrow> 's \<Rightarrow> 's) \<Rightarrow> string \<Rightarrow> ('s, unit) act" where
  "memory_deleteRule get upd i =
     bind (memory_getRule get i) (\<lambda>d. modify (upd (\<lambda>st. remove_quads st (get_quads d None None None))))"

definition memory_deleteRuleFromPolicy ::
  "('s \<Rightarrow> store) \<Rightarrow> ((store \<Rightarrow> store) \<Rightarrow> 's \<Rightarrow> 's) \<Rightarrow> string \<Rightarrow> string \<Rightarrow> ('s, unit) act" where
  "memory_deleteRuleFromPolicy get upd ruleID policyID =
     bind (modify (upd (\<lambda>st. remove_quads st
        (get_quads st (Some (NamedNode policyID)) None (Some (NamedNode ruleID)))))) (\<lambda>_.
     memory_deleteRule get upd ruleID)"

definition MemoryUCRulesStorage ::
  "('s \<Rightarrow> store) \<Rightarrow> ((store \<Rightarrow> store) \<Rightarrow> 's \<Rightarrow> 's) \<Rightarrow> 's rules_storage" where
  "MemoryUCRulesStorage get upd = \<lparr>getStore = gets get, addRule = memory_addRule upd,
     getRule = memory_getRule get, deleteRule = memory_deleteRule get upd,
     deleteRuleFromPolicy = (\<lambda>r p. Some (memory_deleteRuleFromPolicy get upd r p)),
     removeData = memory_removeData upd\<rparr>"

lemmas memory_defs = MemoryUCRulesStorage_def memory_addRule_def memory_getRule_def
  memory_removeData_def memory_deleteRule_def memory_deleteRuleFromPolicy_def

lemma get_all_quads [simp]: "get_quads d None None None = d"
  by (simp add: get_quads_def matches_def)

locale store_field =
  fixes get :: "'s \<Rightarrow> store" and upd :: "(store \<Rightarrow> store) \<Rightarrow> 's \<Rightarrow> 's"
  assumes get_upd [simp]: "get (upd f s) = f (get s)"

sublocale store_field < memory: rules_storage "\<lambda>s. set (get s)" "MemoryUCRulesStorage get upd"
  by unfold_locales (auto simp: memory_defs set_extract_reachable)

text \<open>The policies of the authorization server are kept in such a storage.\<close>

interpretation policy_store: store_field policies policies_update
  by unfold_locales simp

definition policyStorage :: "dialog_state rules_storage" where
  "policyStorage = MemoryUCRulesStorage policies policies_update"

lemmas policyStorage_defs = policyStorage_def memory_defs

subsection \<open>\<open>DirectoryUCRulesStorage\<close>\<close>

text \<open>
  Files are read once; \<open>dir_files\<close> are their texts in the order \<open>readdir\<close> lists them and
  \<open>parse\<close> is the N3 parser.
\<close>

record directory_state =
  dir_store :: store
  filesRead :: bool
  dir_files :: "string list"

definition load_file :: "(string \<Rightarrow> error + quad list) \<Rightarrow> string \<Rightarrow> (directory_state, unit) act" where
  "load_file parse f =
     bind (lift (parse f)) (\<lambda>qs. modify (dir_store_update (\<lambda>st. add_quads st qs)))"

definition directory_getStore :: "(string \<Rightarrow> error + quad list) \<Rightarrow> (directory_state, store) act" where
  "directory_getStore parse =
     bind (gets filesRead) (\<lambda>read.
     if read then gets dir_store
     else bind (gets dir_files) (\<lambda>fs.
       bind (fold_act (\<lambda>_. load_file parse) () fs) (\<lambda>_.
       bind (modify (filesRead_update (\<lambda>_. True))) (\<lambda>_.
       gets (\<lambda>s. new_store (dir_store s))))))"

definition DirectoryUCRulesStorage ::
  "(string \<Rightarrow> error + quad list) \<Rightarrow> directory_state rules_storage" where
  "DirectoryUCRulesStorage parse = \<lparr>
     getStore = directory_getStore parse,
     addRule = (\<lambda>d. modify (dir_store_update (\<lambda>st. add_quads st (get_quads d None None None)))),
     getRule = (\<lambda>i. bind (directory_getStore parse) (\<lambda>st.
        return (extractQuadsRecursive st (NamedNode i) []))),
     deleteRule = (\<lambda>_. throw PlainError),
     deleteRuleFromPolicy = (\<lambda>_ _. None),
     removeData = (\<lambda>d. bind (directory_getStore parse) (\<lambda>_.
        modify (dir_store_update (\<lambda>st. remove_quads st (get_quads d None None None)))))\<rparr>"

text \<open>What the storage stands for: the files count as long as they have not been read.\<close>

definition parsed :: "(string \<Rightarrow> error + quad list) \<Rightarrow> string \<Rightarrow> quad set" where
  "parsed parse f = (case parse f of Inl e \<Rightarrow> {} | Inr qs \<Rightarrow> set qs)"

definition dir_contents :: "(string \<Rightarrow> error + quad list) \<Rightarrow> directory_state \<Rightarrow> quad set" where
  "dir_contents parse s =
     set (dir_store s) \<union> (if filesRead s then {} else \<Union>f \<in> set (dir_files s). parsed parse f)"

lemma load_file_Inr: "load_file parse f s = (Inr u, t) \<longleftrightarrow>
    (\<exists>qs. parse f = Inr qs \<and> t = dir_store_update (\<lambda>st. add_quads st qs) s)"
  by (auto simp: load_file_def bind_eq_Inr)

lemma read_files:
  assumes "fold_act (\<lambda>_. load_file parse) () fs s = (Inr u, t)"
  shows "set (dir_store t) = set (dir_store s) \<union> (\<Union>f \<in> set fs. parsed parse f)
    \<and> dir_files t = dir_files s \<and> filesRead t = filesRead s"
  using assms
proof (induction fs arbitrary: s)
  case (Cons f fs)
  then obtain qs where qs: "parse f = Inr qs"
    and "fold_act (\<lambda>_. load_file parse) () fs (dir_store_update (\<lambda>st. add_quads st qs) s) = (Inr u, t)"
    by (auto simp: bind_eq_Inr load_file_Inr)
  from Cons.IH [OF this(2)] qs show ?case by (auto simp: parsed_def)
qed simp

lemma directory_getStore_contents:
  assumes "directory_getStore parse s = (Inr d, t)"
  shows "set d = dir_contents parse s" and "dir_contents parse t = dir_contents parse s"
    and "filesRead t"
proof -
  have "set d = dir_contents parse s \<and> dir_contents parse t = dir_contents parse s \<and> filesRead t"
  proof (cases "filesRead s")
    case True
    with assms show ?thesis by (auto simp: directory_getStore_def dir_contents_def)
  next
    case False
    with assms obtain u s' where
      "fold_act (\<lambda>_. load_file parse) () (dir_files s) s = (Inr u, s')"
      "t = filesRead_update (\<lambda>_. True) s'" "d = new_store (dir_store s')"
      by (auto simp: directory_getStore_def bind_eq_Inr)
    from read_files [OF this(1)] this(2,3) False show ?thesis
      by (auto simp: dir_contents_def)
  qed
  then show "set d = dir_contents parse s" "dir_contents parse t = dir_contents parse s" "filesRead t"
    by blast+
qed

interpretation directory: rules_storage "dir_contents parse" "DirectoryUCRulesStorage parse" for parse
proof (unfold_locales, goal_cases)
  case (1 s d t) then show ?case
    using directory_getStore_contents by (auto simp: DirectoryUCRulesStorage_def)
next
  case (2 d s u t) then show ?case
    by (auto simp: DirectoryUCRulesStorage_def dir_contents_def)
next
  case (3 i s d t)
  then obtain st where get: "directory_getStore parse s = (Inr st, t)"
    and "d = extractQuadsRecursive st (NamedNode i) []"
    by (auto simp: DirectoryUCRulesStorage_def bind_eq_Inr)
  with directory_getStore_contents [OF get] show ?case by (simp add: set_extract_reachable)
next
  case (4 i s u t) then show ?case by (simp add: DirectoryUCRulesStorage_def)
next
  case (5 d s u t)
  then obtain d' s' where get: "directory_getStore parse s = (Inr d', s')"
    and t: "t = dir_store_update (\<lambda>st. remove_quads st d) s'"
    by (auto simp: DirectoryUCRulesStorage_def bind_eq_Inr)
  from directory_getStore_contents [OF get] t show ?case
    by (auto simp: dir_contents_def)
qed

subsection \<open>\<open>FileBackupUCRulesStorage\<close>\<close>

text \<open>
  A memory storage with a periodic backup. \<open>disk\<close> maps file paths to the triples written
  there; the N3 writer and parser are inverse to each other, and a missing file is the
  \<open>ENOENT\<close> the code tolerates.
\<close>

record backup_state =
  bk_store :: store
  doingBackup :: bool
  dataChanged :: bool
  disk :: "string \<rightharpoonup> store"

definition backup_initialize :: "string option \<Rightarrow> (backup_state, unit) act" where
  "backup_initialize filePath = (case filePath of
      None \<Rightarrow> return ()
    | Some p \<Rightarrow> modify (\<lambda>s. case disk s p of
          None \<Rightarrow> s
        | Some d \<Rightarrow> s\<lparr>bk_store := add_quads (bk_store s) d\<rparr>))"

definition backup :: "string option \<Rightarrow> (backup_state, unit) act" where
  "backup filePath =
     bind (gets (\<lambda>s. (doingBackup s, dataChanged s))) (\<lambda>(busy, changed).
     if \<not> truthy_opt filePath \<or> busy \<or> \<not> changed then return ()
     else (let p = the filePath; oldPath = p @ ''.old'' in
       bind (modify (\<lambda>s. s\<lparr>doingBackup := True\<rparr>)) (\<lambda>_.
       bind (gets (\<lambda>s. disk s p)) (\<lambda>prev.
       bind (modify (\<lambda>s. case prev of
            None \<Rightarrow> s
          | Some d \<Rightarrow> s\<lparr>disk := (disk s)(p := None, oldPath \<mapsto> d)\<rparr>)) (\<lambda>_.
       bind (modify (\<lambda>s. s\<lparr>disk := (disk s)(p \<mapsto> get_quads (bk_store s) None None None),
                           dataChanged := False\<rparr>)) (\<lambda>_.
       bind (modify (\<lambda>s. if prev = None then s else s\<lparr>disk := (disk s)(oldPath := None)\<rparr>)) (\<lambda>_.
       modify (\<lambda>s. s\<lparr>doingBackup := False\<rparr>))))))))"

text \<open>Every operation that changes the data marks it as changed and is the memory storage's.\<close>

definition marks_changed :: "(backup_state, 'a) act \<Rightarrow> (backup_state, 'a) act" where
  "marks_changed m = bind (modify (\<lambda>s. s\<lparr>dataChanged := True\<rparr>)) (\<lambda>_. m)"

definition FileBackupUCRulesStorage :: "backup_state rules_storage" where
  "FileBackupUCRulesStorage = (let mem = MemoryUCRulesStorage bk_store bk_store_update in
     mem\<lparr>addRule := (\<lambda>d. marks_changed (addRule mem d)),
         deleteRule := (\<lambda>i. marks_changed (deleteRule mem i)),
         deleteRuleFromPolicy := (\<lambda>r p. map_option marks_changed (deleteRuleFromPolicy mem r p)),
         removeData := (\<lambda>d. marks_changed (removeData mem d))\<rparr>)"

interpretation backup: rules_storage "\<lambda>s. set (bk_store s)" FileBackupUCRulesStorage
  by unfold_locales
    (auto simp: FileBackupUCRulesStorage_def marks_changed_def memory_defs set_extract_reachable)

subsection \<open>\<open>ContainerUCRulesStorage\<close>\<close>

text \<open>
  \<open>fetch\<close> on an LDP server is an argument: a read answers a status, a content type and a text,
  a patch (the two \<open>solid:InsertDeletePatch\<close> bodies the code builds) answers a status. \<open>parse\<close>
  is the Turtle parser with the base IRI.
\<close>

datatype ldp_patch = Inserts store | Deletes "quad list"

record 's ldp =
  ldp_read :: "string \<Rightarrow> ('s, nat \<times> string option \<times> string) act"
  ldp_patch_doc :: "string \<Rightarrow> ldp_patch \<Rightarrow> ('s, nat) act"

definition readLdpRDFResource ::
  "(string \<Rightarrow> string \<Rightarrow> error + quad list) \<Rightarrow> 's ldp \<Rightarrow> string \<Rightarrow> ('s, store) act" where
  "readLdpRDFResource parse server url =
     bind (ldp_read server url) (\<lambda>(st, ctype, txt).
     if st = 404 then return []
     else if st \<noteq> 200 then throw PlainError
     else if ctype \<noteq> Some ''text/turtle'' then throw PlainError
     else bind (lift (parse url txt)) (\<lambda>qs. return (new_store qs)))"

definition ldp_contains :: rterm where
  "ldp_contains = NamedNode ''http://www.w3.org/ns/ldp#contains''"

definition read_child ::
  "(string \<Rightarrow> string \<Rightarrow> error + quad list) \<Rightarrow> 's ldp \<Rightarrow> store obj \<Rightarrow> string \<Rightarrow> ('s, store obj) act" where
  "read_child parse server docs child =
     catch (bind (readLdpRDFResource parse server child) (\<lambda>st. return (obj_set child st docs)))
       (\<lambda>_. return docs)"

definition getDocuments ::
  "(string \<Rightarrow> string \<Rightarrow> error + quad list) \<Rightarrow> 's ldp \<Rightarrow> string \<Rightarrow> ('s, store obj) act" where
  "getDocuments parse server containerURL =
     bind (readLdpRDFResource parse server containerURL) (\<lambda>container.
     fold_act (read_child parse server) []
       (map term_value (get_objects container (Some (NamedNode containerURL)) (Some ldp_contains))))"

definition container_getStore ::
  "(string \<Rightarrow> string \<Rightarrow> error + quad list) \<Rightarrow> 's ldp \<Rightarrow> string \<Rightarrow> ('s, store) act" where
  "container_getStore parse server containerURL =
     bind (getDocuments parse server containerURL) (\<lambda>docs.
     return (fold (\<lambda>(u, st) acc. add_quads acc (get_quads st None None None)) docs []))"

definition container_addRule :: "'s ldp \<Rightarrow> string \<Rightarrow> store \<Rightarrow> ('s, unit) act" where
  "container_addRule server extraDataUrl d =
     (if d = [] then return ()
      else bind (ldp_patch_doc server extraDataUrl (Inserts (get_quads d None None None))) (\<lambda>st.
        if 400 \<le> st then throw PlainError else return ()))"

definition remove_matches :: "'s ldp \<Rightarrow> store \<Rightarrow> unit \<Rightarrow> string \<times> store \<Rightarrow> ('s, unit) act" where
  "remove_matches server d = (\<lambda>_ (url, st).
     let ms = filter (has_quad st) d in
     if ms = [] then return ()
     else bind (ldp_patch_doc server url (Deletes ms)) (\<lambda>r.
       if 400 \<le> r then throw PlainError else return ()))"

definition container_removeData ::
  "(string \<Rightarrow> string \<Rightarrow> error + quad list) \<Rightarrow> 's ldp \<Rightarrow> string \<Rightarrow> store \<Rightarrow> ('s, unit) act" where
  "container_removeData parse server containerURL d =
     (if d = [] then return ()
      else bind (getDocuments parse server containerURL) (fold_act (remove_matches server d) ()))"

definition ContainerUCRulesStorage ::
  "(string \<Rightarrow> string \<Rightarrow> error + quad list) \<Rightarrow> 's ldp \<Rightarrow> string \<Rightarrow> string \<Rightarrow> 's rules_storage" where
  "ContainerUCRulesStorage parse server containerURL extraDataUrl = \<lparr>
     getStore = container_getStore parse server containerURL,
     addRule = container_addRule server extraDataUrl,
     getRule = (\<lambda>i. bind (container_getStore parse server containerURL) (\<lambda>st.
        return (extractQuadsRecursive st (NamedNode i) []))),
     deleteRule = (\<lambda>_. throw PlainError),
     deleteRuleFromPolicy = (\<lambda>_ _. None),
     removeData = container_removeData parse server containerURL\<rparr>"

lemma set_merge_documents:
  "set (fold (\<lambda>(u, st) acc. add_quads acc (get_quads st None None None)) docs acc) =
     set acc \<union> (\<Union>(u, st) \<in> set docs. set st)"
  by (induction docs arbitrary: acc) (auto simp: case_prod_unfold)

subsection \<open>Properties\<close>

text \<open>
  \<open>extractQuadsRecursive\<close> returns exactly the quads whose subject can be reached from the
  given term along the quads of the store, circles included, and it always returns.
\<close>

theorem extract_quads_exact:
  "set (extractQuadsRecursive st i []) = {q \<in> set st. (i, subject q) \<in> (edges st)\<^sup>*}"
  by (rule extract_reachable)

text \<open>
  deleting a rule removes the rule with everything it reaches, so that it is not found any
  more, and keeps every other quad and every other part of the state. What another rule shares
  with the deleted one (a common constraint) goes with it.
\<close>

theorem delete_rule_exact:
  assumes "deleteRule policyStorage i s = (Inr u, t)"
  shows "set (policies t) = {q \<in> set (policies s). (NamedNode i, subject q) \<notin> (edges (policies s))\<^sup>*}
    \<and> getRule policyStorage i t = (Inr [], t) \<and> t = s\<lparr>policies := policies t\<rparr>"
proof (intro conjI)
  note del = assms [unfolded policyStorage_def]
  show "set (policies t) = {q \<in> set (policies s). (NamedNode i, subject q) \<notin> (edges (policies s))\<^sup>*}"
    using policy_store.memory.deleteRule_contents [OF del]
    by (auto simp: reachable_quads_def edges_def)
  obtain d where d: "getRule policyStorage i t = (Inr d, t)"
    by (simp add: policyStorage_defs)
  with policy_store.memory.deleted_rule_gone [OF del, of d t]
  show "getRule policyStorage i t = (Inr [], t)" by (simp add: policyStorage_def)
  show "t = s\<lparr>policies := policies t\<rparr>"
    using assms by (auto simp: policyStorage_defs)
qed

text \<open>
  a backup followed by a restart restores the policies. When the data has changed and no
  backup is under way, the backup writes the store to its file and leaves no intermediate file,
  and a new server that initializes from the disk has exactly the policies of the old one.
\<close>

theorem backup_restores:
  assumes "\<not> doingBackup s" and "dataChanged s" and "p \<noteq> ''''"
    and "backup (Some p) s = (r, t)"
    and "backup_initialize (Some p) \<lparr>bk_store = [], doingBackup = False, dataChanged = False,
           disk = disk t\<rparr> = (r', t')"
  shows "r = Inr () \<and> set (bk_store t') = set (bk_store s) \<and> (disk s p \<noteq> None \<longrightarrow> disk t (p @ ''.old'') = None)"
  using assms by (cases "disk s p"; fastforce simp: backup_def backup_initialize_def Let_def)

subsection \<open>Examples\<close>

definition two_rules :: store where
  "two_rules =
    [triple (NamedNode ''r1'') (odrl ''constraint'') (NamedNode ''c''),
     triple (NamedNode ''r2'') (odrl ''constraint'') (NamedNode ''c''),
     triple (NamedNode ''c'') (odrl ''operator'') (odrl ''eq''),
     triple (NamedNode ''c'') (odrl ''leftOperand'') (NamedNode ''r1'')]"

lemma delete_rule_exact_witness:
  "getRule policyStorage ''r1'' (snd (deleteRule policyStorage ''r1'' (empty_state\<lparr>policies := two_rules\<rparr>)))
     = (Inr [], snd (deleteRule policyStorage ''r1'' (empty_state\<lparr>policies := two_rules\<rparr>)))"
proof -
  have "fst (deleteRule policyStorage ''r1'' (empty_state\<lparr>policies := two_rules\<rparr>)) = Inr ()"
    by (simp add: policyStorage_defs)
  from delete_rule_exact [OF run_fst [OF this]] show ?thesis by simp
qed

definition changed_backup :: backup_state where
  "changed_backup = \<lparr>bk_store = two_rules, doingBackup = False, dataChanged = True,
     disk = [''policies.ttl'' \<mapsto> []]\<rparr>"

lemma backup_restores_witness:
  "disk (snd (backup (Some ''policies.ttl'') changed_backup)) ''policies.ttl.old'' = None"
proof -
  have "disk (snd (backup (Some ''policies.ttl'') changed_backup)) (''policies.ttl'' @ ''.old'') = None"
    using backup_restores [OF _ _ _ prod.collapse [symmetric] prod.collapse [symmetric],
        of changed_backup "''policies.ttl''"]
    by (simp add: changed_backup_def)
  then show ?thesis by simp
qed

end
