(* ===== verification/Registration.thy ===== *)
theory Registration
  imports PolicyStorage TokenEndpoint
begin

text \<open>
  \<open>routes/ResourceRegistration.ts\<close>: registering, updating and removing resources, with the
  asset collections a description defines (\<open>resource_defaults\<close>) and the collections a resource
  becomes part of (\<open>resource_relations\<close>).
\<close>

subsection \<open>Collection metadata\<close>

record collection_metadata =
  cm_relation :: string
  cm_source :: string
  cm_reverse :: bool

definition getRelationKey :: "collection_metadata \<Rightarrow> string" where
  "getRelationKey entry = cm_source entry @ ''-'' @ cm_relation entry @ ''-'' @
     (if cm_reverse entry then ''true'' else ''false'')"

text \<open>\<open>!value || value.length === 0\<close>, and what \<open>for (const source of value)\<close> runs through. The
  strings of an array are kept; a non-empty string is run through by character, and anything else
  is not iterable.\<close>

definition no_values :: "js \<Rightarrow> bool" where
  "no_values v = (\<not> truthy v \<or> js_prop v ''length'' = JNum 0)"

definition value_sources :: "js \<Rightarrow> error + string list" where
  "value_sources v = (case v of
      JArr xs \<Rightarrow> Inr (js_strings xs)
    | JStr s \<Rightarrow> Inr (map (\<lambda>c. [c]) s)
    | _ \<Rightarrow> Inl PlainError)"

definition put_metadata :: "string \<Rightarrow> bool \<Rightarrow> string \<Rightarrow> collection_metadata obj \<Rightarrow> collection_metadata obj" where
  "put_metadata relation reverse source res =
     (let entry = \<lparr>cm_relation = relation, cm_source = source, cm_reverse = reverse\<rparr>
      in obj_set (getRelationKey entry) entry res)"

fun entriesToCollectionMetadata ::
  "js obj \<Rightarrow> bool \<Rightarrow> string option \<Rightarrow> collection_metadata obj \<Rightarrow> error + collection_metadata obj" where
  "entriesToCollectionMetadata [] reverse i res = Inr res"
| "entriesToCollectionMetadata ((relation, v) # es) reverse i res =
     (if no_values v then entriesToCollectionMetadata es reverse i res
      else (case (if truthy_opt i then Inr [the i] else value_sources v) of
          Inl e \<Rightarrow> Inl e
        | Inr sources \<Rightarrow>
            entriesToCollectionMetadata es reverse i (fold (put_metadata relation reverse) sources res)))"

definition js_entries :: "js \<Rightarrow> js obj" where
  "js_entries v = (case v of
      JObj ps \<Rightarrow> ps
    | JArr xs \<Rightarrow> map (\<lambda>(i, x). (nat_str i, x)) (enumerate 0 xs)
    | _ \<Rightarrow> [])"

datatype relation_field = Resource_defaults | Resource_relations

definition description_field :: "relation_field \<Rightarrow> resource_description option \<Rightarrow> js obj option" where
  "description_field fld description = (case description of
      None \<Rightarrow> None
    | Some d \<Rightarrow> (case fld of Resource_defaults \<Rightarrow> rd_resource_defaults d
                          | Resource_relations \<Rightarrow> rd_resource_relations d))"

definition getCollectionMetadata ::
  "relation_field \<Rightarrow> resource_description option \<Rightarrow> string \<Rightarrow> error + collection_metadata obj" where
  "getCollectionMetadata fld description i =
     (case description_field fld description of
        None \<Rightarrow> Inr []
      | Some ps \<Rightarrow>
          (let normal = obj_delete ''@reverse'' ps;
               reverse = (case obj_get ps ''@reverse'' of None \<Rightarrow> [] | Some v \<Rightarrow> js_entries v);
               sourceId = (if fld = Resource_defaults then Some i else None)
           in case entriesToCollectionMetadata normal (fld = Resource_relations) sourceId [] of
                Inl e \<Rightarrow> Inl e
              | Inr a \<Rightarrow>
                  (case entriesToCollectionMetadata reverse (fld = Resource_defaults) sourceId [] of
                     Inl e \<Rightarrow> Inl e
                   | Inr b \<Rightarrow> Inr (fold (\<lambda>(k, m) o'. obj_set k m o') b a))))"

definition drop_shared ::
  "string \<Rightarrow> collection_metadata obj \<times> collection_metadata obj \<Rightarrow> collection_metadata obj \<times> collection_metadata obj" where
  "drop_shared key = (\<lambda>(record1, record2).
     if obj_get record2 key \<noteq> None then (obj_delete key record1, obj_delete key record2)
     else (record1, record2))"

definition filterRelationEntries ::
  "collection_metadata obj \<Rightarrow> collection_metadata obj \<Rightarrow> collection_metadata obj \<times> collection_metadata obj" where
  "filterRelationEntries record1 record2 = fold drop_shared (obj_keys record1) (record1, record2)"

subsection \<open>Collections in the policy store\<close>

definition findCollectionIds :: "collection_metadata \<Rightarrow> store \<Rightarrow> rterm list" where
  "findCollectionIds entry d =
     (let sourceMatches = get_subjects d (Some (odrl ''source'')) (Some (NamedNode (cm_source entry))) in
      if cm_reverse entry
      then map subject (filter (\<lambda>q. has_quad d (triple (object q) owl_inverseOf (NamedNode (cm_relation entry))))
             (concat (map (\<lambda>c. get_quads d (Some c) (Some odrl_p_relation) None) sourceMatches)))
      else filter (\<lambda>c. has_quad d (triple c odrl_p_relation (NamedNode (cm_relation entry)))) sourceMatches)"

text \<open>\<open>DF.blankNode()\<close>: a blank node with a label that was not handed out before.\<close>

definition blankNode :: "rterm dialog" where
  "blankNode = bind randomUUID (\<lambda>i. return (BlankNode i))"

definition generateCollectionTriples ::
  "collection_metadata \<Rightarrow> string \<Rightarrow> rterm \<Rightarrow> quad list dialog" where
  "generateCollectionTriples entry owner collectionId =
     (let common = [triple collectionId rdf_type (odrl ''AssetCollection''),
                    triple collectionId (odrl ''source'') (NamedNode (cm_source entry)),
                    triple collectionId (dc ''creator'') (NamedNode owner)]
      in if cm_reverse entry
         then bind blankNode (\<lambda>b. return (common @
                [triple collectionId odrl_p_relation b,
                 triple b owl_inverseOf (NamedNode (cm_relation entry))]))
         else return (common @ [triple collectionId odrl_p_relation (NamedNode (cm_relation entry))]))"

definition collection_name :: "collection_metadata \<Rightarrow> string" where
  "collection_name entry = ''collection:'' @
     (if cm_reverse entry then cm_relation entry @ '':'' @ cm_source entry
      else cm_source entry @ '':'' @ cm_relation entry)"

definition add_collection ::
  "string \<Rightarrow> store \<Rightarrow> quad list \<Rightarrow> string \<times> collection_metadata \<Rightarrow> quad list dialog" where
  "add_collection owner policyStore addQuads = (\<lambda>(key, entry).
     if findCollectionIds entry policyStore \<noteq> [] then return addQuads
     else bind (generateCollectionTriples entry owner (NamedNode (collection_name entry))) (\<lambda>qs.
       return (addQuads @ qs)))"

definition remove_one_collection ::
  "string \<Rightarrow> store \<Rightarrow> collection_metadata \<Rightarrow> quad list \<Rightarrow> rterm \<Rightarrow> quad list dialog" where
  "remove_one_collection owner policyStore entry removeQuads c =
     (if count_quads policyStore None (Some (odrl ''partOf'')) (Some c) > 0 then throw Conflict
      else bind (generateCollectionTriples entry owner c) (\<lambda>qs. return (removeQuads @ qs)))"

definition remove_collection ::
  "string \<Rightarrow> store \<Rightarrow> quad list \<Rightarrow> string \<times> collection_metadata \<Rightarrow> quad list dialog" where
  "remove_collection owner policyStore removeQuads = (\<lambda>(key, entry).
     fold_act (remove_one_collection owner policyStore entry) removeQuads
       (findCollectionIds entry policyStore))"

definition updateCollections ::
  "store \<Rightarrow> string \<Rightarrow> string \<Rightarrow> resource_description \<Rightarrow> resource_description option \<Rightarrow>
   (quad list \<times> quad list) dialog" where
  "updateCollections policyStore i owner description previous =
     bind (lift (getCollectionMetadata Resource_defaults (Some description) i)) (\<lambda>add0.
     bind (lift (getCollectionMetadata Resource_defaults previous i)) (\<lambda>remove0.
     case filterRelationEntries add0 remove0 of (add, remove) \<Rightarrow>
       bind (fold_act (add_collection owner policyStore) [] add) (\<lambda>addQuads.
       bind (fold_act (remove_collection owner policyStore) [] remove) (\<lambda>removeQuads.
       return (addQuads, removeQuads)))))"

fun generatePartOfTriples :: "rterm \<Rightarrow> collection_metadata list \<Rightarrow> store \<Rightarrow> error + quad list" where
  "generatePartOfTriples part [] policyStore = Inr []"
| "generatePartOfTriples part (entry # entries) policyStore =
     (let collectionIds = findCollectionIds entry policyStore in
      if collectionIds = [] then Inl BadRequest
      else (case generatePartOfTriples part entries policyStore of
          Inl e \<Rightarrow> Inl e
        | Inr qs \<Rightarrow> Inr (map (triple part (odrl ''partOf'')) collectionIds @ qs)))"

definition updateRelations ::
  "store \<Rightarrow> string \<Rightarrow> resource_description \<Rightarrow> resource_description option \<Rightarrow>
   (quad list \<times> quad list) dialog" where
  "updateRelations policyStore i description previous =
     bind (lift (getCollectionMetadata Resource_relations (Some description) i)) (\<lambda>add0.
     bind (lift (getCollectionMetadata Resource_relations previous i)) (\<lambda>remove0.
     case filterRelationEntries add0 remove0 of (add, remove) \<Rightarrow>
       bind (lift (generatePartOfTriples (NamedNode i) (map snd add) policyStore)) (\<lambda>addQuads.
       bind (lift (generatePartOfTriples (NamedNode i) (map snd remove) policyStore)) (\<lambda>removeQuads.
       return (addQuads, removeQuads)))))"

subsection \<open>Setting the metadata of a resource\<close>

text \<open>The derivation identifiers of the previous description that the new one does not mention.\<close>

definition derived_entries :: "resource_description option \<Rightarrow> derived_entry list" where
  "derived_entries description = (case description of
      None \<Rightarrow> []
    | Some d \<Rightarrow> (case rd_derived_from d of None \<Rightarrow> [] | Some es \<Rightarrow> es))"

definition removed_derived_ids ::
  "resource_description \<Rightarrow> resource_description option \<Rightarrow> string list" where
  "removed_derived_ids description previous =
     filter (\<lambda>i. i \<notin> set (map de_derivation_resource_id (derived_entries (Some description))))
       (remdups (map de_derivation_resource_id (derived_entries previous)))"

definition update_derivations ::
  "resource_description \<Rightarrow> resource_description option \<Rightarrow> (string \<rightharpoonup> string) \<Rightarrow> (string \<rightharpoonup> string)" where
  "update_derivations description previous m =
     fold (\<lambda>i m. kv_delete m i) (removed_derived_ids description previous)
       (fold (\<lambda>e m. kv_set m (de_derivation_resource_id e) (de_issuer e))
          (derived_entries (Some description)) m)"

definition setResourceMetadata ::
  "dialog_state rules_storage \<Rightarrow> string \<Rightarrow> resource_description \<Rightarrow> string \<Rightarrow>
   resource_description option \<Rightarrow> unit dialog" where
  "setResourceMetadata sto i description owner previous =
     bind (getStore sto) (\<lambda>policyStore.
     bind (updateCollections policyStore i owner description previous) (\<lambda>collectionQuads.
     bind (updateRelations policyStore i description previous) (\<lambda>relationQuads.
     let addQuads = fst collectionQuads @ fst relationQuads;
         removeQuads = snd collectionQuads @ snd relationQuads in
     bind (if addQuads \<noteq> [] then addRule sto (new_store addQuads) else return ()) (\<lambda>_.
     bind (if removeQuads \<noteq> [] then removeData sto (new_store removeQuads) else return ()) (\<lambda>_.
     bind (modify (\<lambda>s. s\<lparr>derivationStore := update_derivations description previous (derivationStore s)\<rparr>)) (\<lambda>_.
     modify (\<lambda>s. s\<lparr>registrationStore := kv_set (registrationStore s) i
        \<lparr>reg_owner = owner, reg_description = description\<rparr>\<rparr>)))))))"

subsection \<open>The endpoint\<close>

datatype registration_body =
    Description js
  | Identifiers "string list"
  | Registered string string
  | Updated string
  | NoContent

definition handleGet :: "request \<Rightarrow> string \<Rightarrow> registration_body response dialog" where
  "handleGet req owner =
     (if truthy_opt (obj_get (req_parameters req) ''id'')
      then bind (gets (\<lambda>s. kv_get (registrationStore s) (the (obj_get (req_parameters req) ''id'')))) (\<lambda>found.
        case found of
          None \<Rightarrow> throw NotFound
        | Some reg \<Rightarrow>
            if reg_owner reg \<noteq> owner then throw Forbidden
            else return \<lparr>status = 200, content = Description (rd_body (reg_description reg))\<rparr>)
      else bind (gets (\<lambda>s. kv_get (ownershipStore s) owner)) (\<lambda>ids.
        return \<lparr>status = 200, content = Identifiers (case ids of None \<Rightarrow> [] | Some is \<Rightarrow> is)\<rparr>))"

definition choose_resource_id :: "resource_description \<Rightarrow> string dialog" where
  "choose_resource_id description =
     (if truthy_opt (rd_name description)
      then bind (gets (\<lambda>s. kv_has (registrationStore s) (the (rd_name description)))) (\<lambda>taken.
        if taken then throw Conflict else return (the (rd_name description)))
      else randomUUID)"

definition add_owned :: "string \<Rightarrow> string \<Rightarrow> unit dialog" where
  "add_owned owner i =
     modify (\<lambda>s. s\<lparr>ownershipStore := kv_set (ownershipStore s) owner
       ((case kv_get (ownershipStore s) owner of None \<Rightarrow> [] | Some ids \<Rightarrow> ids) @ [i])\<rparr>)"

definition handlePost ::
  "(string \<Rightarrow> string \<Rightarrow> string) \<Rightarrow> dialog_state rules_storage \<Rightarrow> request \<Rightarrow> string \<Rightarrow>
   registration_body response dialog" where
  "handlePost join sto req owner =
     (if \<not> reType (req_body req) ResourceDescription then throw BadRequest
      else (let description = decode_description (req_body req) in
        bind (choose_resource_id description) (\<lambda>resource.
        bind (setResourceMetadata sto resource description owner None) (\<lambda>_.
        bind (add_owned owner resource) (\<lambda>_.
        return \<lparr>status = 201,
          content = Registered resource (join (req_url req) (encodeURIComponent resource))\<rparr>)))))"

text \<open>PUT and DELETE look the registration up the same way.\<close>

definition owned_entry :: "request \<Rightarrow> string \<Rightarrow> (string \<times> registration) dialog" where
  "owned_entry req owner =
     (case obj_get (req_parameters req) ''id'' of
        None \<Rightarrow> throw InternalServer
      | Some i \<Rightarrow>
          bind (gets (\<lambda>s. kv_get (registrationStore s) i)) (\<lambda>found.
          case found of
            None \<Rightarrow> throw NotFound
          | Some reg \<Rightarrow> if reg_owner reg \<noteq> owner then throw Forbidden else return (i, reg)))"

definition handlePut ::
  "dialog_state rules_storage \<Rightarrow> request \<Rightarrow> string \<Rightarrow> registration_body response dialog" where
  "handlePut sto req owner =
     bind (owned_entry req owner) (\<lambda>(i, reg).
     if \<not> reType (req_body req) ResourceDescription then throw BadRequest
     else bind (setResourceMetadata sto i (decode_description (req_body req)) owner
            (Some (reg_description reg))) (\<lambda>_.
       return \<lparr>status = 200, content = Updated i\<rparr>))"

text \<open>\<open>splice(indexOf(id), 1)\<close>; a list that becomes empty is deleted.\<close>

definition drop_owned :: "string \<Rightarrow> string \<Rightarrow> unit dialog" where
  "drop_owned owner i =
     bind (gets (\<lambda>s. case kv_get (ownershipStore s) owner of None \<Rightarrow> [] | Some ids \<Rightarrow> ids)) (\<lambda>ids.
     if i \<notin> set ids then return ()
     else (let rest = remove1 i ids in
       if rest = [] then modify (\<lambda>s. s\<lparr>ownershipStore := kv_delete (ownershipStore s) owner\<rparr>)
       else modify (\<lambda>s. s\<lparr>ownershipStore := kv_set (ownershipStore s) owner rest\<rparr>)))"

definition leave_collections :: "dialog_state rules_storage \<Rightarrow> string \<Rightarrow> unit dialog" where
  "leave_collections sto i =
     bind (getStore sto) (\<lambda>st.
     removeData sto (new_store (get_quads st (Some (NamedNode i)) (Some (odrl ''partOf'')) None)))"

definition handleDelete ::
  "dialog_state rules_storage \<Rightarrow> request \<Rightarrow> string \<Rightarrow> registration_body response dialog" where
  "handleDelete sto req owner =
     bind (owned_entry req owner) (\<lambda>(i, reg).
     bind (modify (\<lambda>s. s\<lparr>registrationStore := kv_delete (registrationStore s) i\<rparr>)) (\<lambda>_.
     bind (drop_owned owner i) (\<lambda>_.
     bind (leave_collections sto i) (\<lambda>_.
     return \<lparr>status = 204, content = NoContent\<rparr>))))"

definition ResourceRegistrationRequestHandler ::
  "(string \<Rightarrow> string \<Rightarrow> string) \<Rightarrow> (request \<Rightarrow> string dialog) \<Rightarrow> dialog_state rules_storage \<Rightarrow>
   request \<Rightarrow> registration_body response dialog" where
  "ResourceRegistrationRequestHandler join validate sto req =
     bind (validate req) (\<lambda>owner.
     if req_method req = ''GET'' then handleGet req owner
     else if req_method req = ''POST'' then handlePost join sto req owner
     else if req_method req = ''PUT'' then handlePut sto req owner
     else if req_method req = ''DELETE'' then handleDelete sto req owner
     else throw MethodNotAllowed)"

subsection \<open>What the operations leave alone\<close>

lemma quiet_blankNode: "keeps quiet blankNode"
  unfolding blankNode_def by (intro quiet_intros)

lemma quiet_generateCollectionTriples: "keeps quiet (generateCollectionTriples entry owner c)"
  unfolding generateCollectionTriples_def Let_def by (intro quiet_intros quiet_blankNode)

lemma quiet_add_collection: "keeps quiet (add_collection owner st qs p)"
  unfolding add_collection_def by (intro quiet_intros quiet_generateCollectionTriples)

lemma quiet_remove_collection: "keeps quiet (remove_collection owner st qs p)"
  unfolding remove_collection_def remove_one_collection_def
  by (intro quiet_intros quiet_generateCollectionTriples)

lemma quiet_updateCollections: "keeps quiet (updateCollections st i owner d prev)"
  unfolding updateCollections_def
  by (intro quiet_intros quiet_add_collection quiet_remove_collection)

lemma quiet_updateRelations: "keeps quiet (updateRelations st i d prev)"
  unfolding updateRelations_def by (intro quiet_intros)

lemma quiet_choose_resource_id: "keeps quiet (choose_resource_id d)"
  unfolding choose_resource_id_def by (intro quiet_intros)

lemma quiet_owned_entry: "keeps quiet (owned_entry req owner)"
  unfolding owned_entry_def by (intro quiet_intros)

lemma handleGet_state: "snd (handleGet req owner s) = s"
  by (auto simp: handleGet_def split: option.split)

lemma owned_entry_state: "snd (owned_entry req owner s) = s"
  by (auto simp: owned_entry_def split: option.split)

lemma owned_entry_Inr: "owned_entry req owner s = (Inr (i, reg), t) \<longleftrightarrow>
    t = s \<and> obj_get (req_parameters req) ''id'' = Some i \<and> registrationStore s i = Some reg
    \<and> reg_owner reg = owner"
  by (auto simp: owned_entry_def kv_get_def split: option.split)

lemma empty_change [simp]: "new_store [] = []" "add_quads st [] = st" "remove_quads st [] = st"
  by (simp_all add: new_store_def add_quads_def remove_quads_def)

text \<open>
  Setting the metadata either fails with nothing stored changed, or changes the policies by the
  collected quads and files the description.
\<close>

definition filed ::
  "string \<Rightarrow> resource_description \<Rightarrow> string \<Rightarrow> resource_description option \<Rightarrow> quad list \<Rightarrow> quad list \<Rightarrow>
   dialog_state \<Rightarrow> dialog_state" where
  "filed i d owner prev adds removes s = s\<lparr>
     policies := remove_quads (add_quads (policies s) (new_store adds)) (new_store removes),
     derivationStore := update_derivations d prev (derivationStore s),
     registrationStore := kv_set (registrationStore s) i \<lparr>reg_owner = owner, reg_description = d\<rparr>\<rparr>"

lemma filed_sel [simp]:
  "registrationStore (filed i d owner prev a b s) =
     (registrationStore s)(i \<mapsto> \<lparr>reg_owner = owner, reg_description = d\<rparr>)"
  "ownershipStore (filed i d owner prev a b s) = ownershipStore s"
  "derivationStore (filed i d owner prev a b s) = update_derivations d prev (derivationStore s)"
  "set (policies (filed i d owner prev a b s)) = (set (policies s) \<union> set a) - set b"
  "ticketStore (filed i d owner prev a b s) = ticketStore s"
  by (simp_all add: filed_def kv_set_def)

lemma setResourceMetadata_run:
  "setResourceMetadata policyStorage i d owner prev s =
     (case updateCollections (policies s) i owner d prev s of
        (Inl e, s1) \<Rightarrow> (Inl e, s1)
      | (Inr (ca, cr), s1) \<Rightarrow>
          (case updateRelations (policies s) i d prev s1 of
             (Inl e, s2) \<Rightarrow> (Inl e, s2)
           | (Inr (ra, rr), s2) \<Rightarrow> (Inr (), filed i d owner prev (ca @ ra) (cr @ rr) s2)))"
  by (auto simp: setResourceMetadata_def policyStorage_defs bind_def filed_def Let_def return_def
      split: prod.split sum.split)

lemma setResourceMetadata_Inl:
  assumes "setResourceMetadata policyStorage i d owner prev s = (Inl e, t)"
  shows "quiet s t"
proof (cases "updateCollections (policies s) i owner d prev s")
  case (Pair r s1)
  have q1: "quiet s s1" by (rule keepsD [OF quiet_updateCollections Pair])
  show ?thesis
  proof (cases r)
    case (Inl e)
    with assms Pair q1 show ?thesis by (simp add: setResourceMetadata_run)
  next
    case (Inr cs)
    obtain r2 s2 where run: "updateRelations (policies s) i d prev s1 = (r2, s2)" by fastforce
    have "quiet s1 s2" by (rule keepsD [OF quiet_updateRelations run])
    with assms Pair q1 Inr run show ?thesis
      by (auto simp: setResourceMetadata_run split: sum.splits prod.splits intro: quiet.trans)
  qed
qed

lemma setResourceMetadata_Inr:
  assumes "setResourceMetadata policyStorage i d owner prev s = (Inr u, t)"
  obtains ca cr s1 ra rr s2
  where "updateCollections (policies s) i owner d prev s = (Inr (ca, cr), s1)" "quiet s s1"
    "updateRelations (policies s) i d prev s1 = (Inr (ra, rr), s2)" "quiet s s2"
    "t = filed i d owner prev (ca @ ra) (cr @ rr) s2"
proof -
  from assms obtain ca cr s1 ra rr s2
    where run: "updateCollections (policies s) i owner d prev s = (Inr (ca, cr), s1)"
      "updateRelations (policies s) i d prev s1 = (Inr (ra, rr), s2)"
      and t: "t = filed i d owner prev (ca @ ra) (cr @ rr) s2"
    by (auto simp: setResourceMetadata_run split: prod.splits sum.splits)
  have "quiet s s1" by (rule keepsD [OF quiet_updateCollections run(1)])
  moreover have "quiet s1 s2" by (rule keepsD [OF quiet_updateRelations run(2)])
  ultimately show thesis using that run t quiet.trans by blast
qed

subsection \<open>Ownership and registrations agree\<close>

definition owned :: "dialog_state \<Rightarrow> string \<Rightarrow> string list" where
  "owned s owner = (case ownershipStore s owner of None \<Rightarrow> [] | Some ids \<Rightarrow> ids)"

lemma owned_update [simp]: "owned (s\<lparr>registrationStore := r\<rparr>) owner = owned s owner"
  by (simp add: owned_def)

text \<open>
  The invariant of the two stores: the list of an owner names exactly the registrations of that
  owner, each once, and no empty list is kept.
\<close>

definition ownership_ok :: "dialog_state \<Rightarrow> bool" where
  "ownership_ok s \<longleftrightarrow> (\<forall>owner. distinct (owned s owner) \<and> ownershipStore s owner \<noteq> Some []
     \<and> (\<forall>i. i \<in> set (owned s owner) \<longleftrightarrow> (\<exists>reg. registrationStore s i = Some reg \<and> reg_owner reg = owner)))"

lemma ownership_ok_cong:
  "registrationStore t = registrationStore s \<Longrightarrow> ownershipStore t = ownershipStore s \<Longrightarrow>
   ownership_ok t \<longleftrightarrow> ownership_ok s"
  by (simp add: ownership_ok_def owned_def)

lemma quiet_ownership: "quiet s t \<Longrightarrow> ownership_ok s \<Longrightarrow> ownership_ok t"
  using ownership_ok_cong stored_fields(4,6) [OF quietD(1)] by blast

lemma ownership_register:
  assumes "ownership_ok s" and "registrationStore s i = None" and "reg_owner reg = owner"
    and "registrationStore t = (registrationStore s)(i \<mapsto> reg)"
    and "ownershipStore t = (ownershipStore s)(owner \<mapsto> owned s owner @ [i])"
  shows "ownership_ok t"
proof -
  have fresh: "i \<notin> set (owned s owner)" for owner using assms(1,2) by (auto simp: ownership_ok_def)
  have own: "owned t w = (if w = owner then owned s owner @ [i] else owned s w)" for w
    using assms(5) by (simp add: owned_def)
  show ?thesis
    using assms(1-3) fresh unfolding ownership_ok_def own by (auto simp: assms(4,5))
qed

lemma ownership_update:
  assumes "ownership_ok s" and "registrationStore s i = Some reg" and "reg_owner reg' = reg_owner reg"
    and "registrationStore t = (registrationStore s)(i \<mapsto> reg')" and "ownershipStore t = ownershipStore s"
  shows "ownership_ok t"
proof -
  have own: "owned t w = owned s w" for w using assms(5) by (simp add: owned_def)
  show ?thesis using assms(1-3) unfolding ownership_ok_def own by (auto simp: assms(4,5))
qed

lemma remove1_Nil: "remove1 i xs = [] \<Longrightarrow> x \<in> set xs \<Longrightarrow> x = i"
  by (metis in_set_remove1 empty_iff empty_set)

lemma ownership_unregister:
  assumes "ownership_ok s" and "registrationStore s i = Some reg"
    and "registrationStore t = (registrationStore s)(i := None)"
    and "ownershipStore t = (let rest = remove1 i (owned s (reg_owner reg)) in
      if rest = [] then (ownershipStore s)(reg_owner reg := None)
      else (ownershipStore s)(reg_owner reg \<mapsto> rest))"
  shows "ownership_ok t"
proof -
  have own: "owned t w = (if w = reg_owner reg then remove1 i (owned s w) else owned s w)" for w
    using assms(4) by (auto simp: owned_def Let_def)
  have "distinct (owned s w)" for w using assms(1) by (simp add: ownership_ok_def)
  moreover have "j = i" if "remove1 i (owned s (reg_owner reg)) = []" "registrationStore s j = Some reg'"
    "reg_owner reg' = reg_owner reg" for j reg'
    using assms(1) that by (intro remove1_Nil [OF that(1)]) (auto simp: ownership_ok_def)
  ultimately show ?thesis
    using assms(1,2) unfolding ownership_ok_def own by (auto simp: assms(3,4) Let_def)
qed

lemma choose_resource_id_Inr:
  assumes "choose_resource_id d s = (Inr i, t)" and "\<forall>n \<ge> drawn s. registrationStore s (entropy s n) = None"
  shows "registrationStore s i = None" and "quiet s t"
    and "truthy_opt (rd_name d) \<Longrightarrow> rd_name d = Some i"
  using assms keepsD [OF quiet_choose_resource_id assms(1)]
  by (auto simp: choose_resource_id_def kv_has_def randomUUID_def fresh_id_def split: if_splits
      dest: truthy_optD)

lemma add_owned_run:
  "add_owned owner i s = (Inr (), s\<lparr>ownershipStore := (ownershipStore s)(owner \<mapsto> owned s owner @ [i])\<rparr>)"
  by (simp add: add_owned_def kv_set_def kv_get_def owned_def)

lemma drop_owned_run:
  assumes "i \<in> set (owned s owner)"
  shows "drop_owned owner i s = (Inr (), s\<lparr>ownershipStore :=
    (let rest = remove1 i (owned s owner) in
     if rest = [] then (ownershipStore s)(owner := None) else (ownershipStore s)(owner \<mapsto> rest))\<rparr>)"
  using assms by (auto simp: drop_owned_def kv_get_def kv_set_def kv_delete_def owned_def Let_def)

lemma drop_owned_total: "fst (drop_owned owner i s) = Inr ()"
  by (simp add: drop_owned_def Let_def)

lemma leave_collections_run:
  "leave_collections policyStorage i s = (Inr (), s\<lparr>policies := remove_quads (policies s)
     (new_store (get_quads (policies s) (Some (NamedNode i)) (Some (odrl ''partOf'')) None))\<rparr>)"
  by (simp add: leave_collections_def policyStorage_defs)

lemma handlePost_Inr:
  assumes "handlePost join policyStorage req owner s = (Inr resp, t)"
  obtains i s1 s2 where "reType (req_body req) ResourceDescription"
    "choose_resource_id (decode_description (req_body req)) s = (Inr i, s1)"
    "setResourceMetadata policyStorage i (decode_description (req_body req)) owner None s1 = (Inr (), s2)"
    "t = s2\<lparr>ownershipStore := (ownershipStore s2)(owner \<mapsto> owned s2 owner @ [i])\<rparr>"
    "resp = \<lparr>status = 201, content = Registered i (join (req_url req) (encodeURIComponent i))\<rparr>"
  using assms
  by (auto simp: handlePost_def Let_def bind_eq_Inr add_owned_run split: if_splits)

lemma handlePost_Inl:
  assumes "handlePost join policyStorage req owner s = (Inl e, t)"
  shows "quiet s t"
proof -
  let ?d = "decode_description (req_body req)"
  from assms consider "t = s" | "choose_resource_id ?d s = (Inl e, t)"
    | i s1 where "choose_resource_id ?d s = (Inr i, s1)"
        "setResourceMetadata policyStorage i ?d owner None s1 = (Inl e, t)"
    by (auto simp: handlePost_def Let_def bind_eq_Inl add_owned_run split: if_splits)
  then show ?thesis
    by cases (auto intro: quiet.refl quiet.trans keepsD [OF quiet_choose_resource_id] setResourceMetadata_Inl)
qed

lemma handlePut_Inr:
  assumes "handlePut policyStorage req owner s = (Inr resp, t)"
  obtains i reg where "obj_get (req_parameters req) ''id'' = Some i" "registrationStore s i = Some reg"
    "reg_owner reg = owner" "reType (req_body req) ResourceDescription"
    "setResourceMetadata policyStorage i (decode_description (req_body req)) owner
       (Some (reg_description reg)) s = (Inr (), t)"
    "resp = \<lparr>status = 200, content = Updated i\<rparr>"
  using assms by (auto simp: handlePut_def bind_eq_Inr owned_entry_Inr split: if_splits)

lemma handlePut_Inl:
  assumes "handlePut policyStorage req owner s = (Inl e, t)"
  shows "quiet s t"
  using assms keepsD [OF quiet_owned_entry]
  by (auto simp: handlePut_def bind_eq_Inl owned_entry_Inr quiet.refl dest: setResourceMetadata_Inl
      split: if_splits)

lemma handleDelete_Inl:
  assumes "handleDelete policyStorage req owner s = (Inl e, t)" and "ownership_ok s"
  shows "quiet s t"
proof -
  from assms(1) consider "owned_entry req owner s = (Inl e, t)"
    | i reg where "owned_entry req owner s = (Inr (i, reg), s)"
      "drop_owned owner i (s\<lparr>registrationStore := kv_delete (registrationStore s) i\<rparr>) = (Inl e, t)"
    by (auto simp: handleDelete_def bind_eq_Inl owned_entry_Inr leave_collections_run)
  then show ?thesis
  proof cases
    case 1 then show ?thesis by (rule keepsD [OF quiet_owned_entry])
  next
    case 2 with drop_owned_total show ?thesis by (metis Inl_Inr_False fst_conv)
  qed
qed

lemma handleDelete_Inr:
  assumes "handleDelete policyStorage req owner s = (Inr resp, t)" and "ownership_ok s"
  obtains i reg where "obj_get (req_parameters req) ''id'' = Some i" "registrationStore s i = Some reg"
    "reg_owner reg = owner" "resp = \<lparr>status = 204, content = NoContent\<rparr>"
    "t = s\<lparr>registrationStore := (registrationStore s)(i := None),
       ownershipStore := (let rest = remove1 i (owned s owner) in
         if rest = [] then (ownershipStore s)(owner := None) else (ownershipStore s)(owner \<mapsto> rest)),
       policies := remove_quads (policies s)
         (new_store (get_quads (policies s) (Some (NamedNode i)) (Some (odrl ''partOf'')) None))\<rparr>"
proof -
  from assms(1) obtain i reg where entry: "owned_entry req owner s = (Inr (i, reg), s)"
    by (auto simp: handleDelete_def bind_eq_Inr owned_entry_Inr)
  then have "registrationStore s i = Some reg" "reg_owner reg = owner" by (simp_all add: owned_entry_Inr)
  then have "i \<in> set (owned s owner)" using assms(2) by (auto simp: ownership_ok_def)
  with assms(1) entry that show thesis
    by (auto simp: handleDelete_def bind_eq_Inr owned_entry_Inr drop_owned_run leave_collections_run
        kv_delete_def Let_def)
qed

subsection \<open>Finding and generating collections\<close>

definition names_source :: "collection_metadata \<Rightarrow> quad set \<Rightarrow> rterm \<Rightarrow> bool" where
  "names_source entry d c \<longleftrightarrow> (\<exists>q \<in> d. subject q = c \<and> predicate q = odrl ''source''
     \<and> object q = NamedNode (cm_source entry))"

definition names_relation :: "collection_metadata \<Rightarrow> quad set \<Rightarrow> rterm \<Rightarrow> bool" where
  "names_relation entry d c \<longleftrightarrow>
     (if cm_reverse entry
      then \<exists>q \<in> d. subject q = c \<and> predicate q = odrl_p_relation
             \<and> triple (object q) owl_inverseOf (NamedNode (cm_relation entry)) \<in> d
      else triple c odrl_p_relation (NamedNode (cm_relation entry)) \<in> d)"

lemma set_findCollectionIds:
  "set (findCollectionIds entry d) = {c. names_source entry (set d) c \<and> names_relation entry (set d) c}"
proof (cases "cm_reverse entry")
  case True
  then show ?thesis
    by (auto simp: findCollectionIds_def Let_def names_source_def names_relation_def store_sets matches_def
        image_iff) metis
next
  case False
  then show ?thesis
    by (auto simp: findCollectionIds_def Let_def names_source_def names_relation_def store_sets matches_def
        image_iff)
qed

lemma findCollectionIds_mono:
  assumes "set d \<subseteq> set d'" and "findCollectionIds entry d \<noteq> []"
  shows "findCollectionIds entry d' \<noteq> []"
proof -
  obtain c where "c \<in> set (findCollectionIds entry d)"
    using assms(2) by (meson last_in_set)
  then have "c \<in> set (findCollectionIds entry d')"
    using assms(1) by (auto simp: set_findCollectionIds names_source_def names_relation_def
        split: if_splits)
  then show ?thesis by auto
qed

definition collection_quads :: "collection_metadata \<Rightarrow> string \<Rightarrow> rterm \<Rightarrow> string \<Rightarrow> quad list" where
  "collection_quads entry owner c label =
     [triple c rdf_type (odrl ''AssetCollection''),
      triple c (odrl ''source'') (NamedNode (cm_source entry)),
      triple c (dc ''creator'') (NamedNode owner)] @
     (if cm_reverse entry
      then [triple c odrl_p_relation (BlankNode label),
            triple (BlankNode label) owl_inverseOf (NamedNode (cm_relation entry))]
      else [triple c odrl_p_relation (NamedNode (cm_relation entry))])"

lemma generateCollectionTriples_run:
  "generateCollectionTriples entry owner c s =
     (Inr (collection_quads entry owner c (fresh_id s)),
      if cm_reverse entry then s\<lparr>drawn := Suc (drawn s)\<rparr> else s)"
  by (simp add: generateCollectionTriples_def Let_def blankNode_def collection_quads_def return_def bind_def
      randomUUID_def)

lemma collection_quads_found:
  assumes "set (collection_quads entry owner c label) \<subseteq> set d"
  shows "c \<in> set (findCollectionIds entry d)"
proof -
  have "names_source entry (set d) c" using assms unfolding names_source_def
    by (intro bexI [of _ "triple c (odrl ''source'') (NamedNode (cm_source entry))"])
      (simp_all add: collection_quads_def)
  moreover have "names_relation entry (set d) c"
  proof (cases "cm_reverse entry")
    case True
    with assms show ?thesis unfolding names_relation_def
      by (simp, intro bexI [of _ "triple c odrl_p_relation (BlankNode label)"])
        (simp_all add: collection_quads_def)
  next
    case False with assms show ?thesis by (simp add: names_relation_def collection_quads_def)
  qed
  ultimately show ?thesis by (simp add: set_findCollectionIds)
qed

lemma fold_add_collection:
  assumes "fold_act (add_collection owner st) acc es s = (Inr out, t)"
  shows "set acc \<subseteq> set out" and "(k, e) \<in> set es \<Longrightarrow> set st \<union> set out \<subseteq> set d \<Longrightarrow> findCollectionIds e d \<noteq> []"
proof -
  have "set acc \<subseteq> set out \<and> ((k, e) \<in> set es \<longrightarrow> set st \<union> set out \<subseteq> set d \<longrightarrow> findCollectionIds e d \<noteq> [])"
    using assms
  proof (induction es arbitrary: acc s)
    case (Cons p es)
    obtain k' e' where p: "p = (k', e')" by fastforce
    from Cons.prems obtain acc' s' where step: "add_collection owner st acc p s = (Inr acc', s')"
      and rest: "fold_act (add_collection owner st) acc' es s' = (Inr out, t)"
      by (auto simp: bind_eq_Inr)
    note IH = Cons.IH [OF rest]
    show ?case
    proof (cases "findCollectionIds e' st = []")
      case False
      with step p have "acc' = acc" by (simp add: add_collection_def)
      with IH p False show ?thesis by (auto dest: findCollectionIds_mono)
    next
      case True
      with step p have acc': "acc' = acc @ collection_quads e' owner (NamedNode (collection_name e')) (fresh_id s)"
        by (auto simp: add_collection_def bind_eq_Inr generateCollectionTriples_run)
      have "findCollectionIds e' d \<noteq> []" if "set out \<subseteq> set d"
        using collection_quads_found [of e' owner _ "fresh_id s" d] IH acc' that by fastforce
      with IH p acc' show ?thesis by auto
    qed
  qed simp
  then show "set acc \<subseteq> set out"
    and "(k, e) \<in> set es \<Longrightarrow> set st \<union> set out \<subseteq> set d \<Longrightarrow> findCollectionIds e d \<noteq> []"
    by blast+
qed

lemma generatePartOfTriples_Inr:
  assumes "generatePartOfTriples part es st = Inr qs"
  shows "set qs = {triple part (odrl ''partOf'') c | e c. e \<in> set es \<and> c \<in> set (findCollectionIds e st)}
    \<and> (\<forall>e \<in> set es. findCollectionIds e st \<noteq> [])"
  using assms
proof (induction es arbitrary: qs)
  case (Cons e es)
  then obtain qs' where "generatePartOfTriples part es st = Inr qs'" "findCollectionIds e st \<noteq> []"
    "qs = map (triple part (odrl ''partOf'')) (findCollectionIds e st) @ qs'"
    by (auto simp: Let_def split: if_splits sum.splits)
  with Cons.IH [of qs'] show ?case by auto
qed simp

lemma getCollectionMetadata_None [simp]: "getCollectionMetadata fld None i = Inr []"
  by (simp add: getCollectionMetadata_def description_field_def)

lemma filterRelationEntries_Nil [simp]: "filterRelationEntries a [] = (a, [])"
proof -
  have "fold drop_shared ks (a, []) = (a, [])" for ks
    by (induction ks) (simp_all add: drop_shared_def)
  then show ?thesis by (simp add: filterRelationEntries_def)
qed

lemma updateCollections_new:
  assumes "updateCollections st i owner d None s = (Inr (add, remove), t)"
  obtains es where "getCollectionMetadata Resource_defaults (Some d) i = Inr es"
    "fold_act (add_collection owner st) [] es s = (Inr add, t)" "remove = []"
  using assms by (auto simp: updateCollections_def bind_eq_Inr)

lemma updateRelations_new:
  assumes "updateRelations st i d None s = (Inr (add, remove), t)"
  obtains es where "getCollectionMetadata Resource_relations (Some d) i = Inr es"
    "generatePartOfTriples (NamedNode i) (map snd es) st = Inr add" "remove = []"
  using assms by (auto simp: updateRelations_def bind_eq_Inr)

subsection \<open>Derivations\<close>

lemma fold_kv_set:
  "fold (\<lambda>e m. kv_set m (f e) (g e)) es m k =
     (case map_of (rev (map (\<lambda>e. (f e, g e)) es)) k of Some v \<Rightarrow> Some v | None \<Rightarrow> m k)"
  by (induction es arbitrary: m)
    (auto simp: kv_set_def map_add_def map_of_append split: option.splits)

lemma fold_kv_delete: "fold (\<lambda>i m. kv_delete m i) is m k = (if k \<in> set is then None else m k)"
  by (induction "is" arbitrary: m) (auto simp: kv_delete_def)

lemma update_derivations_apply:
  "update_derivations d prev m k =
     (case map_of (rev (map (\<lambda>e. (de_derivation_resource_id e, de_issuer e)) (derived_entries (Some d)))) k of
        Some iss \<Rightarrow> Some iss
      | None \<Rightarrow> if k \<in> de_derivation_resource_id ` set (derived_entries prev) then None else m k)"
proof -
  have keys: "map_of (rev (map (\<lambda>e. (de_derivation_resource_id e, de_issuer e)) es)) k = None \<longleftrightarrow>
      k \<notin> de_derivation_resource_id ` set es" for es
    by (simp add: map_of_eq_None_iff image_image)
  have run: "update_derivations d prev m k = (if k \<in> set (removed_derived_ids d prev) then None
      else (case map_of (rev (map (\<lambda>e. (de_derivation_resource_id e, de_issuer e)) (derived_entries (Some d)))) k of
        Some v \<Rightarrow> Some v | None \<Rightarrow> m k))"
    by (simp add: update_derivations_def fold_kv_delete fold_kv_set)
  show ?thesis
  proof (cases "map_of (rev (map (\<lambda>e. (de_derivation_resource_id e, de_issuer e)) (derived_entries (Some d)))) k")
    case None
    then show ?thesis using keys [of "derived_entries (Some d)"]
      by (simp add: run removed_derived_ids_def)
  next
    case (Some v)
    then have "k \<in> de_derivation_resource_id ` set (derived_entries (Some d))"
      using keys [of "derived_entries (Some d)"] by auto
    with Some show ?thesis by (simp add: run removed_derived_ids_def)
  qed
qed

subsection \<open>Properties\<close>

lemma validate_fresh:
  assumes "keeps quiet v" and "v s = (x, s0)"
    and "\<forall>n \<ge> drawn s. registrationStore s (entropy s n) = None"
  shows "quiet s s0" and "\<forall>n \<ge> drawn s0. registrationStore s0 (entropy s0 n) = None"
proof -
  show q: "quiet s s0" by (rule keepsD [OF assms(1,2)])
  show "\<forall>n \<ge> drawn s0. registrationStore s0 (entropy s0 n) = None"
    using assms(3) quietD(2) [OF q] by (simp add: stored_fields [OF quietD(1) [OF q]])
qed

lemma handler_cases:
  assumes "ResourceRegistrationRequestHandler join validate sto req s = (r, t)"
  obtains e where "validate req s = (Inl e, t)" "r = Inl e"
  | owner s0 where "validate req s = (Inr owner, s0)" "req_method req = ''GET''"
      "handleGet req owner s0 = (r, t)"
  | owner s0 where "validate req s = (Inr owner, s0)" "req_method req = ''POST''"
      "handlePost join sto req owner s0 = (r, t)"
  | owner s0 where "validate req s = (Inr owner, s0)" "req_method req = ''PUT''"
      "handlePut sto req owner s0 = (r, t)"
  | owner s0 where "validate req s = (Inr owner, s0)" "req_method req = ''DELETE''"
      "handleDelete sto req owner s0 = (r, t)"
  | owner where "validate req s = (Inr owner, t)" "r = Inl MethodNotAllowed"
      "req_method req \<notin> {''GET'', ''POST'', ''PUT'', ''DELETE''}"
proof (cases "validate req s")
  case (Pair x s0)
  show thesis
  proof (cases x)
    case (Inl e)
    with assms Pair have "validate req s = (Inl e, t)" "r = Inl e"
      by (simp_all add: ResourceRegistrationRequestHandler_def bind_def)
    then show thesis by (rule that(1))
  next
    case (Inr owner)
    with Pair have v: "validate req s = (Inr owner, s0)" by simp
    with assms have run: "(if req_method req = ''GET'' then handleGet req owner
        else if req_method req = ''POST'' then handlePost join sto req owner
        else if req_method req = ''PUT'' then handlePut sto req owner
        else if req_method req = ''DELETE'' then handleDelete sto req owner
        else throw MethodNotAllowed) s0 = (r, t)"
      by (simp add: ResourceRegistrationRequestHandler_def bind_def)
    show thesis
      using run v that(2-6) by (simp split: if_splits)
  qed
qed

lemma post_ownership:
  assumes "handlePost join policyStorage req owner s = (r, t)" and "ownership_ok s"
    and "\<forall>n \<ge> drawn s. registrationStore s (entropy s n) = None"
  shows "ownership_ok t"
proof (cases r)
  case (Inl e) with assms(1,2) show ?thesis by (auto dest: handlePost_Inl intro: quiet_ownership)
next
  case (Inr resp)
  with assms(1) obtain i s1 s2 where i: "choose_resource_id (decode_description (req_body req)) s = (Inr i, s1)"
    and set: "setResourceMetadata policyStorage i (decode_description (req_body req)) owner None s1 = (Inr (), s2)"
    and t: "t = s2\<lparr>ownershipStore := (ownershipStore s2)(owner \<mapsto> owned s2 owner @ [i])\<rparr>"
    by (blast elim: handlePost_Inr)
  note new = choose_resource_id_Inr [OF i assms(3)]
  from set obtain ca cr ra rr s3 where q: "quiet s1 s3"
    and s2: "s2 = filed i (decode_description (req_body req)) owner None (ca @ ra) (cr @ rr) s3"
    by (blast elim: setResourceMetadata_Inr)
  have same: "registrationStore s3 = registrationStore s" "ownershipStore s3 = ownershipStore s"
    by (simp_all add: stored_fields [OF quietD(1) [OF q]] stored_fields [OF quietD(1) [OF new(2)]])
  show ?thesis
    by (rule ownership_register [OF assms(2) new(1), of _ owner]) (auto simp: t s2 same owned_def)
qed

lemma put_ownership:
  assumes "handlePut policyStorage req owner s = (r, t)" and "ownership_ok s"
  shows "ownership_ok t"
proof (cases r)
  case (Inl e) with assms show ?thesis by (auto dest: handlePut_Inl intro: quiet_ownership)
next
  case (Inr resp)
  with assms(1) obtain i reg where reg: "registrationStore s i = Some reg" "reg_owner reg = owner"
    and set: "setResourceMetadata policyStorage i (decode_description (req_body req)) owner
       (Some (reg_description reg)) s = (Inr (), t)"
    by (blast elim: handlePut_Inr)
  from set obtain ca cr ra rr s3 where q: "quiet s s3"
    and t: "t = filed i (decode_description (req_body req)) owner (Some (reg_description reg))
      (ca @ ra) (cr @ rr) s3"
    by (blast elim: setResourceMetadata_Inr)
  show ?thesis
    by (rule ownership_update [OF assms(2) reg(1)])
      (simp_all add: reg(2) t stored_fields [OF quietD(1) [OF q]])
qed

lemma delete_ownership:
  assumes "handleDelete policyStorage req owner s = (r, t)" and "ownership_ok s"
  shows "ownership_ok t"
proof (cases r)
  case (Inl e) with assms show ?thesis by (auto dest: handleDelete_Inl intro: quiet_ownership)
next
  case (Inr resp)
  with assms show ?thesis
    by (auto elim!: handleDelete_Inr intro: ownership_unregister [OF assms(2)])
qed

text \<open>
  C9: every registration has exactly one owner entry, after every request. Whatever the request
  and whatever its outcome, the ownership lists keep naming exactly the registrations of their
  owner, each once, with no empty list. The hypotheses: the validator changes nothing stored, and
  the random identifiers still to be drawn are not registered names.
\<close>

theorem registration_ownership_invariant:
  assumes "keeps quiet (validate req)" and "ownership_ok s"
    and "\<forall>n \<ge> drawn s. registrationStore s (entropy s n) = None"
    and "ResourceRegistrationRequestHandler join validate policyStorage req s = (r, t)"
  shows "ownership_ok t"
  using assms(4)
proof (cases rule: handler_cases)
  case (1 e)
  from quiet_ownership [OF validate_fresh(1) [OF assms(1), OF 1(1) assms(3)] assms(2)] show ?thesis .
next
  case (2 owner s0)
  then have "t = s0" using handleGet_state [of req owner s0] by simp
  with quiet_ownership [OF validate_fresh(1) [OF assms(1), OF 2(1) assms(3)] assms(2)] show ?thesis by simp
next
  case (3 owner s0)
  note v = validate_fresh [OF assms(1), OF 3(1) assms(3)]
  show ?thesis by (rule post_ownership [OF 3(3) quiet_ownership [OF v(1) assms(2)] v(2)])
next
  case (4 owner s0)
  note v = validate_fresh [OF assms(1), OF 4(1) assms(3)]
  show ?thesis by (rule put_ownership [OF 4(3) quiet_ownership [OF v(1) assms(2)]])
next
  case (5 owner s0)
  note v = validate_fresh [OF assms(1), OF 5(1) assms(3)]
  show ?thesis by (rule delete_ownership [OF 5(3) quiet_ownership [OF v(1) assms(2)]])
next
  case (6 owner)
  from quiet_ownership [OF validate_fresh(1) [OF assms(1), OF 6(1) assms(3)] assms(2)] show ?thesis .
qed

lemma quiet_registration: "quiet s t \<Longrightarrow> registrationStore s i = Some reg \<Longrightarrow> registrationStore t i = Some reg"
  by (simp add: stored_fields [OF quietD(1)])

lemma post_foreign:
  assumes "handlePost join policyStorage req owner s = (r, t)" and "\<forall>n \<ge> drawn s. registrationStore s (entropy s n) = None" and "registrationStore s i = Some reg"
  shows "registrationStore t i = Some reg"
proof (cases r)
  case (Inl e)
  with assms show ?thesis by (auto dest!: handlePost_Inl elim: quiet_registration)
next
  case (Inr resp)
  with assms(1) obtain j s1 s2 where j: "choose_resource_id (decode_description (req_body req)) s = (Inr j, s1)"
    and set: "setResourceMetadata policyStorage j (decode_description (req_body req)) owner None s1 = (Inr (), s2)"
    and t: "registrationStore t = registrationStore s2"
    by (auto elim!: handlePost_Inr)
  note new = choose_resource_id_Inr [OF j assms(2)]
  from set obtain ca cr ra rr s3 where q: "quiet s1 s3"
    and "s2 = filed j (decode_description (req_body req)) owner None (ca @ ra) (cr @ rr) s3"
    by (blast elim: setResourceMetadata_Inr)
  moreover have "registrationStore s3 = registrationStore s"
    by (simp add: stored_fields [OF quietD(1) [OF q]] stored_fields [OF quietD(1) [OF new(2)]])
  ultimately show ?thesis using assms(3) new(1) t by auto
qed

lemma put_foreign:
  assumes "handlePut policyStorage req owner s = (r, t)" and "registrationStore s i = Some reg" and "reg_owner reg \<noteq> owner"
  shows "registrationStore t i = Some reg"
proof (cases r)
  case (Inl e)
  with assms show ?thesis by (auto dest!: handlePut_Inl elim: quiet_registration)
next
  case (Inr resp)
  with assms(1) obtain j reg' where j: "registrationStore s j = Some reg'" "reg_owner reg' = owner"
    and set: "setResourceMetadata policyStorage j (decode_description (req_body req)) owner
      (Some (reg_description reg')) s = (Inr (), t)"
    by (blast elim: handlePut_Inr)
  from set obtain ca cr ra rr s3 where q: "quiet s s3"
    and "t = filed j (decode_description (req_body req)) owner (Some (reg_description reg')) (ca @ ra) (cr @ rr) s3"
    by (blast elim: setResourceMetadata_Inr)
  with j assms(2,3) show ?thesis by (auto simp: stored_fields [OF quietD(1) [OF q]])
qed

lemma delete_foreign:
  assumes "handleDelete policyStorage req owner s = (r, t)" and "ownership_ok s"
    and "registrationStore s i = Some reg" and "reg_owner reg \<noteq> owner"
  shows "registrationStore t i = Some reg"
proof (cases r)
  case (Inl e)
  with assms show ?thesis by (auto dest!: handleDelete_Inl elim: quiet_registration)
next
  case (Inr resp)
  with assms show ?thesis by (auto elim!: handleDelete_Inr)
qed

text \<open>
  C28: only the owner touches a registration. A request validated for one owner leaves the
  registration of another exactly as it is, whatever the method and the outcome, and reading,
  updating or deleting it by its identifier is forbidden.
\<close>

theorem registration_owner_only:
  assumes "keeps quiet (validate req)" and "\<forall>n \<ge> drawn s. registrationStore s (entropy s n) = None"
    and "validate req s = (Inr owner, s0)" and "ownership_ok s"
    and reg: "registrationStore s i = Some reg" "reg_owner reg \<noteq> owner"
    and run: "ResourceRegistrationRequestHandler join validate policyStorage req s = (r, t)"
  shows "registrationStore t i = Some reg
    \<and> (obj_get (req_parameters req) ''id'' = Some i \<and> i \<noteq> '''' \<and> req_method req \<in> {''GET'', ''PUT'', ''DELETE''}
       \<longrightarrow> r = Inl Forbidden)"
proof -
  note v = validate_fresh [OF assms(1), OF assms(3) assms(2)]
  have reg0: "registrationStore s0 i = Some reg" by (rule quiet_registration [OF v(1) reg(1)])
  have ok0: "ownership_ok s0" by (rule quiet_ownership [OF v(1) assms(4)])
  from run show ?thesis
  proof (cases rule: handler_cases)
    case (2 owner' s1)
    then have "t = s0" using handleGet_state [of req owner' s1] assms(3) by simp
    with 2 assms(3) reg0 reg(2) show ?thesis by (auto simp: handleGet_def kv_get_def)
  next
    case (3 owner' s1)
    with post_foreign [OF _ v(2) reg0] assms(3) show ?thesis by auto
  next
    case (4 owner' s1)
    then have put: "handlePut policyStorage req owner s0 = (r, t)" using assms(3) by simp
    from 4 put put_foreign [OF put reg0 reg(2)] reg0 reg(2) show ?thesis
      by (auto simp: handlePut_def owned_entry_def kv_get_def bind_def throw_def)
  next
    case (5 owner' s1)
    then have del: "handleDelete policyStorage req owner s0 = (r, t)" using assms(3) by simp
    from 5 del delete_foreign [OF del ok0 reg0 reg(2)] reg0 reg(2) show ?thesis
      by (auto simp: handleDelete_def owned_entry_def kv_get_def bind_def throw_def)
  qed (use assms(3) reg0 in auto)
qed

text \<open>
  what registering a resource establishes. After a successful POST the identifier (the name,
  when there is one) is registered for the owner with the description of the body, every
  derivation of the body points to the last issuer given for it, every collection the description
  defines exists, and the resource is part of every collection its relations name; there is at
  least one collection for each relation, and no quad was lost.
\<close>

theorem registration_established:
  assumes "handlePost join policyStorage req owner s = (Inr resp, t)"
    and "\<forall>n \<ge> drawn s. registrationStore s (entropy s n) = None"
  shows "\<exists>i d defaults relations. d = decode_description (req_body req)
    \<and> resp = \<lparr>status = 201, content = Registered i (join (req_url req) (encodeURIComponent i))\<rparr>
    \<and> (truthy_opt (rd_name d) \<longrightarrow> rd_name d = Some i)
    \<and> registrationStore s i = None
    \<and> registrationStore t = (registrationStore s)(i \<mapsto> \<lparr>reg_owner = owner, reg_description = d\<rparr>)
    \<and> derivationStore t = update_derivations d None (derivationStore s)
    \<and> getCollectionMetadata Resource_defaults (Some d) i = Inr defaults
    \<and> (\<forall>e \<in> snd ` set defaults. findCollectionIds e (policies t) \<noteq> [])
    \<and> getCollectionMetadata Resource_relations (Some d) i = Inr relations
    \<and> (\<forall>e \<in> snd ` set relations. findCollectionIds e (policies s) \<noteq> []
        \<and> (\<forall>c \<in> set (findCollectionIds e (policies s)).
             triple (NamedNode i) (odrl ''partOf'') c \<in> set (policies t)))
    \<and> set (policies s) \<subseteq> set (policies t)"
proof -
  let ?d = "decode_description (req_body req)"
  from assms(1) obtain i s1 s2 where i: "choose_resource_id ?d s = (Inr i, s1)"
    and set: "setResourceMetadata policyStorage i ?d owner None s1 = (Inr (), s2)"
    and t: "t = s2\<lparr>ownershipStore := (ownershipStore s2)(owner \<mapsto> owned s2 owner @ [i])\<rparr>"
    and resp: "resp = \<lparr>status = 201, content = Registered i (join (req_url req) (encodeURIComponent i))\<rparr>"
    by (blast elim: handlePost_Inr)
  note new = choose_resource_id_Inr [OF i assms(2)]
  note same1 = stored_fields [OF quietD(1) [OF new(2)]]
  from set obtain ca cr ra rr s3 s4 where cs: "updateCollections (policies s) i owner ?d None s1 = (Inr (ca, cr), s3)"
    and rs: "updateRelations (policies s) i ?d None s3 = (Inr (ra, rr), s4)" and q: "quiet s1 s4"
    and s2: "s2 = filed i ?d owner None (ca @ ra) (cr @ rr) s4"
    by (auto elim!: setResourceMetadata_Inr simp: same1)
  note same4 = stored_fields [OF quietD(1) [OF q]]
  from cs obtain defaults where defaults: "getCollectionMetadata Resource_defaults (Some ?d) i = Inr defaults"
    and fold: "fold_act (add_collection owner (policies s)) [] defaults s1 = (Inr ca, s3)" and "cr = []"
    by (rule updateCollections_new)
  from rs obtain relations where relations: "getCollectionMetadata Resource_relations (Some ?d) i = Inr relations"
    and parts: "generatePartOfTriples (NamedNode i) (map snd relations) (policies s) = Inr ra" and "rr = []"
    by (rule updateRelations_new)
  have pol: "set (policies t) = set (policies s) \<union> set ca \<union> set ra"
    by (auto simp: t s2 \<open>cr = []\<close> \<open>rr = []\<close> same4 same1)
  have cols: "findCollectionIds e (policies t) \<noteq> []" if "e \<in> snd ` set defaults" for e
    using that fold_add_collection(2) [OF fold, of _ e "policies t"] pol by auto
  have rels: "findCollectionIds e (policies s) \<noteq> []"
    "\<forall>c \<in> set (findCollectionIds e (policies s)). triple (NamedNode i) (odrl ''partOf'') c \<in> set (policies t)"
    if "e \<in> snd ` set relations" for e
    using that generatePartOfTriples_Inr [OF parts] pol by auto
  show ?thesis
    using new(1,3) resp defaults relations cols rels pol
    by (intro exI [of _ i] exI [of _ ?d] exI [of _ defaults] exI [of _ relations])
      (auto simp: t s2 same4 same1)
qed

text \<open>
  what deleting a resource removes. After a successful DELETE the identifier is not
  registered, its owner does not list it, it is part of no collection, and every other
  registration, policy quad and derivation entry is still there; in particular the derivation
  entries and the collections the resource itself defined stay behind.
\<close>

theorem registration_deleted:
  assumes "handleDelete policyStorage req owner s = (Inr resp, t)" and "ownership_ok s"
  shows "\<exists>i. obj_get (req_parameters req) ''id'' = Some i
    \<and> registrationStore t = (registrationStore s)(i := None)
    \<and> i \<notin> set (owned t owner)
    \<and> set (policies t) = {q \<in> set (policies s). subject q \<noteq> NamedNode i \<or> predicate q \<noteq> odrl ''partOf''}
    \<and> derivationStore t = derivationStore s"
proof -
  have dist: "distinct (owned s owner)" using assms(2) by (simp add: ownership_ok_def)
  from assms show ?thesis
    by (rule handleDelete_Inr) (use dist in \<open>auto simp: owned_def Let_def get_quads_def matches_def\<close>)
qed

text \<open>
  dropping a derivation forgets its issuer for every other resource. When an update drops a
  derivation identifier, the issuer of that identifier is gone afterwards, although every other
  registration, and with it every other mention of the identifier, is unchanged.
\<close>

theorem dropped_derivation_forgotten:
  assumes "handlePut policyStorage req owner s = (Inr resp, t)"
    and "obj_get (req_parameters req) ''id'' = Some i" and "registrationStore s i = Some reg"
    and "k \<in> de_derivation_resource_id ` set (derived_entries (Some (reg_description reg)))"
    and "k \<notin> de_derivation_resource_id ` set (derived_entries (Some (decode_description (req_body req))))"
  shows "derivationStore t k = None \<and> (\<forall>j. j \<noteq> i \<longrightarrow> registrationStore t j = registrationStore s j)"
proof -
  from assms(1-3) have set: "setResourceMetadata policyStorage i (decode_description (req_body req)) owner
       (Some (reg_description reg)) s = (Inr (), t)"
    by (auto elim: handlePut_Inr)
  then obtain ca cr ra rr s3 where q: "quiet s s3"
    and t: "t = filed i (decode_description (req_body req)) owner (Some (reg_description reg)) (ca @ ra) (cr @ rr) s3"
    by (blast elim: setResourceMetadata_Inr)
  have "map_of (rev (map (\<lambda>e. (de_derivation_resource_id e, de_issuer e))
      (derived_entries (Some (decode_description (req_body req)))))) k = None"
    using assms(5) by (simp add: map_of_eq_None_iff image_image)
  with assms(4) show ?thesis
    by (auto simp: t update_derivations_apply stored_fields [OF quietD(1) [OF q]])
qed

text \<open>The quads that an update removes: the inverse statements among them have new blank nodes.\<close>

definition fresh_inverse :: "dialog_state \<Rightarrow> quad list \<Rightarrow> dialog_state \<Rightarrow> bool" where
  "fresh_inverse s qs t \<longleftrightarrow> quiet s t \<and>
     (\<forall>q \<in> set qs. predicate q = owl_inverseOf \<longrightarrow> (\<exists>n \<ge> drawn s. subject q = BlankNode (entropy s n)))"

lemma collection_quads_inverse:
  "q \<in> set (collection_quads entry owner c label) \<Longrightarrow> predicate q = owl_inverseOf \<Longrightarrow>
   subject q = BlankNode label"
  by (auto simp: collection_quads_def split: if_splits)

lemma remove_collection_fresh:
  assumes "fold_act (remove_collection owner st) acc es s1 = (Inr out, t)" and "fresh_inverse s acc s1"
  shows "fresh_inverse s out t"
  using assms
proof (rule fold_act_inv)
  fix acc p s1 acc' s2
  assume acc: "fresh_inverse s acc s1" and run: "remove_collection owner st acc p s1 = (Inr acc', s2)"
  obtain k e where p: "p = (k, e)" by fastforce
  from run [unfolded remove_collection_def p prod.case] acc show "fresh_inverse s acc' s2"
  proof (rule fold_act_inv)
    fix acc c s1 acc' s2
    assume acc: "fresh_inverse s acc s1" and run: "remove_one_collection owner st e acc c s1 = (Inr acc', s2)"
    then have acc': "acc' = acc @ collection_quads e owner c (fresh_id s1)"
      and gen: "s2 = (if cm_reverse e then s1\<lparr>drawn := Suc (drawn s1)\<rparr> else s1)"
      by (auto simp: remove_one_collection_def bind_eq_Inr generateCollectionTriples_run split: if_splits)
    have q: "quiet s s1" using acc by (simp add: fresh_inverse_def)
    have "quiet s1 s2" using gen by (auto simp: quiet_def stored_def)
    moreover have "subject p = BlankNode (entropy s (drawn s1))" if
      "p \<in> set (collection_quads e owner c (fresh_id s1))" "predicate p = owl_inverseOf" for p
      using collection_quads_inverse [OF that] by (simp add: fresh_id_def stored_fields [OF quietD(1) [OF q]])
    ultimately show "fresh_inverse s acc' s2"
      using acc quiet.trans [OF q] quietD(2) [OF q] unfolding acc' by (auto simp: fresh_inverse_def)
  qed
qed

text \<open>
  removing a reverse collection leaves its relation behind. No update removes an
  \<open>owl:inverseOf\<close> statement from the policies: the removal builds the statement again with a
  new blank node instead of the stored one. The hypothesis says that the labels of new blank nodes
  do not occur in the policies.
\<close>

theorem reverse_relations_stay:
  assumes "handlePut policyStorage req owner s = (Inr resp, t)"
    and "q \<in> set (policies s)" and "predicate q = owl_inverseOf"
    and fresh: "\<forall>n \<ge> drawn s. subject q \<noteq> BlankNode (entropy s n)"
  shows "q \<in> set (policies t)"
proof -
  let ?d = "decode_description (req_body req)"
  from assms(1) obtain i reg where "registrationStore s i = Some reg" "reg_owner reg = owner"
    and "setResourceMetadata policyStorage i ?d owner (Some (reg_description reg)) s = (Inr (), t)"
    by (blast elim: handlePut_Inr)
  from this(3) obtain ca cr s1 ra rr s3
    where cs: "updateCollections (policies s) i owner ?d (Some (reg_description reg)) s = (Inr (ca, cr), s1)"
      and rs: "updateRelations (policies s) i ?d (Some (reg_description reg)) s1 = (Inr (ra, rr), s3)"
      and q: "quiet s s3"
      and t: "t = filed i ?d owner (Some (reg_description reg)) (ca @ ra) (cr @ rr) s3"
    by (blast elim: setResourceMetadata_Inr)
  from cs obtain add remove s0 where "fold_act (add_collection owner (policies s)) [] add s = (Inr ca, s0)"
    and rem: "fold_act (remove_collection owner (policies s)) [] remove s0 = (Inr cr, s1)"
    by (auto simp: updateCollections_def bind_eq_Inr case_prod_beta)
  moreover have "keeps quiet (fold_act (add_collection owner (policies s)) [] add)"
    by (intro quiet.keeps_fold_act quiet_add_collection)
  ultimately have "fresh_inverse s [] s0" using keepsD by (auto simp: fresh_inverse_def)
  from remove_collection_fresh [OF rem this] fresh assms(3) have "q \<notin> set cr"
    by (auto simp: fresh_inverse_def)
  moreover have "q \<notin> set rr"
  proof -
    from rs obtain es where "generatePartOfTriples (NamedNode i) es (policies s) = Inr rr"
      by (auto simp: updateRelations_def bind_eq_Inr case_prod_beta)
    from generatePartOfTriples_Inr [OF this] assms(3) show ?thesis by auto
  qed
  ultimately show ?thesis
    using assms(2) by (simp add: t stored_fields [OF quietD(1) [OF q]])
qed

subsection \<open>Examples\<close>

definition registration_request :: "string \<Rightarrow> js \<Rightarrow> request" where
  "registration_request m v = \<lparr>req_method = m, req_url = ''https://as/resources'', req_body = v,
     req_authorization = None, req_content_type = None, req_parameters = [(''id'', ''x'')]\<rparr>"

definition container_body :: js where
  "container_body = JObj [(''resource_scopes'', JArr []), (''name'', JStr ''x''),
     (''resource_defaults'', JObj [(''http://www.w3.org/ns/ldp#contains'', JArr [JStr ''read'']),
        (''@reverse'', JObj [(''up'', JArr [JStr ''read''])])]),
     (''derived_from'', JArr [JObj [(''issuer'', JStr ''https://idp''), (''derivation_resource_id'', JStr ''d'')]])]"

definition reverse_quads :: store where
  "reverse_quads = [triple (NamedNode ''col'') (odrl ''source'') (NamedNode ''x''),
     triple (NamedNode ''col'') odrl_p_relation (BlankNode ''b''),
     triple (BlankNode ''b'') owl_inverseOf (NamedNode ''up''),
     triple (NamedNode ''x'') (odrl ''partOf'') (NamedNode ''other'')]"

definition plain_body :: js where
  "plain_body = JObj [(''resource_scopes'', JArr [])]"

abbreviation as_alice :: "request \<Rightarrow> string dialog" where
  "as_alice \<equiv> \<lambda>_. return ''alice''"

definition concat_url :: "string \<Rightarrow> string \<Rightarrow> string" where
  "concat_url a b = a @ ''/'' @ b"

text \<open>With the memory storage put in, so that the examples evaluate.\<close>

definition set_metadata_direct ::
  "string \<Rightarrow> resource_description \<Rightarrow> string \<Rightarrow> resource_description option \<Rightarrow> unit dialog" where
  "set_metadata_direct i d owner prev = (\<lambda>s.
     case updateCollections (policies s) i owner d prev s of
        (Inl e, s1) \<Rightarrow> (Inl e, s1)
      | (Inr (ca, cr), s1) \<Rightarrow>
          (case updateRelations (policies s) i d prev s1 of
             (Inl e, s2) \<Rightarrow> (Inl e, s2)
           | (Inr (ra, rr), s2) \<Rightarrow> (Inr (), filed i d owner prev (ca @ ra) (cr @ rr) s2)))"

lemma setResourceMetadata_direct: "setResourceMetadata policyStorage = set_metadata_direct"
  by (intro ext) (simp add: setResourceMetadata_run set_metadata_direct_def)

lemma leave_collections_direct: "leave_collections policyStorage i = modify (\<lambda>s. s\<lparr>policies :=
    remove_quads (policies s)
     (new_store (get_quads (policies s) (Some (NamedNode i)) (Some (odrl ''partOf'')) None))\<rparr>)"
  by (intro ext) (simp add: leave_collections_run)

lemmas registration_direct = ResourceRegistrationRequestHandler_def handlePost_def handlePut_def
  handleDelete_def setResourceMetadata_direct leave_collections_direct

definition alice_state :: dialog_state where
  "alice_state = empty_state\<lparr>
     registrationStore := [''x'' \<mapsto> \<lparr>reg_owner = ''alice'', reg_description = decode_description container_body\<rparr>],
     ownershipStore := [''alice'' \<mapsto> [''x'']], derivationStore := [''d'' \<mapsto> ''https://idp''],
     policies := reverse_quads\<rparr>"

lemma alice_state_ok: "ownership_ok alice_state"
  by (auto simp: ownership_ok_def owned_def alice_state_def empty_state_def)

lemma alice_state_fresh: "registrationStore alice_state (entropy alice_state n) = None"
  by (simp add: alice_state_def empty_state_def)

lemma registration_ownership_invariant_witness:
  "ownership_ok (snd (ResourceRegistrationRequestHandler concat_url as_alice policyStorage
     (registration_request ''DELETE'' plain_body) alice_state))"
  by (rule registration_ownership_invariant [OF _ alice_state_ok _ prod.collapse [symmetric]])
    (auto intro: quiet.keeps_return simp: alice_state_fresh)

lemma registration_owner_only_witness:
  "fst (ResourceRegistrationRequestHandler concat_url (\<lambda>_. return ''bob'') policyStorage
     (registration_request ''DELETE'' plain_body) alice_state) = Inl Forbidden"
  using registration_owner_only [of "\<lambda>_. return ''bob''" _ alice_state "''bob''" alice_state "''x''",
      OF _ _ _ alice_state_ok _ _ prod.collapse [symmetric]]
  by (simp add: quiet.keeps_return alice_state_fresh registration_request_def)
    (simp add: alice_state_def)

lemma registration_established_witness:
  "registrationStore (snd (handlePost concat_url policyStorage (registration_request ''POST'' container_body)
     ''alice'' empty_state)) ''x'' =
     Some \<lparr>reg_owner = ''alice'', reg_description = decode_description container_body\<rparr>"
proof -
  have "fst (handlePost concat_url policyStorage (registration_request ''POST'' container_body) ''alice'' empty_state)
    = Inr \<lparr>status = 201, content = Registered ''x'' ''https://as/resources/x''\<rparr>"
    unfolding registration_direct by code_simp
  from registration_established [OF run_fst [OF this]]
  show ?thesis by (auto simp: empty_state_def registration_request_def)
qed

lemma registration_deleted_witness:
  "derivationStore (snd (handleDelete policyStorage (registration_request ''DELETE'' plain_body) ''alice''
     alice_state)) ''d'' = Some ''https://idp''"
proof -
  have "fst (handleDelete policyStorage (registration_request ''DELETE'' plain_body) ''alice'' alice_state)
    = Inr \<lparr>status = 204, content = NoContent\<rparr>"
    unfolding registration_direct by code_simp
  from registration_deleted [OF run_fst [OF this] alice_state_ok]
  show ?thesis by (auto simp: alice_state_def)
qed

lemma put_alice:
  "fst (handlePut policyStorage (registration_request ''PUT'' plain_body) ''alice'' alice_state)
     = Inr \<lparr>status = 200, content = Updated ''x''\<rparr>"
  unfolding registration_direct by code_simp

lemma dropped_derivation_forgotten_witness:
  "derivationStore (snd (handlePut policyStorage (registration_request ''PUT'' plain_body) ''alice''
     (alice_state\<lparr>registrationStore := (registrationStore alice_state)
       (''y'' \<mapsto> \<lparr>reg_owner = ''bob'', reg_description = decode_description container_body\<rparr>)\<rparr>))) ''d'' = None"
proof -
  let ?s = "alice_state\<lparr>registrationStore := (registrationStore alice_state)
       (''y'' \<mapsto> \<lparr>reg_owner = ''bob'', reg_description = decode_description container_body\<rparr>)\<rparr>"
  have run: "fst (handlePut policyStorage (registration_request ''PUT'' plain_body) ''alice'' ?s)
     = Inr \<lparr>status = 200, content = Updated ''x''\<rparr>"
    unfolding registration_direct by code_simp
  have "''d'' \<in> de_derivation_resource_id ` set (derived_entries (Some (decode_description container_body)))"
    "''d'' \<notin> de_derivation_resource_id ` set (derived_entries (Some (decode_description plain_body)))"
    by code_simp+
  with dropped_derivation_forgotten [OF run_fst [OF run], of "''x''"
      "\<lparr>reg_owner = ''alice'', reg_description = decode_description container_body\<rparr>" "''d''"]
  show ?thesis by (simp add: registration_request_def alice_state_def)
qed

lemma reverse_relations_stay_witness:
  "triple (BlankNode ''b'') owl_inverseOf (NamedNode ''up'')
     \<in> set (policies (snd (handlePut policyStorage (registration_request ''PUT'' plain_body) ''alice'' alice_state)))"
  by (rule reverse_relations_stay [OF run_fst [OF put_alice]])
    (simp_all add: alice_state_def reverse_quads_def empty_state_def)

end
