(* ===== verification/Clients.thy ===== *)
theory Clients
  imports TokenEndpoint
begin

text \<open>
  Clients and their protection API access tokens (PATs): \<open>routes/ClientRegistration.ts\<close>,
  \<open>routes/token/UmaProtection.ts\<close> and \<open>util/http/validate/PatRequestValidator.ts\<close>. The
  \<open>IndexedStorage\<close> of the Community Solid Server is stated as a locale over its tables, and the
  row lists of the server state are shown to satisfy it.
\<close>

subsection \<open>Indexed storage\<close>

locale indexed_table =
  fixes rows :: "'m \<Rightarrow> 'r set"
    and find :: "('r \<Rightarrow> bool) \<Rightarrow> 'm \<Rightarrow> 'r list"
    and create :: "'r \<Rightarrow> 'm \<Rightarrow> 'm"
    and set_row :: "'r \<Rightarrow> 'm \<Rightarrow> 'm"
    and delete_row :: "string \<Rightarrow> 'm \<Rightarrow> 'm"
    and key :: "'r \<Rightarrow> string"
  assumes set_find: "set (find P m) = {r \<in> rows m. P r}"
    and rows_create: "rows (create r m) = insert r (rows m)"
    and rows_set: "rows (set_row r m) = (\<lambda>x. if key x = key r then r else x) ` rows m"
    and rows_delete: "rows (delete_row i m) = {r \<in> rows m. key r \<noteq> i}"
begin

lemma find_Nil_iff: "find P m = [] \<longleftrightarrow> (\<forall>r \<in> rows m. \<not> P r)"
  using set_find [of P m] by (metis (mono_tags, lifting) empty_Collect_eq set_empty)

lemma find_ConsD: "find P m = r # rs \<Longrightarrow> r \<in> rows m \<and> P r"
  using set_find [of P m] by auto

text \<open>When a field has the searched value in one row only, that row is what is found first.\<close>

lemma find_unique:
  assumes "r \<in> rows m" and "P r" and "\<And>r'. r' \<in> rows m \<Longrightarrow> P r' \<Longrightarrow> r' = r"
  shows "\<exists>rs. find P m = r # rs"
proof (cases "find P m")
  case Nil with assms(1,2) show ?thesis by (auto simp: find_Nil_iff)
next
  case (Cons r' rs) with find_ConsD [OF Cons] assms(3) show ?thesis by auto
qed

lemma found_after_set:
  assumes "r0 \<in> rows m" and "key r0 = key r"
  shows "r \<in> rows (set_row r m)"
  using assms by (force simp: rows_set)

end

definition tbl_find :: "('r \<Rightarrow> bool) \<Rightarrow> 'r list \<Rightarrow> 'r list" where
  "tbl_find P m = filter P m"

definition tbl_create :: "'r \<Rightarrow> 'r list \<Rightarrow> 'r list" where
  "tbl_create r m = m @ [r]"

definition tbl_set :: "('r \<Rightarrow> string) \<Rightarrow> 'r \<Rightarrow> 'r list \<Rightarrow> 'r list" where
  "tbl_set key r m = map (\<lambda>x. if key x = key r then r else x) m"

definition tbl_delete :: "('r \<Rightarrow> string) \<Rightarrow> string \<Rightarrow> 'r list \<Rightarrow> 'r list" where
  "tbl_delete key i m = filter (\<lambda>x. key x \<noteq> i) m"

text \<open>The first result of a search, or the error the code raises when there is none.\<close>

definition first_row :: "error \<Rightarrow> 'r list \<Rightarrow> ('s, 'r) act" where
  "first_row e found = (case found of [] \<Rightarrow> throw e | r # _ \<Rightarrow> return r)"

lemma first_row_Inr [simp]: "first_row e found s = (Inr r, t) \<longleftrightarrow> t = s \<and> (\<exists>rs. found = r # rs)"
  by (cases found) (auto simp: first_row_def)

lemma first_row_Inl [simp]: "first_row e found s = (Inl e', t) \<longleftrightarrow> t = s \<and> e' = e \<and> found = []"
  by (cases found) (auto simp: first_row_def)

lemma first_row_simps [simp]: "first_row e [] = throw e" "first_row e (r # rs) = return r"
  by (simp_all add: first_row_def)

interpretation client_table: indexed_table set tbl_find tbl_create "tbl_set cr_id" "tbl_delete cr_id" cr_id
  by unfold_locales (auto simp: tbl_find_def tbl_create_def tbl_set_def tbl_delete_def)

interpretation pat_table: indexed_table set tbl_find tbl_create "tbl_set pe_id" "tbl_delete pe_id" pe_id
  by unfold_locales (auto simp: tbl_find_def tbl_create_def tbl_set_def tbl_delete_def)

subsection \<open>Registering clients\<close>

definition ClientRegistrationInput :: pattern where
  "ClientRegistrationInput = PObject [(''client_name'', POptional PString), (''client_uri'', PString)]"

record client_view =
  cv_name :: "string option"
  cv_uri :: string
  cv_id :: string

datatype client_body =
    ClientList "client_view list"
  | ClientCreated client_registration string
  | ClientDeleted

definition getClients :: "string \<Rightarrow> client_body response dialog" where
  "getClients user =
     bind (gets (\<lambda>s. tbl_find (\<lambda>c. cr_userId c = user) (clientTable s))) (\<lambda>results.
     return \<lparr>status = 200, content = ClientList (map (\<lambda>c. \<lparr>cv_name = cr_clientName c,
       cv_uri = cr_clientUri c, cv_id = cr_clientId c\<rparr>) results)\<rparr>)"

text \<open>
  The secret comes from \<open>randomBytes\<close> and the row's identifier from the storage; both are drawn
  from the one source of random identifiers.
\<close>

definition registerClient :: "web \<Rightarrow> request \<Rightarrow> string \<Rightarrow> client_body response dialog" where
  "registerClient w req user =
     (if \<not> reType (req_body req) ClientRegistrationInput then throw BadRequest
      else (let uri = decode_string (js_prop (req_body req) ''client_uri'') in
        bind (gets (\<lambda>s. tbl_find (\<lambda>c. cr_userId c = user \<and> cr_clientUri c = uri) (clientTable s))) (\<lambda>found.
        if found \<noteq> [] then throw Conflict
        else bind randomUUID (\<lambda>clientId.
          bind randomUUID (\<lambda>clientSecret.
          bind randomUUID (\<lambda>rowId.
          let row = \<lparr>cr_id = rowId, cr_clientName = js_str (js_prop (req_body req) ''client_name''),
                     cr_clientUri = uri, cr_clientId = clientId, cr_clientSecret = clientSecret,
                     cr_userId = user\<rparr> in
          bind (modify (\<lambda>s. s\<lparr>clientTable := tbl_create row (clientTable s)\<rparr>)) (\<lambda>_.
          return \<lparr>status = 201,
            content = ClientCreated row (joinUrl w (req_url req) (encodeURIComponent clientId))\<rparr>)))))))"

text \<open>
  Deleting a row also deletes the rows that refer to it, as \<open>IndexedStorage\<close> documents for
  references that are not optional; PATs refer to their registration.
\<close>

definition delete_client_row :: "string \<Rightarrow> unit dialog" where
  "delete_client_row i = modify (\<lambda>s. s\<lparr>clientTable := tbl_delete cr_id i (clientTable s),
     patTable := filter (\<lambda>p. pe_registration p \<noteq> i) (patTable s)\<rparr>)"

definition deleteClient :: "request \<Rightarrow> string \<Rightarrow> client_body response dialog" where
  "deleteClient req user =
     (case obj_get (req_parameters req) ''id'' of
        None \<Rightarrow> throw InternalServer
      | Some cid \<Rightarrow>
          bind (gets (\<lambda>s. tbl_find (\<lambda>c. cr_clientId c = cid) (clientTable s))) (\<lambda>found.
          bind (first_row NotFound found) (\<lambda>c.
          if cr_userId c \<noteq> user then throw Forbidden
          else bind (delete_client_row (cr_id c)) (\<lambda>_.
            return \<lparr>status = 204, content = ClientDeleted\<rparr>))))"

text \<open>The user the request acts for: the first string among the WebID claims of its credential.\<close>

definition request_user ::
  "(string option \<Rightarrow> error + credential) \<Rightarrow> verify_fun \<Rightarrow> request \<Rightarrow> string dialog" where
  "request_user parse verify req =
     bind (lift (parse (req_authorization req))) (\<lambda>credential.
     bind (verify credential) (\<lambda>claims.
     case js_strings (case obj_get claims WEBID of None \<Rightarrow> [] | Some vs \<Rightarrow> vs) of
       [] \<Rightarrow> throw Unauthorized
     | user # _ \<Rightarrow> return user))"

definition ClientRegistrationRequestHandler ::
  "(string option \<Rightarrow> error + credential) \<Rightarrow> verify_fun \<Rightarrow> web \<Rightarrow> request \<Rightarrow> client_body response dialog" where
  "ClientRegistrationRequestHandler parse verify w req =
     bind (request_user parse verify req) (\<lambda>user.
     if req_method req = ''GET'' then getClients user
     else if req_method req = ''POST'' then registerClient w req user
     else if req_method req = ''DELETE'' then deleteClient req user
     else throw MethodNotAllowed)"

subsection \<open>Protection API access tokens\<close>

text \<open>
  \<open>matchesAuthorizationScheme('Basic', _)\<close> of the Community Solid Server and the decoding of
  base64 by \<open>Buffer\<close>.
\<close>

record basic_auth =
  is_basic :: "string \<Rightarrow> bool"
  base64_text :: "string \<Rightarrow> string"

definition basic_credentials :: "web \<Rightarrow> basic_auth \<Rightarrow> string \<Rightarrow> error + string \<times> string" where
  "basic_credentials w ba authorization =
     (case split_on (CHR '' '') authorization of
        _ # encoded # _ \<Rightarrow>
          (case split_on (CHR '':'') (base64_text ba encoded) of
             i # rest \<Rightarrow>
               (case (decodeURIComponent w i,
                      decodeURIComponent w (case rest of [] \<Rightarrow> '''' | secret # _ \<Rightarrow> secret)) of
                  (Some cid, Some secret) \<Rightarrow> Inr (cid, secret)
                | _ \<Rightarrow> Inl PlainError)
           | [] \<Rightarrow> Inl PlainError)
      | _ \<Rightarrow> Inl PlainError)"

definition findRegistration ::
  "web \<Rightarrow> basic_auth \<Rightarrow> string option \<Rightarrow> client_registration dialog" where
  "findRegistration w ba authorization =
     (case authorization of
        None \<Rightarrow> throw Unauthorized
      | Some a \<Rightarrow>
          if \<not> is_basic ba a then throw BadRequest
          else bind (lift (basic_credentials w ba a)) (\<lambda>(cid, secret).
            bind (gets (\<lambda>s. tbl_find (\<lambda>c. cr_clientId c = cid \<and> cr_clientSecret c = secret)
                (clientTable s))) (first_row Forbidden)))"

definition pat_payload :: "string \<Rightarrow> client_registration \<Rightarrow> int \<Rightarrow> int \<Rightarrow> string \<Rightarrow> js" where
  "pat_payload baseUrl reg now expires jti = JObj [
     (''scope'', JStr UMA_PROTECTION_SCOPE), (''azp'', JStr (cr_clientId reg)),
     (''client_id'', JStr (cr_clientId reg)), (''iat'', JNum (now div 1000)),
     (''sub'', JStr (cr_userId reg)), (''iss'', JStr baseUrl), (''aud'', JStr baseUrl),
     (''exp'', JNum (expires div 1000)), (''jti'', JStr jti)]"

text \<open>\<open>lifetime\<close> is \<open>tokenExpiration\<close>, in seconds.\<close>

definition generateToken ::
  "jwt_library \<Rightarrow> string \<Rightarrow> int \<Rightarrow> client_registration \<Rightarrow> string option \<Rightarrow> dialog_output dialog" where
  "generateToken lib baseUrl lifetime reg existing =
     bind randomUUID (\<lambda>refresh_token.
     bind (gets clock) (\<lambda>now.
     let expires = now + lifetime * 1000 in
     bind randomUUID (\<lambda>jti.
     let tok = sign_jwt lib (pat_payload baseUrl reg now expires jti);
         row = (\<lambda>i. \<lparr>pe_id = i, pe_pat = tok, pe_expiration = expires,
                     pe_refreshToken = refresh_token, pe_registration = cr_id reg\<rparr>) in
     bind (if truthy_opt existing
           then modify (\<lambda>s. s\<lparr>patTable := tbl_set pe_id (row (the existing)) (patTable s)\<rparr>)
           else bind randomUUID (\<lambda>i. modify (\<lambda>s. s\<lparr>patTable := tbl_create (row i) (patTable s)\<rparr>))) (\<lambda>_.
     return \<lparr>do_access_token = tok, do_refresh_token = Some refresh_token, do_token_type = ''Bearer'',
             do_partial = False, do_expires_in = Some lifetime, do_derivation_resource_id = None\<rparr>))))"

definition handleClientCredentials ::
  "web \<Rightarrow> basic_auth \<Rightarrow> jwt_library \<Rightarrow> string \<Rightarrow> int \<Rightarrow> string option \<Rightarrow> token_body response dialog" where
  "handleClientCredentials w ba lib baseUrl lifetime authorization =
     bind (findRegistration w ba authorization) (\<lambda>reg.
     bind (gets (\<lambda>s. map pe_id (tbl_find (\<lambda>p. pe_registration p = cr_id reg) (patTable s)))) (\<lambda>found.
     bind (generateToken lib baseUrl lifetime reg (case found of [] \<Rightarrow> None | i # _ \<Rightarrow> Some i)) (\<lambda>out.
     return \<lparr>status = 201, content = TokenBody out\<rparr>)))"

definition handleRefreshToken ::
  "web \<Rightarrow> basic_auth \<Rightarrow> jwt_library \<Rightarrow> string \<Rightarrow> int \<Rightarrow> string option \<Rightarrow> string option \<Rightarrow>
   token_body response dialog" where
  "handleRefreshToken w ba lib baseUrl lifetime refreshToken authorization =
     (if \<not> truthy_opt refreshToken then throw BadRequest
      else bind (gets (\<lambda>s. tbl_find (\<lambda>p. pe_refreshToken p = the refreshToken) (patTable s))) (\<lambda>pats.
        bind (first_row Forbidden pats) (\<lambda>p.
        bind (findRegistration w ba authorization) (\<lambda>reg.
        if cr_id reg \<noteq> pe_registration p then throw Forbidden
        else bind (generateToken lib baseUrl lifetime reg (Some (pe_id p))) (\<lambda>out.
          return \<lparr>status = 201, content = TokenBody out\<rparr>)))))"

definition UmaProtection ::
  "web \<Rightarrow> basic_auth \<Rightarrow> jwt_library \<Rightarrow> string \<Rightarrow> int \<Rightarrow> request \<Rightarrow> token_body response dialog" where
  "UmaProtection w ba lib baseUrl lifetime req =
     (if \<not> reType (req_body req) DialogInput then throw BadRequest
      else (let params = decode_input (req_body req) in
        if di_scope params \<noteq> Some UMA_PROTECTION_SCOPE then throw BadRequest
        else if di_grant_type params = Some GRANT_TYPE_CLIENT_CREDENTIALS
        then handleClientCredentials w ba lib baseUrl lifetime (req_authorization req)
        else if di_grant_type params = Some GRANT_TYPE_REFRESH_TOKEN
        then handleRefreshToken w ba lib baseUrl lifetime (di_refresh_token params) (req_authorization req)
        else throw BadRequest))"

subsection \<open>Validating requests\<close>

definition lower_char :: "char \<Rightarrow> char" where
  "lower_char c = (let n = of_char c :: nat in if 65 \<le> n \<and> n \<le> 90 then char_of (n + 32) else c)"

text \<open>\<open>/^Bearer /ui.test(a)\<close>, and \<open>a.replace(/^Bearer/, '').trimStart()\<close>.\<close>

definition bearer_scheme :: "string \<Rightarrow> bool" where
  "bearer_scheme a = (map lower_char (take 7 a) = ''bearer '')"

definition bearer_token :: "string \<Rightarrow> string" where
  "bearer_token a = dropWhile is_space (if starts_with ''Bearer'' a then drop 6 a else a)"

definition PatRequestValidator :: "request \<Rightarrow> string dialog" where
  "PatRequestValidator req =
     (if \<not> truthy_opt (req_authorization req) \<or> \<not> bearer_scheme (the (req_authorization req))
      then throw Unauthorized
      else bind (gets (\<lambda>s. tbl_find (\<lambda>p. pe_pat p = bearer_token (the (req_authorization req))) (patTable s))) (\<lambda>entries.
        bind (first_row Forbidden entries) (\<lambda>p.
        bind (gets clock) (\<lambda>now.
        if pe_expiration p < now then throw Forbidden
        else bind (gets (\<lambda>s. tbl_find (\<lambda>c. cr_id c = pe_registration p) (clientTable s))) (\<lambda>regs.
          bind (first_row InternalServer regs) (\<lambda>c. return (cr_userId c)))))))"

subsection \<open>What the operations do to the tables\<close>

lemma findRegistration_Inr:
  assumes "findRegistration w ba a s = (Inr c, t)"
  shows "t = s" and "c \<in> set (clientTable s)"
    and "\<exists>h. a = Some h \<and> is_basic ba h \<and> basic_credentials w ba h = Inr (cr_clientId c, cr_clientSecret c)"
  using assms
  by (auto simp: findRegistration_def bind_eq_Inr dest!: client_table.find_ConsD
      split: option.splits if_splits)

lemma findRegistration_Inl: "findRegistration w ba a s = (Inl e, t) \<Longrightarrow> t = s"
  by (auto simp: findRegistration_def bind_eq_Inl split: option.splits if_splits)

definition issued_row ::
  "jwt_library \<Rightarrow> string \<Rightarrow> int \<Rightarrow> client_registration \<Rightarrow> dialog_state \<Rightarrow> string \<Rightarrow> pat_entry" where
  "issued_row lib baseUrl lifetime reg s i = \<lparr>pe_id = i,
     pe_pat = sign_jwt lib (pat_payload baseUrl reg (clock s) (clock s + lifetime * 1000)
       (entropy s (Suc (drawn s)))),
     pe_expiration = clock s + lifetime * 1000, pe_refreshToken = entropy s (drawn s),
     pe_registration = cr_id reg\<rparr>"

lemma issued_row_sel [simp]:
  "pe_id (issued_row lib baseUrl lifetime reg s i) = i"
  "pe_expiration (issued_row lib baseUrl lifetime reg s i) = clock s + lifetime * 1000"
  "pe_refreshToken (issued_row lib baseUrl lifetime reg s i) = entropy s (drawn s)"
  "pe_registration (issued_row lib baseUrl lifetime reg s i) = cr_id reg"
  by (simp_all add: issued_row_def)

definition issued_output :: "pat_entry \<Rightarrow> int \<Rightarrow> dialog_output" where
  "issued_output row lifetime = \<lparr>do_access_token = pe_pat row, do_refresh_token = Some (pe_refreshToken row),
     do_token_type = ''Bearer'', do_partial = False, do_expires_in = Some lifetime,
     do_derivation_resource_id = None\<rparr>"

lemma generateToken_run:
  "generateToken lib baseUrl lifetime reg existing s =
     (let row = issued_row lib baseUrl lifetime reg s in
      if truthy_opt existing
      then (Inr (issued_output (row (the existing)) lifetime),
            s\<lparr>drawn := drawn s + 2, patTable := tbl_set pe_id (row (the existing)) (patTable s)\<rparr>)
      else (Inr (issued_output (row (entropy s (drawn s + 2))) lifetime),
            s\<lparr>drawn := drawn s + 3, patTable := tbl_create (row (entropy s (drawn s + 2))) (patTable s)\<rparr>))"
  by (simp add: generateToken_def bind_def return_def randomUUID_def Let_def issued_row_def
      issued_output_def fresh_id_def)

lemma generateToken_total: "\<exists>out t'. generateToken lib baseUrl lifetime reg existing s = (Inr out, t')
    \<and> do_token_type out = ''Bearer''"
  by (simp add: generateToken_run Let_def issued_output_def)

subsection \<open>The invariant of the two tables\<close>

text \<open>
  Identifiers are unique, a client is registered once per user and URI, every PAT belongs to a
  registered client, and a client has at most one PAT.
\<close>

definition clients_ok :: "dialog_state \<Rightarrow> bool" where
  "clients_ok s \<longleftrightarrow> distinct (map cr_id (clientTable s)) \<and> distinct (map cr_clientId (clientTable s))
     \<and> distinct (map (\<lambda>c. (cr_userId c, cr_clientUri c)) (clientTable s))
     \<and> distinct (map pe_id (patTable s)) \<and> distinct (map pe_registration (patTable s))
     \<and> (\<forall>p \<in> set (patTable s). pe_id p \<noteq> '''' \<and> pe_registration p \<in> cr_id ` set (clientTable s))"

text \<open>The identifiers still to be drawn are not empty, pairwise different and not in use.\<close>

definition fresh_source :: "dialog_state \<Rightarrow> bool" where
  "fresh_source s \<longleftrightarrow> inj_on (entropy s) {drawn s..} \<and> (\<forall>n \<ge> drawn s. entropy s n \<noteq> ''''
     \<and> entropy s n \<notin> cr_id ` set (clientTable s) \<and> entropy s n \<notin> cr_clientId ` set (clientTable s)
     \<and> entropy s n \<notin> pe_id ` set (patTable s) \<and> entropy s n \<notin> pe_refreshToken ` set (patTable s))"

lemma drops_clients: "drops_refresh s t \<Longrightarrow> clients_ok s \<Longrightarrow> clients_ok t"
  by (simp add: clients_ok_def drops_refresh_fields)

lemma drops_fresh: "drops_refresh s t \<Longrightarrow> fresh_source s \<Longrightarrow> fresh_source t"
proof -
  assume d: "drops_refresh s t" and f: "fresh_source s"
  have "{drawn t..} \<subseteq> {drawn s..}" using drops_refresh_fields(9) [OF d] by auto
  with d f show "fresh_source t"
    unfolding fresh_source_def drops_refresh_fields [OF d] by (auto intro: inj_on_subset)
qed

lemma map_tbl_set:
  assumes "distinct (map key m)" and "r0 \<in> set m" and "key r0 = key r" and "f r = f r0"
  shows "map f (tbl_set key r m) = map f m"
proof -
  have "x = r0" if "x \<in> set m" "key x = key r" for x
    using assms(1-3) that by (metis distinct_map inj_onD)
  then show ?thesis using assms(4) by (auto simp: tbl_set_def)
qed

text \<open>Replacing a client's PAT, and adding one for a client without a PAT, keep the invariant.\<close>

lemma clients_replace:
  assumes "clients_ok s" and "p \<in> set (patTable s)" and "pe_id r = pe_id p"
    and "pe_registration r = pe_registration p" and "patTable t = tbl_set pe_id r (patTable s)"
    and "clientTable t = clientTable s"
  shows "clients_ok t"
proof -
  have "map pe_id (patTable t) = map pe_id (patTable s)"
    "map pe_registration (patTable t) = map pe_registration (patTable s)"
    using assms(1-4) by (simp_all add: assms(5) clients_ok_def map_tbl_set [of pe_id _ p])
  moreover have "\<forall>q \<in> set (patTable t). pe_id q \<noteq> '''' \<and> pe_registration q \<in> cr_id ` set (clientTable s)"
    using assms(1-4) by (auto simp: assms(5) tbl_set_def clients_ok_def)
  ultimately show ?thesis using assms(1,6) by (simp add: clients_ok_def)
qed

lemma clients_add:
  assumes "clients_ok s" and "pe_registration r \<notin> pe_registration ` set (patTable s)"
    and "pe_id r \<notin> pe_id ` set (patTable s)" and "pe_id r \<noteq> ''''"
    and "pe_registration r \<in> cr_id ` set (clientTable s)"
    and "patTable t = tbl_create r (patTable s)" and "clientTable t = clientTable s"
  shows "clients_ok t"
  using assms by (auto simp: clients_ok_def tbl_create_def)

subsection \<open>Issuing\<close>

text \<open>
  What a successful request issued: the client whose credentials it carried, the row, and where
  the row went.
\<close>

definition issued ::
  "jwt_library \<Rightarrow> string \<Rightarrow> int \<Rightarrow> client_registration \<Rightarrow> pat_entry \<Rightarrow> dialog_state \<Rightarrow> dialog_state \<Rightarrow> bool" where
  "issued lib baseUrl lifetime reg row s t \<longleftrightarrow> reg \<in> set (clientTable s)
     \<and> row = issued_row lib baseUrl lifetime reg s (pe_id row)
     \<and> ((\<exists>p \<in> set (patTable s). pe_id row = pe_id p \<and> pe_registration p = cr_id reg
          \<and> t = s\<lparr>drawn := drawn s + 2, patTable := tbl_set pe_id row (patTable s)\<rparr>)
        \<or> (cr_id reg \<notin> pe_registration ` set (patTable s) \<and> pe_id row = entropy s (drawn s + 2)
          \<and> t = s\<lparr>drawn := drawn s + 3, patTable := tbl_create row (patTable s)\<rparr>))"

lemma client_credentials_issue:
  assumes "handleClientCredentials w ba lib baseUrl lifetime a s = (Inr resp, t)" and "clients_ok s"
  shows "\<exists>reg row. issued lib baseUrl lifetime reg row s t
    \<and> resp = \<lparr>status = 201, content = TokenBody (issued_output row lifetime)\<rparr>
    \<and> (\<exists>h. a = Some h \<and> basic_credentials w ba h = Inr (cr_clientId reg, cr_clientSecret reg))"
proof -
  from assms(1) obtain reg where reg: "findRegistration w ba a s = (Inr reg, s)"
    and gen: "bind (generateToken lib baseUrl lifetime reg
        (case map pe_id (tbl_find (\<lambda>p. pe_registration p = cr_id reg) (patTable s)) of
           [] \<Rightarrow> None | i # _ \<Rightarrow> Some i)) (\<lambda>out. return \<lparr>status = 201, content = TokenBody out\<rparr>) s
      = (Inr resp, t)"
    by (auto simp: handleClientCredentials_def bind_eq_Inr dest: findRegistration_Inr(1))
  note found = findRegistration_Inr [OF reg]
  show ?thesis
  proof (cases "tbl_find (\<lambda>p. pe_registration p = cr_id reg) (patTable s)")
    case Nil
    then have "cr_id reg \<notin> pe_registration ` set (patTable s)" by (auto simp: pat_table.find_Nil_iff)
    with gen found(2,3) Nil show ?thesis
      by (intro exI [of _ reg] exI [of _ "issued_row lib baseUrl lifetime reg s (entropy s (drawn s + 2))"])
        (auto simp: bind_eq_Inr generateToken_run Let_def issued_def)
  next
    case (Cons p ps)
    have p: "p \<in> set (patTable s)" "pe_registration p = cr_id reg" using pat_table.find_ConsD [OF Cons] by auto
    then have "pe_id p \<noteq> ''''" using assms(2) by (simp add: clients_ok_def)
    with gen found(2,3) Cons p show ?thesis
      by (intro exI [of _ reg] exI [of _ "issued_row lib baseUrl lifetime reg s (pe_id p)"])
        (auto simp: bind_eq_Inr generateToken_run Let_def issued_def)
  qed
qed

lemma refresh_issue:
  assumes "handleRefreshToken w ba lib baseUrl lifetime rt a s = (Inr resp, t)" and "clients_ok s"
  shows "\<exists>reg row. issued lib baseUrl lifetime reg row s t
    \<and> resp = \<lparr>status = 201, content = TokenBody (issued_output row lifetime)\<rparr>
    \<and> (\<exists>h. a = Some h \<and> basic_credentials w ba h = Inr (cr_clientId reg, cr_clientSecret reg))
    \<and> (\<exists>p \<in> set (patTable s). rt = Some (pe_refreshToken p) \<and> pe_registration p = cr_id reg)"
proof -
  from assms(1) have truthy: "truthy_opt rt" by (auto simp: handleRefreshToken_def split: if_splits)
  then obtain r where rt: "rt = Some r" by (metis truthy_optD)
  from assms(1) truthy rt obtain p ps reg s' where
    p: "tbl_find (\<lambda>p. pe_refreshToken p = r) (patTable s) = p # ps"
    and reg': "findRegistration w ba a s = (Inr reg, s')" and same: "pe_registration p = cr_id reg"
    and gen: "bind (generateToken lib baseUrl lifetime reg (Some (pe_id p)))
        (\<lambda>out. return \<lparr>status = 201, content = TokenBody out\<rparr>) s' = (Inr resp, t)"
    by (auto simp: handleRefreshToken_def bind_eq_Inr split: if_splits)
  have "s' = s" by (rule findRegistration_Inr(1) [OF reg'])
  note reg = reg' [unfolded this] and gen = gen [unfolded this]
  note found = findRegistration_Inr [OF reg]
  have p: "p \<in> set (patTable s)" "pe_refreshToken p = r" using pat_table.find_ConsD [OF p] by auto
  then have "pe_id p \<noteq> ''''" using assms(2) by (simp add: clients_ok_def)
  with gen found(2,3) p same rt show ?thesis
    by (intro exI [of _ reg] exI [of _ "issued_row lib baseUrl lifetime reg s (pe_id p)"])
      (auto simp: bind_eq_Inr generateToken_run Let_def issued_def)
qed

lemma issued_ok:
  assumes "issued lib baseUrl lifetime reg row s t" and "clients_ok s" and "fresh_source s"
  shows "clients_ok t"
proof -
  from assms(1) have reg: "reg \<in> set (clientTable s)"
    and row: "row = issued_row lib baseUrl lifetime reg s (pe_id row)" by (simp_all add: issued_def)
  have row_reg: "pe_registration row = cr_id reg" by (subst row) simp
  from assms(1) consider p where "p \<in> set (patTable s)" "pe_id row = pe_id p" "pe_registration p = cr_id reg"
      "t = s\<lparr>drawn := drawn s + 2, patTable := tbl_set pe_id row (patTable s)\<rparr>"
    | "cr_id reg \<notin> pe_registration ` set (patTable s)" "pe_id row = entropy s (drawn s + 2)"
      "t = s\<lparr>drawn := drawn s + 3, patTable := tbl_create row (patTable s)\<rparr>"
    by (auto simp: issued_def)
  then show ?thesis
  proof cases
    case (1 p)
    show ?thesis by (rule clients_replace [OF assms(2) 1(1,2)]) (simp_all add: 1(3,4) row_reg)
  next
    case 2
    show ?thesis
      by (rule clients_add [OF assms(2)]) (use 2 reg assms(3) in \<open>auto simp: row_reg fresh_source_def\<close>)
  qed
qed

lemma uma_protection_cases:
  assumes "UmaProtection w ba lib baseUrl lifetime req s = (r, t)" and "clients_ok s"
  obtains e where "r = Inl e" "t = s"
  | reg row h where "issued lib baseUrl lifetime reg row s t"
      "r = Inr \<lparr>status = 201, content = TokenBody (issued_output row lifetime)\<rparr>"
      "req_authorization req = Some h" "basic_credentials w ba h = Inr (cr_clientId reg, cr_clientSecret reg)"
      "di_grant_type (decode_input (req_body req)) = Some GRANT_TYPE_REFRESH_TOKEN \<Longrightarrow>
         \<exists>p \<in> set (patTable s). di_refresh_token (decode_input (req_body req)) = Some (pe_refreshToken p)
           \<and> pe_registration p = cr_id reg"
proof (cases r)
  case (Inl e)
  have "t = s"
    using assms(1) Inl
    by (auto simp: UmaProtection_def Let_def handleClientCredentials_def handleRefreshToken_def bind_eq_Inl
        generateToken_run dest: findRegistration_Inl findRegistration_Inr(1) split: if_splits)
  with Inl show thesis by (rule that(1))
next
  case (Inr resp)
  with assms(1) consider
      "di_grant_type (decode_input (req_body req)) = Some GRANT_TYPE_CLIENT_CREDENTIALS"
      "handleClientCredentials w ba lib baseUrl lifetime (req_authorization req) s = (Inr resp, t)"
    | "di_grant_type (decode_input (req_body req)) = Some GRANT_TYPE_REFRESH_TOKEN"
      "handleRefreshToken w ba lib baseUrl lifetime (di_refresh_token (decode_input (req_body req)))
         (req_authorization req) s = (Inr resp, t)"
    by (auto simp: UmaProtection_def Let_def split: if_splits)
  then show thesis
  proof cases
    case 1
    with client_credentials_issue [OF 1(2) assms(2)] Inr that(2) show thesis by auto
  next
    case 2
    with refresh_issue [OF 2(2) assms(2)] Inr that(2) show thesis by auto
  qed
qed

lemma request_user_drops:
  "verifier verify \<Longrightarrow> keeps drops_refresh (request_user parse verify req)"
  unfolding request_user_def by (intro drops.intros verifier.verify_frame)

lemma registerClient_ok:
  assumes "clients_ok s" and "fresh_source s"
  shows "clients_ok (snd (registerClient w req user s))"
proof -
  let ?uri = "decode_string (js_prop (req_body req) ''client_uri'')"
  let ?d = "drawn s"
  have ne: "entropy s n \<noteq> entropy s m" if "n \<noteq> m" "n \<ge> ?d" "m \<ge> ?d" for n m
    using assms(2) that by (auto simp: fresh_source_def dest: inj_onD)
  show ?thesis
  proof (cases "reType (req_body req) ClientRegistrationInput
      \<and> tbl_find (\<lambda>c. cr_userId c = user \<and> cr_clientUri c = ?uri) (clientTable s) = []")
    case False then show ?thesis using assms(1) by (auto simp: registerClient_def Let_def)
  next
    case True
    then have "(user, ?uri) \<notin> (\<lambda>c. (cr_userId c, cr_clientUri c)) ` set (clientTable s)"
      by (auto simp: client_table.find_Nil_iff)
    with True assms show ?thesis
      by (auto simp: registerClient_def Let_def clients_ok_def tbl_create_def fresh_id_def fresh_source_def)
  qed
qed

lemma deleteClient_ok:
  assumes "clients_ok s"
  shows "clients_ok (snd (deleteClient req user s))"
proof -
  have del: "clients_ok (snd (delete_client_row i s))" for i
    using assms unfolding clients_ok_def delete_client_row_def
    by (auto simp: tbl_delete_def distinct_map_filter)
  show ?thesis
  proof (cases "obj_get (req_parameters req) ''id''")
    case None with assms show ?thesis by (simp add: deleteClient_def)
  next
    case (Some cid)
    then show ?thesis
      using assms del [unfolded delete_client_row_def, simplified]
      by (cases "tbl_find (\<lambda>c. cr_clientId c = cid) (clientTable s)")
        (auto simp: deleteClient_def delete_client_row_def)
  qed
qed

text \<open>
  C38: the client tables stay consistent under every request. Whatever is sent to the token
  endpoint with the protection scope or to the client endpoint, and whatever the outcome:
  identifiers stay unique, a user registers a URI once, each client has at most one PAT and no PAT
  outlives its client. The hypotheses: the verifier keeps its contract, and the identifiers still
  to be drawn are new.
\<close>

theorem client_tables_invariant:
  assumes "clients_ok s" and "fresh_source s" and "verifier verify"
  shows "clients_ok (snd (UmaProtection w ba lib baseUrl lifetime preq s))
    \<and> clients_ok (snd (ClientRegistrationRequestHandler parse verify w creq s))"
proof
  obtain r t where run: "UmaProtection w ba lib baseUrl lifetime preq s = (r, t)" by fastforce
  from run assms(1) show "clients_ok (snd (UmaProtection w ba lib baseUrl lifetime preq s))"
    by (cases rule: uma_protection_cases) (use assms run in \<open>auto intro: issued_ok\<close>)
next
  obtain r s0 where run: "request_user parse verify creq s = (r, s0)" by fastforce
  have d: "drops_refresh s s0" by (rule keepsD [OF request_user_drops [OF assms(3)] run])
  note ok = drops_clients [OF d assms(1)] drops_fresh [OF d assms(2)]
  have "snd (getClients user s0) = s0" for user by (simp add: getClients_def)
  with ok show "clients_ok (snd (ClientRegistrationRequestHandler parse verify w creq s))"
    by (auto simp: ClientRegistrationRequestHandler_def bind_def run registerClient_ok deleteClient_ok
        split: sum.split)
qed

subsection \<open>Accepting PATs\<close>

definition bearer :: "string \<Rightarrow> string" where
  "bearer tok = ''Bearer '' @ tok"

text \<open>A token a header can carry: it does not start with white space.\<close>

definition header_token :: "string \<Rightarrow> bool" where
  "header_token tok = (tok \<noteq> [] \<and> \<not> is_space (hd tok))"

lemma bearer_token_bearer: "header_token tok \<Longrightarrow> bearer_token (bearer tok) = tok"
proof -
  have "is_space (CHR '' '')" by code_simp
  then show "header_token tok \<Longrightarrow> bearer_token (bearer tok) = tok"
    by (cases tok) (auto simp: bearer_token_def bearer_def header_token_def starts_with_def)
qed

lemma bearer_scheme_bearer: "bearer_scheme (bearer tok)"
proof -
  have "map lower_char ''Bearer '' = ''bearer ''" by code_simp
  then show ?thesis by (simp add: bearer_scheme_def bearer_def)
qed

lemma validator_run:
  assumes "req_authorization req = Some (bearer tok)" and "header_token tok"
  shows "PatRequestValidator req s =
    (case tbl_find (\<lambda>p. pe_pat p = tok) (patTable s) of
       [] \<Rightarrow> (Inl Forbidden, s)
     | p # _ \<Rightarrow> if pe_expiration p < clock s then (Inl Forbidden, s)
         else (case tbl_find (\<lambda>c. cr_id c = pe_registration p) (clientTable s) of
             [] \<Rightarrow> (Inl InternalServer, s) | c # _ \<Rightarrow> (Inr (cr_userId c), s)))"
proof -
  have "bearer tok \<noteq> []" by (simp add: bearer_def)
  with assms show ?thesis
    by (simp add: PatRequestValidator_def bearer_token_bearer bearer_scheme_bearer split: list.split)
qed

lemma validator_state: "snd (PatRequestValidator req s) = s"
proof -
  have first: "snd (first_row e xs s) = s" for e and xs :: "'x list"
    by (cases xs) simp_all
  show ?thesis
    by (auto simp: PatRequestValidator_def first_row_def split: list.split)
qed

lemma validator_quiet: "keeps quiet (PatRequestValidator req)"
  by (simp add: keeps_def validator_state quiet.refl)

text \<open>The row of a client is the one its identifier finds.\<close>

lemma find_client:
  assumes "clients_ok s" and "c \<in> set (clientTable s)"
  shows "\<exists>rs. tbl_find (\<lambda>c'. cr_id c' = cr_id c) (clientTable s) = c # rs"
  by (rule client_table.find_unique [OF assms(2)])
    (use assms in \<open>auto simp: clients_ok_def distinct_map dest: inj_onD\<close>)

lemma issued_tables:
  assumes "issued lib baseUrl lifetime reg row s t" and "clients_ok s"
  shows "clientTable t = clientTable s" and "clock t = clock s" and "reg \<in> set (clientTable s)"
    and "pe_registration row = cr_id reg" and "pe_expiration row = clock s + lifetime * 1000"
    and "pe_refreshToken row = entropy s (drawn s)"
    and "set (patTable t) = insert row {p \<in> set (patTable s). pe_registration p \<noteq> cr_id reg}"
proof -
  from assms(1) have row: "row = issued_row lib baseUrl lifetime reg s (pe_id row)" by (simp add: issued_def)
  show "pe_registration row = cr_id reg" "pe_expiration row = clock s + lifetime * 1000"
    "pe_refreshToken row = entropy s (drawn s)"
    by (subst row, simp)+
  show "clientTable t = clientTable s" "clock t = clock s" "reg \<in> set (clientTable s)"
    using assms(1) by (auto simp: issued_def)
  from assms(1) consider p where "p \<in> set (patTable s)" "pe_id row = pe_id p" "pe_registration p = cr_id reg"
      "patTable t = tbl_set pe_id row (patTable s)"
    | "cr_id reg \<notin> pe_registration ` set (patTable s)" "patTable t = tbl_create row (patTable s)"
    by (auto simp: issued_def)
  then show "set (patTable t) = insert row {p \<in> set (patTable s). pe_registration p \<noteq> cr_id reg}"
  proof cases
    case (1 p)
    have inj: "inj_on pe_id (set (patTable s))" "inj_on pe_registration (set (patTable s))"
      using assms(2) by (simp_all add: clients_ok_def distinct_map)
    have ident: "pe_id q = pe_id p \<longleftrightarrow> q = p" "pe_registration q = pe_registration p \<longleftrightarrow> q = p"
      if "q \<in> set (patTable s)" for q
      using inj_on_eq_iff [OF inj(1) that 1(1)] inj_on_eq_iff [OF inj(2) that 1(1)] by simp_all
    have "set (patTable t) = (\<lambda>q. if q = p then row else q) ` set (patTable s)"
      using 1(2) ident(1) by (auto simp: 1(4) tbl_set_def)
    also have "\<dots> = insert row {q \<in> set (patTable s). q \<noteq> p}"
      using 1(1) by auto
    also have "{q \<in> set (patTable s). q \<noteq> p} = {q \<in> set (patTable s). pe_registration q \<noteq> cr_id reg}"
      using ident(2) 1(3) by auto
    finally show ?thesis .
  next
    case 2
    then have "pe_registration q \<noteq> cr_id reg" if "q \<in> set (patTable s)" for q
      using that by (metis image_eqI)
    with 2(2) show ?thesis by (auto simp: tbl_create_def)
  qed
qed

text \<open>
  an issued PAT acts for its user until it expires. After a successful request to the token
  endpoint with the protection scope, the client named by the Basic credentials exists, and a
  request with the issued token as bearer is accepted for the client's user as long as the life
  time has not passed, and forbidden after it. The hypotheses: the signed token is new and can be
  carried by a header.
\<close>

theorem pat_accepted_until_expiry:
  assumes "UmaProtection w ba lib baseUrl lifetime req s = (Inr resp, t)" and "clients_ok s"
  shows "\<exists>out reg h. resp = \<lparr>status = 201, content = TokenBody out\<rparr> \<and> reg \<in> set (clientTable s)
    \<and> req_authorization req = Some h
    \<and> basic_credentials w ba h = Inr (cr_clientId reg, cr_clientSecret reg)
    \<and> (header_token (do_access_token out) \<longrightarrow> do_access_token out \<notin> pe_pat ` set (patTable s) \<longrightarrow>
       req_authorization vreq = Some (bearer (do_access_token out)) \<longrightarrow>
       PatRequestValidator vreq (t\<lparr>clock := now\<rparr>) =
         (if now \<le> clock s + lifetime * 1000 then Inr (cr_userId reg) else Inl Forbidden, t\<lparr>clock := now\<rparr>))"
  using assms(1,2)
proof (cases rule: uma_protection_cases)
  case (2 reg row h)
  note tab = issued_tables [OF 2(1) assms(2)]
  have out: "do_access_token (issued_output row lifetime) = pe_pat row" by (simp add: issued_output_def)
  have "PatRequestValidator vreq (t\<lparr>clock := now\<rparr>) =
      (if now \<le> clock s + lifetime * 1000 then Inr (cr_userId reg) else Inl Forbidden, t\<lparr>clock := now\<rparr>)"
    if "header_token (pe_pat row)" and new: "pe_pat row \<notin> pe_pat ` set (patTable s)"
      and "req_authorization vreq = Some (bearer (pe_pat row))"
  proof -
    obtain rs where pat: "tbl_find (\<lambda>p. pe_pat p = pe_pat row) (patTable t) = row # rs"
    proof -
      have "row \<in> set (patTable t)" using tab(7) by simp
      moreover have "r' = row" if "r' \<in> set (patTable t)" "pe_pat r' = pe_pat row" for r'
        using that new tab(7) by (metis (mono_tags, lifting) image_eqI insertE mem_Collect_eq)
      ultimately show thesis
        using pat_table.find_unique [of row "patTable t" "\<lambda>p. pe_pat p = pe_pat row"] that by blast
    qed
    obtain cs where cl: "tbl_find (\<lambda>c. cr_id c = cr_id reg) (clientTable s) = reg # cs"
      using find_client [OF assms(2) tab(3)] by auto
    show ?thesis by (simp add: validator_run [OF that(3,1)] pat cl tab)
  qed
  with 2 tab(3) out show ?thesis by auto
qed simp

text \<open>
  a new PAT ends the old one. Issuing a token for a client, by its credentials or by its
  refresh token, makes the client's previous PAT and previous refresh token unusable: a request
  with the old PAT and a refresh with the old refresh token are forbidden. The hypotheses: PATs
  and refresh tokens of different clients differ, and new ones differ from the old.
\<close>

theorem pat_superseded:
  assumes "UmaProtection w ba lib baseUrl lifetime req s = (Inr resp, t)" and "clients_ok s" and "fresh_source s"
    and "distinct (map pe_pat (patTable s))" and "distinct (map pe_refreshToken (patTable s))"
    and "\<forall>out. content resp = TokenBody out \<longrightarrow> do_access_token out \<notin> pe_pat ` set (patTable s)"
    and old: "p \<in> set (patTable s)" "pe_refreshToken p \<noteq> ''''" "header_token (pe_pat p)"
    and same_client: "\<forall>c \<in> set (clientTable s). \<forall>h. req_authorization req = Some h
      \<and> basic_credentials w ba h = Inr (cr_clientId c, cr_clientSecret c) \<longrightarrow> cr_id c = pe_registration p"
    and "req_authorization vreq = Some (bearer (pe_pat p))"
  shows "PatRequestValidator vreq t = (Inl Forbidden, t)
    \<and> handleRefreshToken w ba lib baseUrl lifetime (Some (pe_refreshToken p)) a t = (Inl Forbidden, t)"
  using assms(1,2)
proof (cases rule: uma_protection_cases)
  case (2 reg row h)
  note tab = issued_tables [OF 2(1) assms(2)]
  have reg: "cr_id reg = pe_registration p" using same_client tab(3) 2(3,4) by blast
  have new: "pe_pat row \<notin> pe_pat ` set (patTable s)"
    using assms(6) 2(2) by (simp add: issued_output_def)
  have newr: "entropy s (drawn s) \<notin> pe_refreshToken ` set (patTable s)"
    using assms(3) by (simp add: fresh_source_def)
  have "pe_pat q \<noteq> pe_pat p \<and> pe_refreshToken q \<noteq> pe_refreshToken p" if "q \<in> set (patTable t)" for q
  proof (cases "q = row")
    case True with new newr old(1) tab(6) show ?thesis by (metis image_eqI)
  next
    case False
    with that tab(7) have q: "q \<in> set (patTable s)" "pe_registration q \<noteq> pe_registration p"
      using reg by auto
    then show ?thesis using assms(4,5) old(1) by (auto simp: distinct_map dest: inj_onD)
  qed
  then have "tbl_find (\<lambda>q. pe_pat q = pe_pat p) (patTable t) = []"
    "tbl_find (\<lambda>q. pe_refreshToken q = pe_refreshToken p) (patTable t) = []"
    by (simp_all add: pat_table.find_Nil_iff)
  then show ?thesis using old(2)
    by (simp add: validator_run [OF assms(11) old(3)] handleRefreshToken_def)
qed simp

text \<open>
  C20: what the validator accepts. It changes nothing; an accepted request carries a stored PAT
  that has not expired, and the owner it reports is the user of the client the PAT was issued to.
  While the tables are consistent, every other request is unauthorized or forbidden: a PAT without
  a client, the internal error, does not occur.
\<close>

theorem validator_exact:
  assumes "clients_ok s" and "PatRequestValidator req s = (r, t)"
  shows "t = s \<and> (case r of
      Inr owner \<Rightarrow> \<exists>h p c. req_authorization req = Some h \<and> bearer_scheme h
        \<and> p \<in> set (patTable s) \<and> pe_pat p = bearer_token h \<and> clock s \<le> pe_expiration p
        \<and> c \<in> set (clientTable s) \<and> cr_id c = pe_registration p \<and> owner = cr_userId c
    | Inl e \<Rightarrow> e \<in> {Unauthorized, Forbidden})"
proof
  show state: "t = s" using validator_state [of req s] assms(2) by simp
  show "case r of
      Inr owner \<Rightarrow> \<exists>h p c. req_authorization req = Some h \<and> bearer_scheme h
        \<and> p \<in> set (patTable s) \<and> pe_pat p = bearer_token h \<and> clock s \<le> pe_expiration p
        \<and> c \<in> set (clientTable s) \<and> cr_id c = pe_registration p \<and> owner = cr_userId c
    | Inl e \<Rightarrow> e \<in> {Unauthorized, Forbidden}"
  proof (cases r)
    case (Inr owner)
    with assms(2) obtain p ps c cs where h: "truthy_opt (req_authorization req)"
        "bearer_scheme (the (req_authorization req))"
      and p: "tbl_find (\<lambda>p. pe_pat p = bearer_token (the (req_authorization req))) (patTable s) = p # ps"
      and "clock s \<le> pe_expiration p"
      and c: "tbl_find (\<lambda>c. cr_id c = pe_registration p) (clientTable s) = c # cs" "owner = cr_userId c"
      by (auto simp: PatRequestValidator_def bind_eq_Inr split: if_splits)
    with pat_table.find_ConsD [OF p] client_table.find_ConsD [OF c(1)] truthy_optD [OF h(1)] Inr
    show ?thesis by auto
  next
    case (Inl e)
    have ref: "tbl_find (\<lambda>c. cr_id c = pe_registration p) (clientTable s) \<noteq> []" if "p \<in> set (patTable s)" for p
    proof -
      from assms(1) that obtain c where "c \<in> set (clientTable s)" "cr_id c = pe_registration p"
        by (auto simp: clients_ok_def)
      then show ?thesis by (auto simp: client_table.find_Nil_iff)
    qed
    from assms(2) Inl consider "e = Unauthorized" | "e = Forbidden"
      | p ps where "tbl_find (\<lambda>p. pe_pat p = bearer_token (the (req_authorization req))) (patTable s) = p # ps"
          "tbl_find (\<lambda>c. cr_id c = pe_registration p) (clientTable s) = []"
      by (auto simp: PatRequestValidator_def bind_eq_Inl split: if_splits)
    then show ?thesis
      by cases (use Inl ref pat_table.find_ConsD in \<open>fastforce+\<close>)
  qed
qed

text \<open>
  only its owner deletes a client, and with it its PATs. A successful DELETE names a client
  of the user; afterwards the client is gone, no PAT of it is left, so its old PAT is refused, and
  every other client and PAT is kept.
\<close>

theorem deleted_client_loses_access:
  assumes "deleteClient req user s = (Inr resp, t)" and "clients_ok s"
    and "distinct (map pe_pat (patTable s))"
  shows "\<exists>c \<in> set (clientTable s). obj_get (req_parameters req) ''id'' = Some (cr_clientId c)
    \<and> cr_userId c = user
    \<and> set (clientTable t) = set (clientTable s) - {c}
    \<and> set (patTable t) = {p \<in> set (patTable s). pe_registration p \<noteq> cr_id c}
    \<and> (\<forall>p \<in> set (patTable s). pe_registration p = cr_id c \<longrightarrow> header_token (pe_pat p) \<longrightarrow>
         req_authorization vreq = Some (bearer (pe_pat p)) \<longrightarrow> PatRequestValidator vreq t = (Inl Forbidden, t))"
proof -
  from assms(1) obtain cid c cs where cid: "obj_get (req_parameters req) ''id'' = Some cid"
    and c: "tbl_find (\<lambda>c. cr_clientId c = cid) (clientTable s) = c # cs" "cr_userId c = user"
    and t: "t = s\<lparr>clientTable := tbl_delete cr_id (cr_id c) (clientTable s),
       patTable := filter (\<lambda>p. pe_registration p \<noteq> cr_id c) (patTable s)\<rparr>"
    by (auto simp: deleteClient_def delete_client_row_def bind_eq_Inr split: option.splits if_splits)
  note found = client_table.find_ConsD [OF c(1)]
  have inj: "inj_on cr_id (set (clientTable s))" "inj_on pe_pat (set (patTable s))"
    using assms(2,3) by (simp_all add: clients_ok_def distinct_map)
  have clients: "set (clientTable t) = set (clientTable s) - {c}"
    using found inj_on_eq_iff [OF inj(1)] by (auto simp: t tbl_delete_def)
  have "PatRequestValidator vreq t = (Inl Forbidden, t)"
    if "p \<in> set (patTable s)" "pe_registration p = cr_id c" "header_token (pe_pat p)"
      "req_authorization vreq = Some (bearer (pe_pat p))" for p
  proof -
    have "tbl_find (\<lambda>q. pe_pat q = pe_pat p) (patTable t) = []"
      using that(1,2) inj_on_eq_iff [OF inj(2)] by (auto simp: t pat_table.find_Nil_iff)
    then show ?thesis by (simp add: validator_run [OF that(4,3)])
  qed
  with found cid c(2) clients show ?thesis by (intro bexI [of _ c]) (auto simp: t)
qed

text \<open>
  a registered client can get a PAT. The credentials that a successful registration returns
  are good for a token request right away: the request succeeds with 201.
\<close>

theorem registered_client_gets_pat:
  assumes "registerClient w req user s = (Inr resp, t)" and "clients_ok s" and "fresh_source s"
    and "content resp = ClientCreated row location"
    and "is_basic ba h" and "basic_credentials w ba h = Inr (cr_clientId row, cr_clientSecret row)"
    and "req_authorization preq = Some h" and "reType (req_body preq) DialogInput"
    and "di_scope (decode_input (req_body preq)) = Some UMA_PROTECTION_SCOPE"
    and "di_grant_type (decode_input (req_body preq)) = Some GRANT_TYPE_CLIENT_CREDENTIALS"
  shows "\<exists>out t'. UmaProtection w ba lib baseUrl lifetime preq t
    = (Inr \<lparr>status = 201, content = TokenBody out\<rparr>, t') \<and> do_token_type out = ''Bearer''"
proof -
  from assms(1,4) have row: "row \<in> set (clientTable t)" and new: "cr_clientId row = entropy s (drawn s)"
    and table: "clientTable t = clientTable s @ [row]"
    by (auto simp: registerClient_def Let_def bind_eq_Inr tbl_create_def fresh_id_def split: if_splits)
  have "cr_clientId c \<noteq> cr_clientId row" if "c \<in> set (clientTable s)" for c
    using assms(3) that unfolding new fresh_source_def by (metis image_eqI order_refl)
  then have "\<exists>rs. tbl_find (\<lambda>c. cr_clientId c = cr_clientId row \<and> cr_clientSecret c = cr_clientSecret row)
      (clientTable t) = row # rs"
    by (intro client_table.find_unique [OF row]) (auto simp: table)
  then have "findRegistration w ba (Some h) t = (Inr row, t)"
    using assms(5,6) by (auto simp: findRegistration_def bind_def lift_def split: prod.split sum.split)
  then have found: "bind (findRegistration w ba (Some h)) f t = f row t" for f :: "_ \<Rightarrow> 'x dialog"
    by (rule bind_Inr)
  let ?existing = "case map pe_id (tbl_find (\<lambda>p. pe_registration p = cr_id row) (patTable t)) of
      [] \<Rightarrow> None | i # _ \<Rightarrow> Some i"
  obtain out t' where gen: "generateToken lib baseUrl lifetime row ?existing t = (Inr out, t')"
    and bearer: "do_token_type out = ''Bearer''"
    using generateToken_total by blast
  have "bind (generateToken lib baseUrl lifetime row ?existing)
      (\<lambda>out. return \<lparr>status = 201, content = TokenBody out\<rparr>) t = (Inr \<lparr>status = 201, content = TokenBody out\<rparr>, t')"
    by (simp add: bind_Inr [where m = "generateToken lib baseUrl lifetime row ?existing", OF gen])
  with assms(7-10) bearer show ?thesis
    by (simp add: UmaProtection_def handleClientCredentials_def found)
qed

text \<open>
  the scheme test and the token extraction of the validator disagree on case. A header
  \<open>bearer token\<close> in lower case passes the test for the Bearer scheme, but its scheme is not cut
  off, so the request is forbidden unless a PAT happens to be stored under the whole header.
\<close>

theorem lower_case_bearer_forbidden:
  assumes "req_authorization req = Some (''bearer '' @ tok)" and "''bearer '' @ tok \<notin> pe_pat ` set (patTable s)"
  shows "bearer_scheme (''bearer '' @ tok) \<and> PatRequestValidator req s = (Inl Forbidden, s)"
proof -
  have "map lower_char ''bearer '' = ''bearer ''" by code_simp
  then have scheme: "bearer_scheme (''bearer '' @ tok)" by (simp add: bearer_scheme_def)
  have "\<not> is_space (CHR ''b'')" by code_simp
  then have "bearer_token (''bearer '' @ tok) = ''bearer '' @ tok"
    by (simp add: bearer_token_def starts_with_def)
  moreover have "pe_pat p \<noteq> ''bearer '' @ tok" if "p \<in> set (patTable s)" for p
    using assms(2) that by (metis image_eqI)
  ultimately have "tbl_find (\<lambda>p. pe_pat p = bearer_token (''bearer '' @ tok)) (patTable s) = []"
    by (simp add: pat_table.find_Nil_iff)
  with assms(1) scheme show ?thesis by (simp add: PatRequestValidator_def)
qed

subsection \<open>Examples\<close>

definition example_client :: client_registration where
  "example_client = \<lparr>cr_id = ''row'', cr_clientName = None, cr_clientUri = ''https://rs'', cr_clientId = ''rs'',
     cr_clientSecret = ''secret'', cr_userId = ''alice''\<rparr>"

definition example_pat :: pat_entry where
  "example_pat = \<lparr>pe_id = ''p'', pe_pat = ''old'', pe_expiration = 5, pe_refreshToken = ''again'',
     pe_registration = ''row''\<rparr>"

definition client_state :: dialog_state where
  "client_state = empty_state\<lparr>clientTable := [example_client], patTable := [example_pat]\<rparr>"

definition example_basic :: basic_auth where
  "example_basic = \<lparr>is_basic = starts_with ''Basic '', base64_text = id\<rparr>"

definition protection_request :: request where
  "protection_request = (post (JObj [(''grant_type'', JStr GRANT_TYPE_CLIENT_CREDENTIALS),
     (''scope'', JStr UMA_PROTECTION_SCOPE)]))\<lparr>req_authorization := Some ''Basic rs:secret''\<rparr>"

definition pat_request :: "string \<Rightarrow> request" where
  "pat_request tok = (post JNull)\<lparr>req_authorization := Some (bearer tok)\<rparr>"

lemma nat_str_nonempty [simp]: "nat_str n \<noteq> []"
  by (subst nat_str.simps) simp

lemma is_digit_of: "n < 10 \<Longrightarrow> (of_char (char_of (48 + n) :: char) :: nat) = 48 + n"
  by simp

lemma nat_str_inject: "nat_str m = nat_str n \<Longrightarrow> m = n"
proof (induction m arbitrary: n rule: nat_str.induct)
  case (1 m)
  have last: "last (nat_str k) = char_of (48 + k mod 10)" for k
    by (subst nat_str.simps) simp
  have "of_char (char_of (48 + m mod 10) :: char) = (of_char (char_of (48 + n mod 10) :: char) :: nat)"
    using last [of m] last [of n] 1(2) by simp
  then have digits: "m mod 10 = n mod 10" by simp
  show ?case
  proof (cases "m < 10")
    case True
    then have "length (nat_str n) = 1" using 1(2) by (metis One_nat_def length_Cons list.size(3) nat_str.simps)
    then have "n < 10" using nat_str_nonempty [of "n div 10"]
      by (subst (asm) nat_str.simps) (auto split: if_splits)
    with True digits show ?thesis by simp
  next
    case False
    then have m: "nat_str m = nat_str (m div 10) @ [char_of (48 + m mod 10)]" by (subst nat_str.simps) simp
    have "\<not> n < 10"
    proof
      assume "n < 10"
      then have "nat_str n = [char_of (48 + n)]" by (subst nat_str.simps) simp
      with m 1(2) nat_str_nonempty [of "m div 10"] show False by (metis append_is_Nil_conv append_self_conv2 butlast.simps(2) butlast_snoc)
    qed
    then have "nat_str n = nat_str (n div 10) @ [char_of (48 + n mod 10)]" by (subst nat_str.simps) simp
    with m 1(2) have "nat_str (m div 10) = nat_str (n div 10)" by simp
    from 1(1) [OF False this] digits show ?thesis by (metis div_mult_mod_eq)
  qed
qed

lemma client_state_sel [simp]:
  "clientTable client_state = [example_client]" "patTable client_state = [example_pat]" "clock client_state = 0"
  by (simp_all add: client_state_def empty_state_def)

lemma example_sel [simp]:
  "pe_pat example_pat = ''old''" "pe_refreshToken example_pat = ''again''" "pe_registration example_pat = ''row''"
  "cr_id example_client = ''row''" "cr_clientId example_client = ''rs''" "cr_userId example_client = ''alice''"
  by (simp_all add: example_pat_def example_client_def)

lemma client_state_ok: "clients_ok client_state" "fresh_source client_state"
  by (auto simp: clients_ok_def fresh_source_def client_state_def example_client_def example_pat_def
      empty_state_def inj_on_def dest: nat_str_inject)

lemma protection_run:
  "fst (UmaProtection example_web example_basic example_jwt_library ''https://as'' 1800 protection_request client_state)
    = Inr \<lparr>status = 201, content = TokenBody \<lparr>do_access_token = ''jwt'', do_refresh_token = Some ''id-0'',
        do_token_type = ''Bearer'', do_partial = False, do_expires_in = Some 1800,
        do_derivation_resource_id = None\<rparr>\<rparr>"
  by code_simp

lemma client_tables_invariant_witness:
  "clients_ok (snd (UmaProtection example_web example_basic example_jwt_library ''https://as'' 1800
      protection_request client_state))"
  using client_tables_invariant [OF client_state_ok key_value_verifier.verifier_axioms] by blast

lemma pat_accepted_until_expiry_witness:
  "PatRequestValidator (pat_request ''jwt'')
     ((snd (UmaProtection example_web example_basic example_jwt_library ''https://as'' 1800
        protection_request client_state))\<lparr>clock := 1800000\<rparr>)
     = (Inr ''alice'', (snd (UmaProtection example_web example_basic example_jwt_library ''https://as'' 1800
        protection_request client_state))\<lparr>clock := 1800000\<rparr>)"
proof -
  have "header_token ''jwt''" by code_simp
  then show ?thesis
    using pat_accepted_until_expiry [OF run_fst [OF protection_run] client_state_ok(1),
        of "pat_request ''jwt''" 1800000]
    by (auto simp: pat_request_def)
qed

lemma pat_superseded_witness:
  "fst (PatRequestValidator (pat_request ''old'') (snd (UmaProtection example_web example_basic example_jwt_library
      ''https://as'' 1800 protection_request client_state))) = Inl Forbidden"
proof -
  have "header_token ''old''" by code_simp
  then show ?thesis
    using pat_superseded [OF run_fst [OF protection_run] client_state_ok, of example_pat "pat_request ''old''"]
    by (auto simp: pat_request_def)
qed

lemma validator_exact_witness:
  "snd (PatRequestValidator (pat_request ''old'') client_state) = client_state"
  using validator_exact [OF client_state_ok(1) prod.collapse [symmetric]] by blast

lemma deleted_client_loses_access_witness:
  "patTable (snd (deleteClient ((post JNull)\<lparr>req_parameters := [(''id'', ''rs'')]\<rparr>) ''alice'' client_state)) = []"
proof -
  have "fst (deleteClient ((post JNull)\<lparr>req_parameters := [(''id'', ''rs'')]\<rparr>) ''alice'' client_state)
      = Inr \<lparr>status = 204, content = ClientDeleted\<rparr>"
    by code_simp
  from deleted_client_loses_access [OF run_fst [OF this] client_state_ok(1)]
  have "set (patTable (snd (deleteClient ((post JNull)\<lparr>req_parameters := [(''id'', ''rs'')]\<rparr>) ''alice'' client_state))) = {}"
    by auto
  then show ?thesis by simp
qed

lemma registered_client_gets_pat_witness:
  "\<exists>out t'. UmaProtection example_web (example_basic\<lparr>base64_text := (\<lambda>_. ''id-0:id-1'')\<rparr>) example_jwt_library ''https://as'' 1800
      (protection_request\<lparr>req_authorization := Some ''Basic x''\<rparr>)
      (snd (registerClient example_web (post (JObj [(''client_uri'', JStr ''https://rs2'')])) ''alice'' client_state))
    = (Inr \<lparr>status = 201, content = TokenBody out\<rparr>, t') \<and> do_token_type out = ''Bearer''"
proof -
  let ?w = example_web and ?ba = "example_basic\<lparr>base64_text := (\<lambda>_. ''id-0:id-1'')\<rparr>"
  let ?row = "\<lparr>cr_id = ''id-2'', cr_clientName = None, cr_clientUri = ''https://rs2'', cr_clientId = ''id-0'',
     cr_clientSecret = ''id-1'', cr_userId = ''alice''\<rparr>"
  have reg: "fst (registerClient ?w (post (JObj [(''client_uri'', JStr ''https://rs2'')])) ''alice'' client_state)
      = Inr \<lparr>status = 201, content = ClientCreated ?row ''https://as/tokenid-0''\<rparr>"
    by code_simp
  have "is_basic ?ba ''Basic x''" "basic_credentials ?w ?ba ''Basic x'' = Inr (''id-0'', ''id-1'')"
    "reType (req_body protection_request) DialogInput"
    "di_scope (decode_input (req_body protection_request)) = Some UMA_PROTECTION_SCOPE"
    "di_grant_type (decode_input (req_body protection_request)) = Some GRANT_TYPE_CLIENT_CREDENTIALS"
    by code_simp+
  then show ?thesis
    by (intro registered_client_gets_pat [where row = ?row, OF run_fst [OF reg] client_state_ok]) simp_all
qed

lemma lower_case_bearer_forbidden_witness:
  "PatRequestValidator ((post JNull)\<lparr>req_authorization := Some (''bearer '' @ ''old'')\<rparr>) client_state
     = (Inl Forbidden, client_state)"
  using lower_case_bearer_forbidden [of "(post JNull)\<lparr>req_authorization := Some (''bearer '' @ ''old'')\<rparr>" "''old''" client_state]
  by simp

end
