(* ===== verification/Collections.thy ===== *)
theory Collections
  imports Registration Clients
begin

text \<open>
  \<open>routes/Collection.ts\<close>: the endpoint through which users manage their asset and party
  collections in the policy storage.
\<close>

subsection \<open>Descriptions\<close>

definition AssetCollectionDescription :: pattern where
  "AssetCollectionDescription = PObject [(''description'', POptional PString),
     (''type'', PLiteral (JStr ''asset'')), (''parts'', PArray PString)]"

definition PartyCollectionDescription :: pattern where
  "PartyCollectionDescription = PObject [(''description'', POptional PString),
     (''type'', PLiteral (JStr ''party'')), (''owners'', PArray PString), (''parts'', PArray PString)]"

definition CollectionDescription :: pattern where
  "CollectionDescription = PUnion [AssetCollectionDescription, PartyCollectionDescription]"

datatype collection_type = Asset | Party "string list"

record collection_description =
  cd_description :: "string option"
  cd_type :: collection_type
  cd_parts :: "string list"

definition js_string_array :: "js \<Rightarrow> string list" where
  "js_string_array v = (case v of JArr xs \<Rightarrow> js_strings xs | _ \<Rightarrow> [])"

definition decode_collection :: "js \<Rightarrow> collection_description" where
  "decode_collection v = \<lparr>
     cd_description = js_str (js_prop v ''description''),
     cd_type = (if js_prop v ''type'' = JStr ''party'' then Party (js_string_array (js_prop v ''owners'')) else Asset),
     cd_parts = js_string_array (js_prop v ''parts'')\<rparr>"

definition collection_owners :: "collection_description \<Rightarrow> string \<Rightarrow> string list" where
  "collection_owners d user = (case cd_type d of Party owners \<Rightarrow> owners | Asset \<Rightarrow> [user])"

definition description_quads :: "collection_description \<Rightarrow> string \<Rightarrow> rterm \<Rightarrow> quad list" where
  "description_quads d user subj =
     [triple subj rdf_type (if cd_type d = Asset then odrl ''AssetCollection'' else odrl ''PartyCollection'')]
     @ (if truthy_opt (cd_description d)
        then [triple subj (dc ''description'') (RLiteral (the (cd_description d)) xsd_string)] else [])
     @ map (\<lambda>owner. triple subj (dc ''creator'') (NamedNode owner)) (collection_owners d user)
     @ map (\<lambda>part. triple (NamedNode part) (odrl ''partOf'') subj) (cd_parts d)"

definition descriptionToQuads :: "js \<Rightarrow> string \<Rightarrow> rterm \<Rightarrow> quad list dialog" where
  "descriptionToQuads body user subj =
     (if \<not> reType body CollectionDescription then throw BadRequest
      else (let d = decode_collection body in
        case cd_type d of
          Party owners \<Rightarrow>
            if user \<notin> set owners then throw BadRequest else return (description_quads d user subj)
        | Asset \<Rightarrow>
            bind (gets (\<lambda>s. owned s user)) (\<lambda>own.
            if list_ex (\<lambda>asset. asset \<notin> set own) (cd_parts d) then throw Forbidden
            else return (description_quads d user subj))))"

definition verifyOwnership :: "rterm \<Rightarrow> string \<Rightarrow> store \<Rightarrow> unit dialog" where
  "verifyOwnership subj user st =
     (let owners = get_objects st (Some subj) (Some (dc ''creator'')) in
      if owners = [] then throw NotFound
      else if NamedNode user \<notin> set owners then throw Forbidden
      else return ())"

subsection \<open>The endpoint\<close>

datatype collection_body = CollectionStore store | CollectionCreated string | NoBody

definition collection_part :: "store \<Rightarrow> store \<Rightarrow> rterm \<Rightarrow> store" where
  "collection_part st result c =
     (let result = add_quads result (get_quads st (Some c) None None);
          result = add_quads result (get_quads st None (Some (odrl ''partOf'')) (Some c));
          relations = get_objects result (Some c) (Some odrl_p_relation)
      in foldl (\<lambda>res r. add_quads res (get_quads st (Some r) (Some owl_inverseOf) None)) result relations)"

definition has_id :: "request \<Rightarrow> bool" where
  "has_id req = truthy_opt (obj_get (req_parameters req) ''id'')"

definition collection_handleGet ::
  "dialog_state rules_storage \<Rightarrow> request \<Rightarrow> string \<Rightarrow> collection_body response dialog" where
  "collection_handleGet sto req user =
     bind (getStore sto) (\<lambda>st.
     bind (if has_id req
           then bind (verifyOwnership (NamedNode (req_url req)) user st) (\<lambda>_. return [NamedNode (req_url req)])
           else return (get_subjects st (Some (dc ''creator'')) (Some (NamedNode user)))) (\<lambda>collections.
     return \<lparr>status = 200, content = CollectionStore (foldl (collection_part st) [] collections)\<rparr>))"

definition collection_handlePost ::
  "web \<Rightarrow> dialog_state rules_storage \<Rightarrow> request \<Rightarrow> string \<Rightarrow> collection_body response dialog" where
  "collection_handlePost w sto req user =
     bind randomUUID (\<lambda>i.
     let subj = joinUrl w (req_url req) i in
     bind (descriptionToQuads (req_body req) user (NamedNode subj)) (\<lambda>qs.
     bind (addRule sto (new_store qs)) (\<lambda>_.
     return \<lparr>status = 201, content = CollectionCreated subj\<rparr>)))"

text \<open>The quads PUT and DELETE consider to be the collection.\<close>

definition collection_quads_of :: "store \<Rightarrow> rterm \<Rightarrow> store" where
  "collection_quads_of st subj = new_store (get_quads st (Some subj) None None
     @ get_quads st None (Some (odrl ''partOf'')) (Some subj))"

text \<open>The checks PUT and DELETE share, returning the store they were made on.\<close>

definition editable_collection ::
  "dialog_state rules_storage \<Rightarrow> request \<Rightarrow> string \<Rightarrow> store dialog" where
  "editable_collection sto req user =
     (if \<not> has_id req then throw MethodNotAllowed
      else bind (getStore sto) (\<lambda>st.
        if get_objects st (Some (NamedNode (req_url req))) (Some odrl_p_relation) \<noteq> [] then throw Forbidden
        else bind (verifyOwnership (NamedNode (req_url req)) user st) (\<lambda>_. return st)))"

definition apply_changes :: "'s rules_storage \<Rightarrow> store \<Rightarrow> store \<Rightarrow> ('s, unit) act" where
  "apply_changes sto add remove =
     bind (if add \<noteq> [] then addRule sto add else return ()) (\<lambda>_.
     if remove \<noteq> [] then removeData sto remove else return ())"

definition collection_handlePut ::
  "dialog_state rules_storage \<Rightarrow> request \<Rightarrow> string \<Rightarrow> collection_body response dialog" where
  "collection_handlePut sto req user =
     bind (editable_collection sto req user) (\<lambda>policyStore.
     let subj = NamedNode (req_url req) in
     bind (descriptionToQuads (req_body req) user subj) (\<lambda>qs.
     let newStore = new_store qs; oldStore = collection_quads_of policyStore subj;
         add = difference newStore oldStore; remove = difference oldStore newStore in
     bind (apply_changes sto add remove) (\<lambda>_.
     return \<lparr>status = 204, content = NoBody\<rparr>)))"

definition collection_handleDelete ::
  "dialog_state rules_storage \<Rightarrow> request \<Rightarrow> string \<Rightarrow> collection_body response dialog" where
  "collection_handleDelete sto req user =
     bind (editable_collection sto req user) (\<lambda>policyStore.
     bind (removeData sto (collection_quads_of policyStore (NamedNode (req_url req)))) (\<lambda>_.
     return \<lparr>status = 204, content = NoBody\<rparr>))"

definition CollectionRequestHandler ::
  "(string option \<Rightarrow> error + credential) \<Rightarrow> verify_fun \<Rightarrow> web \<Rightarrow> dialog_state rules_storage \<Rightarrow> request \<Rightarrow>
   collection_body response dialog" where
  "CollectionRequestHandler parse verify w sto req =
     bind (request_user parse verify req) (\<lambda>user.
     if req_method req = ''GET'' then collection_handleGet sto req user
     else if req_method req = ''POST'' then collection_handlePost w sto req user
     else if req_method req = ''PUT'' then collection_handlePut sto req user
     else if req_method req = ''DELETE'' then collection_handleDelete sto req user
     else throw MethodNotAllowed)"

subsection \<open>What the operations do\<close>

definition may_describe :: "dialog_state \<Rightarrow> string \<Rightarrow> js \<Rightarrow> bool" where
  "may_describe s user body \<longleftrightarrow> reType body CollectionDescription
     \<and> (case cd_type (decode_collection body) of
          Party owners \<Rightarrow> user \<in> set owners
        | Asset \<Rightarrow> set (cd_parts (decode_collection body)) \<subseteq> set (owned s user))"

lemma descriptionToQuads_Inr:
  "descriptionToQuads body user subj s = (Inr qs, t) \<longleftrightarrow>
     t = s \<and> may_describe s user body \<and> qs = description_quads (decode_collection body) user subj"
  by (auto simp: descriptionToQuads_def may_describe_def Let_def list_ex_iff split: collection_type.split)

lemma descriptionToQuads_state: "snd (descriptionToQuads body user subj s) = s"
  by (simp add: descriptionToQuads_def Let_def split: collection_type.split)

lemma verifyOwnership_Inr:
  "verifyOwnership subj user st s = (Inr u, t) \<longleftrightarrow>
     t = s \<and> (\<exists>q \<in> set st. subject q = subj \<and> predicate q = dc ''creator'' \<and> object q = NamedNode user)"
  by (auto simp: verifyOwnership_def Let_def set_get_objects matches_def image_iff filter_empty_conv
      get_objects_def get_quads_def)

definition editable :: "store \<Rightarrow> request \<Rightarrow> string \<Rightarrow> bool" where
  "editable st req user \<longleftrightarrow> has_id req
     \<and> (\<forall>q \<in> set st. subject q = NamedNode (req_url req) \<longrightarrow> predicate q \<noteq> odrl_p_relation)
     \<and> (\<exists>q \<in> set st. subject q = NamedNode (req_url req) \<and> predicate q = dc ''creator''
          \<and> object q = NamedNode user)"

lemma editable_collection_Inr:
  "editable_collection policyStorage req user s = (Inr st, t) \<longleftrightarrow>
     t = s \<and> st = policies s \<and> editable (policies s) req user"
proof -
  have "get_objects st (Some c) (Some p) = [] \<longleftrightarrow> (\<forall>q \<in> set st. subject q = c \<longrightarrow> predicate q \<noteq> p)"
    for st c p by (auto simp: get_objects_def get_quads_def matches_def filter_empty_conv)
  then show ?thesis
    by (auto simp: editable_collection_def policyStorage_defs editable_def bind_eq_Inr verifyOwnership_Inr)
qed

lemma set_collection_quads_of:
  "set (collection_quads_of st subj) = {q \<in> set st. subject q = subj \<or> predicate q = odrl ''partOf'' \<and> object q = subj}"
  by (auto simp: collection_quads_of_def set_get_quads matches_def)

lemma apply_changes_run:
  "apply_changes policyStorage add remove s =
     (Inr (), s\<lparr>policies := remove_quads (add_quads (policies s) add) remove\<rparr>)"
proof -
  have "addRule policyStorage add s = (Inr (), s\<lparr>policies := add_quads (policies s) add\<rparr>)"
    "removeData policyStorage remove s' = (Inr (), s'\<lparr>policies := remove_quads (policies s') remove\<rparr>)" for s'
    by (simp_all add: policyStorage_defs)
  then show ?thesis
    by (cases "add = []"; cases "remove = []") (simp_all add: apply_changes_def bind_def return_def)
qed

lemma owned_drawn [simp]: "owned (s\<lparr>drawn := n\<rparr>) user = owned s user"
  by (simp add: owned_def)

lemma may_describe_drawn [simp]: "may_describe (s\<lparr>drawn := n\<rparr>) user body = may_describe s user body"
  by (simp add: may_describe_def split: collection_type.split)

lemma collection_post_run:
  "collection_handlePost w policyStorage req user s = (Inr resp, t) \<longleftrightarrow>
     may_describe s user (req_body req)
     \<and> resp = \<lparr>status = 201, content = CollectionCreated (joinUrl w (req_url req) (fresh_id s))\<rparr>
     \<and> t = s\<lparr>drawn := Suc (drawn s), policies := add_quads (policies s) (new_store
         (description_quads (decode_collection (req_body req)) user (NamedNode (joinUrl w (req_url req) (fresh_id s)))))\<rparr>"
  by (auto simp: collection_handlePost_def Let_def bind_eq_Inr descriptionToQuads_Inr policyStorage_defs)

lemma collection_put_run:
  "collection_handlePut policyStorage req user s = (Inr resp, t) \<longleftrightarrow>
     editable (policies s) req user \<and> may_describe s user (req_body req)
     \<and> resp = \<lparr>status = 204, content = NoBody\<rparr>
     \<and> (let new = new_store (description_quads (decode_collection (req_body req)) user (NamedNode (req_url req)));
            old = collection_quads_of (policies s) (NamedNode (req_url req))
        in t = s\<lparr>policies := remove_quads (add_quads (policies s) (difference new old)) (difference old new)\<rparr>)"
  by (auto simp: collection_handlePut_def Let_def bind_eq_Inr editable_collection_Inr descriptionToQuads_Inr
      apply_changes_run)

lemma collection_delete_run:
  "collection_handleDelete policyStorage req user s = (Inr resp, t) \<longleftrightarrow>
     editable (policies s) req user \<and> resp = \<lparr>status = 204, content = NoBody\<rparr>
     \<and> t = s\<lparr>policies := remove_quads (policies s)
           (collection_quads_of (policies s) (NamedNode (req_url req)))\<rparr>"
proof -
  have run: "removeData policyStorage d s = (Inr (), s\<lparr>policies := remove_quads (policies s) d\<rparr>)" for d s
    by (simp add: policyStorage_defs)
  show ?thesis
    unfolding collection_handleDelete_def bind_eq_Inr editable_collection_Inr by (auto simp: run)
qed

subsection \<open>Properties\<close>

lemma description_quads_about:
  "q \<in> set (description_quads d user subj) \<Longrightarrow>
   subject q = subj \<or> predicate q = odrl ''partOf'' \<and> object q = subj"
  by (auto simp: description_quads_def split: if_splits)

lemma description_creator:
  "triple subj (dc ''creator'') (NamedNode owner) \<in> set (description_quads d user subj) \<longleftrightarrow>
   owner \<in> set (collection_owners d user)"
  by (auto simp: description_quads_def image_iff)

text \<open>
  a created collection holds what its creator may put in it. A POST succeeds exactly when the
  body is a collection description and either describes assets that are all registered resources
  of the user, or parties with the user among the owners; it then adds exactly the quads of the
  description under a new identifier, and the user passes the ownership check for it.
\<close>

theorem collection_created:
  assumes "collection_handlePost w policyStorage req user s = (r, t)"
  shows "((\<exists>resp. r = Inr resp) \<longleftrightarrow> may_describe s user (req_body req))
    \<and> (\<forall>e. r = Inl e \<longrightarrow> policies t = policies s)
    \<and> (\<forall>resp. r = Inr resp \<longrightarrow> (\<exists>subj. content resp = CollectionCreated subj
       \<and> set (policies t) = set (policies s)
           \<union> set (description_quads (decode_collection (req_body req)) user (NamedNode subj))
       \<and> verifyOwnership (NamedNode subj) user (policies t) t = (Inr (), t)))"
proof (intro conjI allI impI)
  show "(\<exists>resp. r = Inr resp) \<longleftrightarrow> may_describe s user (req_body req)"
  proof (cases r)
    case (Inr resp)
    with assms show ?thesis by (simp add: collection_post_run)
  next
    case (Inl e)
    have "\<not> may_describe s user (req_body req)"
    proof
      assume "may_describe s user (req_body req)"
      from collection_post_run [THEN iffD2, OF conjI, OF this conjI, OF refl refl]
      show False using assms Inl by simp
    qed
    with Inl show ?thesis by simp
  qed
next
  fix e assume e: "r = Inl e"
  have "policies (snd (descriptionToQuads body user subj s')) = policies s'" for body subj s'
    by (simp add: descriptionToQuads_state)
  from this [of _ _ "s\<lparr>drawn := Suc (drawn s)\<rparr>"] show "policies t = policies s"
    using assms e
    by (auto simp: collection_handlePost_def Let_def bind_eq_Inl policyStorage_defs) (metis snd_conv)
next
  fix resp assume "r = Inr resp"
  with assms obtain subj where may: "may_describe s user (req_body req)" and subj: "content resp = CollectionCreated subj"
    and pol: "set (policies t) = set (policies s) \<union>
      set (description_quads (decode_collection (req_body req)) user (NamedNode subj))"
    by (auto simp: collection_post_run)
  have "user \<in> set (collection_owners (decode_collection (req_body req)) user)"
    using may by (auto simp: may_describe_def collection_owners_def split: collection_type.splits)
  then have "triple (NamedNode subj) (dc ''creator'') (NamedNode user) \<in> set (policies t)"
    by (simp add: pol description_creator)
  then have "verifyOwnership (NamedNode subj) user (policies t) t = (Inr (), t)"
    by (auto simp: verifyOwnership_Inr intro!: bexI [of _ "triple (NamedNode subj) (dc ''creator'') (NamedNode user)"])
  with subj pol show "\<exists>subj. content resp = CollectionCreated subj
       \<and> set (policies t) = set (policies s)
           \<union> set (description_quads (decode_collection (req_body req)) user (NamedNode subj))
       \<and> verifyOwnership (NamedNode subj) user (policies t) t = (Inr (), t)" by blast
qed

text \<open>
  replacing a collection is exact and reserved to its owners. A successful PUT is by an owner
  of a collection that is not a relation collection, with a description the user may give;
  afterwards the quads of the collection are exactly those of the description and every other
  quad is unchanged, and the user still owns it.
\<close>

theorem collection_replaced:
  assumes "collection_handlePut policyStorage req user s = (Inr resp, t)"
  shows "editable (policies s) req user \<and> may_describe s user (req_body req)
    \<and> {q \<in> set (policies t). subject q = NamedNode (req_url req)
         \<or> predicate q = odrl ''partOf'' \<and> object q = NamedNode (req_url req)}
      = set (description_quads (decode_collection (req_body req)) user (NamedNode (req_url req)))
    \<and> (\<forall>q. subject q \<noteq> NamedNode (req_url req) \<longrightarrow>
         \<not> (predicate q = odrl ''partOf'' \<and> object q = NamedNode (req_url req)) \<longrightarrow>
         (q \<in> set (policies t) \<longleftrightarrow> q \<in> set (policies s)))
    \<and> editable (policies t) req user"
proof -
  let ?subj = "NamedNode (req_url req)"
  let ?new = "description_quads (decode_collection (req_body req)) user ?subj"
  have may: "editable (policies s) req user" "may_describe s user (req_body req)"
    and pol: "set (policies t) = (set (policies s) - set (collection_quads_of (policies s) ?subj)) \<union> set ?new"
    using assms by (auto simp: collection_put_run Let_def set_collection_quads_of)
  have about: "subject q = ?subj \<or> predicate q = odrl ''partOf'' \<and> object q = ?subj" if "q \<in> set ?new" for q
    using that by (rule description_quads_about)
  have exact: "{q \<in> set (policies t). subject q = ?subj \<or> predicate q = odrl ''partOf'' \<and> object q = ?subj} = set ?new"
    using about by (auto simp: pol set_collection_quads_of)
  have "user \<in> set (collection_owners (decode_collection (req_body req)) user)"
    using may by (auto simp: may_describe_def collection_owners_def split: collection_type.splits)
  then have creator: "triple ?subj (dc ''creator'') (NamedNode user) \<in> set (policies t)"
    by (simp add: pol description_creator)
  have "predicate q \<noteq> odrl_p_relation" if "q \<in> set (policies t)" "subject q = ?subj" for q
    using that may(1) by (auto simp: pol editable_def description_quads_def split: if_splits)
  with creator may(1) have "editable (policies t) req user"
    by (auto simp: editable_def intro!: bexI [of _ "triple ?subj (dc ''creator'') (NamedNode user)"])
  moreover have "q \<in> set (policies t) \<longleftrightarrow> q \<in> set (policies s)" if "subject q \<noteq> ?subj"
    "\<not> (predicate q = odrl ''partOf'' \<and> object q = ?subj)" for q
    using that about by (auto simp: pol set_collection_quads_of)
  ultimately show ?thesis using may exact by blast
qed

text \<open>
  deleting a collection is reserved to its owners and removes exactly the collection: its own
  quads and the memberships in it.
\<close>

theorem collection_deleted:
  assumes "collection_handleDelete policyStorage req user s = (Inr resp, t)"
  shows "editable (policies s) req user
    \<and> set (policies t) = {q \<in> set (policies s). subject q \<noteq> NamedNode (req_url req)
        \<and> \<not> (predicate q = odrl ''partOf'' \<and> object q = NamedNode (req_url req))}
    \<and> t = s\<lparr>policies := policies t\<rparr>"
  using assms by (auto simp: collection_delete_run set_collection_quads_of)

text \<open>
  reading back what was created. Reading a newly created collection by its identifier gives
  its owner exactly the quads of the description, when nothing stored mentioned the identifier.
\<close>

theorem collection_roundtrip:
  assumes "collection_handlePost w policyStorage req user s = (Inr resp, t)"
    and "content resp = CollectionCreated subj"
    and "\<forall>q \<in> set (policies s). subject q \<noteq> NamedNode subj \<and> object q \<noteq> NamedNode subj"
    and "req_url get_req = subj" and "has_id get_req"
  shows "\<exists>st. collection_handleGet policyStorage get_req user t
      = (Inr \<lparr>status = 200, content = CollectionStore st\<rparr>, t)
    \<and> set st = set (description_quads (decode_collection (req_body req)) user (NamedNode subj))"
proof -
  let ?new = "description_quads (decode_collection (req_body req)) user (NamedNode subj)"
  from assms(1,2) have may: "may_describe s user (req_body req)" and pol: "set (policies t) = set (policies s) \<union> set ?new"
    by (auto simp: collection_post_run)
  have about: "q \<in> set ?new \<longleftrightarrow> q \<in> set (policies t) \<and>
      (subject q = NamedNode subj \<or> predicate q = odrl ''partOf'' \<and> object q = NamedNode subj)" for q
    using assms(3) description_quads_about [of q "decode_collection (req_body req)" user "NamedNode subj"]
    by (auto simp: pol)
  have "user \<in> set (collection_owners (decode_collection (req_body req)) user)"
    using may by (auto simp: may_describe_def collection_owners_def split: collection_type.splits)
  then have "triple (NamedNode subj) (dc ''creator'') (NamedNode user) \<in> set (policies t)"
    by (simp add: pol description_creator)
  then have own: "verifyOwnership (NamedNode subj) user (policies t) t = (Inr (), t)"
    by (auto simp: verifyOwnership_Inr intro!: bexI [of _ "triple (NamedNode subj) (dc ''creator'') (NamedNode user)"])
  let ?st = "add_quads (add_quads [] (get_quads (policies t) (Some (NamedNode subj)) None None))
       (get_quads (policies t) None (Some (odrl ''partOf'')) (Some (NamedNode subj)))"
  have st: "set ?st = set ?new" using about by (auto simp: set_get_quads matches_def)
  have "predicate q \<noteq> odrl_p_relation" if "q \<in> set ?new" for q
    using that by (auto simp: description_quads_def split: if_splits)
  with st have "get_objects ?st (Some (NamedNode subj)) (Some odrl_p_relation) = []"
    by (auto simp: get_objects_def get_quads_def filter_empty_conv matches_def)
  then have part: "collection_part (policies t) [] (NamedNode subj) = ?st"
    by (simp add: collection_part_def Let_def)
  have "collection_handleGet policyStorage get_req user t
      = (Inr \<lparr>status = 200, content = CollectionStore ?st\<rparr>, t)"
    using assms(4,5) own part
    by (simp add: collection_handleGet_def policyStorage_defs bind_def return_def)
  with st show ?thesis by blast
qed


subsection \<open>Examples\<close>

definition party_body :: js where
  "party_body = JObj [(''type'', JStr ''party''), (''owners'', JArr [JStr ''alice'', JStr ''bob'']),
     (''parts'', JArr [JStr ''carol''])]"

definition asset_body :: js where
  "asset_body = JObj [(''type'', JStr ''asset''), (''parts'', JArr [JStr ''y''])]"

definition collection_request :: "string \<Rightarrow> string \<Rightarrow> js \<Rightarrow> request" where
  "collection_request verb url body = (registration_request verb body)\<lparr>req_url := url\<rparr>"

text \<open>An owned party collection beside the quads of the registration examples.\<close>

definition party_state :: dialog_state where
  "party_state = alice_state\<lparr>policies := reverse_quads @
     [triple (NamedNode ''team'') rdf_type (odrl ''PartyCollection''),
      triple (NamedNode ''team'') (dc ''creator'') (NamedNode ''alice''),
      triple (NamedNode ''dave'') (odrl ''partOf'') (NamedNode ''team'')]\<rparr>"

definition join_web :: "web \<Rightarrow> web" where
  "join_web w = w\<lparr>joinUrl := concat_url\<rparr>"

lemma joinUrl_join_web [simp]: "joinUrl (join_web w) = concat_url"
  by (simp add: join_web_def)

lemma describes: "may_describe s ''alice'' party_body" "\<not> may_describe alice_state ''alice'' asset_body"
  unfolding may_describe_def by code_simp+

lemma edits: "editable (policies party_state) (collection_request verb ''team'' body) ''alice''"
  by (auto simp: editable_def has_id_def collection_request_def registration_request_def party_state_def
      reverse_quads_def)

lemma collection_created_witness:
  "\<not> (\<exists>resp. fst (collection_handlePost example_web policyStorage (collection_request ''POST'' ''https://as/c'' asset_body)
        ''alice'' alice_state) = Inr resp)
   \<and> (\<exists>resp. fst (collection_handlePost example_web policyStorage (collection_request ''POST'' ''https://as/c'' party_body)
        ''alice'' alice_state) = Inr resp)"
proof -
  have "req_body (collection_request verb url body) = body" for verb url body
    by (simp add: collection_request_def registration_request_def)
  then show ?thesis
    using collection_created [OF prod.collapse [symmetric],
        of example_web "collection_request ''POST'' ''https://as/c'' asset_body" "''alice''" alice_state]
      collection_created [OF prod.collapse [symmetric],
        of example_web "collection_request ''POST'' ''https://as/c'' party_body" "''alice''" alice_state]
    by (simp add: describes)
qed

lemma collection_replaced_witness:
  "triple (NamedNode ''dave'') (odrl ''partOf'') (NamedNode ''team'') \<notin> set (policies (snd
     (collection_handlePut policyStorage (collection_request ''PUT'' ''team'' party_body) ''alice'' party_state)))"
proof -
  let ?req = "collection_request ''PUT'' ''team'' party_body"
  have proj: "req_url ?req = ''team''" "req_body ?req = party_body"
    by (simp_all add: collection_request_def registration_request_def)
  obtain t where run: "collection_handlePut policyStorage ?req ''alice'' party_state
      = (Inr \<lparr>status = 204, content = NoBody\<rparr>, t)"
    using edits describes(1) by (simp add: collection_put_run Let_def proj)
  have "triple (NamedNode ''dave'') (odrl ''partOf'') (NamedNode ''team'')
      \<notin> set (description_quads (decode_collection party_body) ''alice'' (NamedNode ''team''))" by code_simp
  with collection_replaced [OF run] show ?thesis unfolding proj run by auto
qed

lemma collection_deleted_witness:
  "set (policies (snd (collection_handleDelete policyStorage (collection_request ''DELETE'' ''team'' JNull)
     ''alice'' party_state))) = set reverse_quads"
proof -
  note run = collection_delete_run [THEN iffD2, OF conjI, OF edits conjI, OF refl refl]
  have "set (policies (snd (collection_handleDelete policyStorage (collection_request ''DELETE'' ''team'' JNull)
     ''alice'' party_state))) = {q \<in> set (policies party_state). subject q \<noteq> NamedNode ''team''
        \<and> \<not> (predicate q = odrl ''partOf'' \<and> object q = NamedNode ''team'')}"
    using collection_deleted [OF run [of "''DELETE''" JNull]] unfolding run
    by (simp add: collection_request_def registration_request_def)
  also have "\<dots> = set reverse_quads"
    unfolding party_state_def by (auto simp: reverse_quads_def)
  finally show ?thesis .
qed

lemma collection_roundtrip_witness:
  "\<exists>s st. fst (collection_handleGet policyStorage (collection_request ''GET'' ''https://as/c/id-0'' JNull) ''alice'' s)
     = Inr \<lparr>status = 200, content = CollectionStore st\<rparr>
     \<and> triple (NamedNode ''carol'') (odrl ''partOf'') (NamedNode ''https://as/c/id-0'') \<in> set st"
proof -
  let ?req = "collection_request ''POST'' ''https://as/c'' party_body"
  have body: "req_body ?req = party_body" by (simp add: collection_request_def registration_request_def)
  have id: "concat_url (req_url ?req) (fresh_id alice_state) = ''https://as/c/id-0''" by code_simp
  obtain t where run: "collection_handlePost (join_web example_web) policyStorage ?req ''alice'' alice_state
      = (Inr \<lparr>status = 201, content = CollectionCreated ''https://as/c/id-0''\<rparr>, t)"
    using collection_post_run [of "join_web example_web" ?req "''alice''" alice_state, THEN iffD2, OF conjI,
        OF _ conjI, OF _ refl refl] describes(1) unfolding body joinUrl_join_web id by blast
  have "triple (NamedNode ''carol'') (odrl ''partOf'') (NamedNode ''https://as/c/id-0'')
      \<in> set (description_quads (decode_collection party_body) ''alice'' (NamedNode ''https://as/c/id-0''))"
    by code_simp
  with collection_roundtrip [OF run, of "''https://as/c/id-0''"
      "collection_request ''GET'' ''https://as/c/id-0'' JNull"] body
  show ?thesis
    by (auto simp: alice_state_def reverse_quads_def collection_request_def registration_request_def has_id_def
        intro!: exI [of _ t])
qed

end
