(* ===== verification/Controllers.thy ===== *)
theory Controllers
  imports Collections
begin

text \<open>
  \<open>controller/BaseController.ts\<close>, \<open>controller/PolicyRequestController.ts\<close> and
  \<open>util/routeSpecific/\<close>: how users read, add, change and delete the policies they assigned.
\<close>

subsection \<open>The RDF libraries\<close>

text \<open>
  What the controllers call of other packages: the N3 parser and writer, the SPARQL engine
  (\<open>queryBindings\<close> yields the solutions in order, \<open>queryVoid\<close> the updated store), the reading
  of a string as an N3 term identifier, \<open>stringToTerm\<close> of \<open>rdf-string\<close> and \<open>JSON.parse\<close>.
\<close>

type_synonym binding = "string \<Rightarrow> rterm option"

record rdf_lib =
  parseTurtle :: "string \<Rightarrow> error + quad list"
  writeTurtle :: "store \<Rightarrow> string"
  queryBindings :: "string \<Rightarrow> store \<Rightarrow> error + binding list"
  queryVoid :: "string \<Rightarrow> store \<Rightarrow> error + store"
  termFromId :: "string \<Rightarrow> rterm"
  stringToTerm :: "string \<Rightarrow> error + rterm"
  parseJson :: "string \<Rightarrow> error + js"

definition text_lines :: "string list \<Rightarrow> string" where
  "text_lines ls = concat (map (\<lambda>l. l @ [CHR 0x0A]) (butlast ls)) @ last ls"

subsection \<open>Reading policies\<close>

definition permissionToQuads :: "store \<Rightarrow> rterm \<Rightarrow> quad list" where
  "permissionToQuads st permission =
     concat (map (\<lambda>p. get_quads st (Some p) None None)
       (get_subjects st (Some (odrl ''permission'')) (Some permission)))
     @ get_quads st (Some permission) None None
     @ concat (map (\<lambda>c. get_quads st (Some c) None None)
       (get_objects st (Some permission) (Some (odrl ''constraint''))))"

text \<open>The store of one solution; a variable that is not bound makes the solution invalid.\<close>

fun solution_store :: "(rterm \<Rightarrow> quad list) \<Rightarrow> binding \<Rightarrow> string list \<Rightarrow> store \<Rightarrow> store option" where
  "solution_store quads_of b [] acc = Some acc"
| "solution_store quads_of b (v # vs) acc = (case b v of
     None \<Rightarrow> None
   | Some t \<Rightarrow> solution_store quads_of b vs (add_quads acc (quads_of t)))"

definition executeGet :: "rdf_lib \<Rightarrow> store \<Rightarrow> string \<Rightarrow> string list \<Rightarrow> error + store" where
  "executeGet rdf st query vars = (case queryBindings rdf query st of
     Inl e \<Rightarrow> Inl e
   | Inr bindings \<Rightarrow> Inr (foldl add_quads (new_store [])
       (List.map_filter (\<lambda>b. solution_store (permissionToQuads st) b vars (new_store [])) bindings)))"

definition buildPolicyRetrievalQuery :: "string \<Rightarrow> string \<Rightarrow> string" where
  "buildPolicyRetrievalQuery policyID resourceOwner = text_lines [
     '''',
     ''    PREFIX odrl: <http://www.w3.org/ns/odrl/2/>'',
     ''    '',
     ''    SELECT DISTINCT ?policy ?perm ?target'',
     ''    WHERE {'',
     ''        ?policy odrl:uid <'' @ policyID @ ''> ;'',
     ''                odrl:permission ?perm .'',
     ''        ?perm odrl:assigner <'' @ resourceOwner @ ''> ;'',
     ''              odrl:target ?target .'',
     '''',
     ''        {'',
     ''            ?policy a odrl:Agreement .'',
     ''        } UNION {'',
     ''            ?policy a odrl:Set .'',
     ''        }'',
     ''    }'',
     '''']"

definition getPolicy :: "rdf_lib \<Rightarrow> store \<Rightarrow> string \<Rightarrow> string \<Rightarrow> error + store" where
  "getPolicy rdf st policyID resourceOwner =
     executeGet rdf st (buildPolicyRetrievalQuery policyID resourceOwner) [''policy'', ''perm'']"

definition buildPoliciesRetrievalQuery :: "string \<Rightarrow> string" where
  "buildPoliciesRetrievalQuery resourceOwner = text_lines [
     '''',
     ''    PREFIX odrl: <http://www.w3.org/ns/odrl/2/>'',
     ''    '',
     ''    SELECT DISTINCT ?policy ?perm ?target'',
     ''    WHERE {'',
     ''        ?policy odrl:permission ?perm .'',
     ''        ?perm odrl:assigner <'' @ resourceOwner @ ''> ;'',
     ''              odrl:target ?target .'',
     '''',
     ''        {'',
     ''            ?policy a odrl:Agreement .'',
     ''        } UNION {'',
     ''            ?policy a odrl:Set .'',
     ''        }'',
     ''    }'',
     '''']"

definition getPolicies :: "rdf_lib \<Rightarrow> store \<Rightarrow> string \<Rightarrow> error + store" where
  "getPolicies rdf st resourceOwner = executeGet rdf st (buildPoliciesRetrievalQuery resourceOwner) [''perm'']"

subsection \<open>Adding and patching policies\<close>

definition is_assigner :: "rdf_lib \<Rightarrow> store \<Rightarrow> string \<Rightarrow> bool" where
  "is_assigner rdf st resourceOwner =
     (count_quads st None (Some (odrl ''assigner'')) (Some (termFromId rdf resourceOwner)) \<noteq> 0)"

text \<open>
  The stores of the solutions are collected, but only their number matters: the promise resolves
  to the store that was queried. It rejects with a string, which has no status code.
\<close>

definition executePost :: "rdf_lib \<Rightarrow> store \<Rightarrow> string \<Rightarrow> string list \<Rightarrow> error + store" where
  "executePost rdf st query vars = (case queryBindings rdf query st of
     Inl e \<Rightarrow> Inl e
   | Inr bindings \<Rightarrow>
       if List.map_filter (\<lambda>b. solution_store (\<lambda>t. get_quads st (Some t) None None) b vars (new_store [])) bindings = []
       then Inl PlainError else Inr st)"

definition buildPolicyCreationQuery :: "string \<Rightarrow> string" where
  "buildPolicyCreationQuery resourceOwner = text_lines [
     '''',
     ''    PREFIX odrl: <http://www.w3.org/ns/odrl/2/>'',
     '''',
     ''    SELECT DISTINCT ?p ?r ?target'',
     ''    WHERE {'',
     ''        {'',
     ''            ?p a odrl:Agreement ;'',
     ''               odrl:permission ?r ;'',
     ''               odrl:uid ?p .'',
     ''            ?r odrl:assignee ?assignee .'',
     ''        } UNION {'',
     ''            ?p a odrl:Set ;'',
     ''               odrl:permission ?r ;'',
     ''               odrl:uid ?p .'',
     ''        }'',
     '''',
     ''        ?r a odrl:Permission ;'',
     ''           odrl:action ?action ;'',
     ''           odrl:target ?target ;'',
     ''           odrl:assigner <'' @ resourceOwner @ ''> .'',
     ''    }'',
     '''']"

definition postPolicy :: "rdf_lib \<Rightarrow> store \<Rightarrow> string \<Rightarrow> error + store \<times> string" where
  "postPolicy rdf st resourceOwner =
     (if \<not> is_assigner rdf st resourceOwner then Inl Forbidden
      else case executePost rdf st (buildPolicyCreationQuery resourceOwner) [''p'', ''r''] of
        Inl e \<Rightarrow> Inl e
      | Inr result \<Rightarrow> Inr (result, ''''))"

definition patchPolicy :: "rdf_lib \<Rightarrow> store \<Rightarrow> string \<Rightarrow> string \<Rightarrow> error + store" where
  "patchPolicy rdf st resourceOwner query =
     (if \<not> is_assigner rdf st resourceOwner then Inl Forbidden else queryVoid rdf query st)"

definition noAlreadyDefinedSubjects :: "store \<Rightarrow> store \<Rightarrow> bool" where
  "noAlreadyDefinedSubjects st newStore =
     list_all (\<lambda>subj. count_quads st (Some subj) None None = 0) (get_subjects newStore None None)"

subsection \<open>The base controller\<close>

text \<open>
  The functions a controller is given. The ones that change the store they get return the changed
  store. The information of a patch is a JSON value; a query is a string.
\<close>

record sanitizers =
  sanitizePost :: "store \<Rightarrow> string \<Rightarrow> (store \<times> string) dialog"
  sanitizeDelete :: "store \<Rightarrow> string \<Rightarrow> string \<Rightarrow> store dialog"
  sanitizeGets :: "store \<Rightarrow> string \<Rightarrow> store dialog"
  sanitizeGet :: "store \<Rightarrow> string \<Rightarrow> string \<Rightarrow> store dialog"
  sanitizePatch :: "store \<Rightarrow> string \<Rightarrow> string \<Rightarrow> js \<Rightarrow> store dialog"

definition controller_get :: "rdf_lib \<Rightarrow> store dialog \<Rightarrow> string response dialog" where
  "controller_get rdf sanitized =
     bind sanitized (\<lambda>st.
     return \<lparr>status = 200, content = if st \<noteq> [] then writeTurtle rdf st else ''''\<rparr>)"

definition getEntities ::
  "rdf_lib \<Rightarrow> dialog_state rules_storage \<Rightarrow> sanitizers \<Rightarrow> string \<Rightarrow> string response dialog" where
  "getEntities rdf sto c clientID =
     controller_get rdf (bind (getStore sto) (\<lambda>st. sanitizeGets c st clientID))"

definition getEntity ::
  "rdf_lib \<Rightarrow> dialog_state rules_storage \<Rightarrow> sanitizers \<Rightarrow> string \<Rightarrow> string \<Rightarrow> string response dialog" where
  "getEntity rdf sto c entityID clientID =
     controller_get rdf (bind (getStore sto) (\<lambda>st. sanitizeGet c st entityID clientID))"

text \<open>A promise that is not awaited: its effect happens, its rejection is not seen.\<close>

definition unawaited :: "('s, unit) act \<Rightarrow> ('s, unit) act" where
  "unawaited m = (\<lambda>s. (Inr (), snd (m s)))"

definition addEntity ::
  "rdf_lib \<Rightarrow> dialog_state rules_storage \<Rightarrow> sanitizers \<Rightarrow> string \<Rightarrow> string \<Rightarrow> string response dialog" where
  "addEntity rdf sto c data clientID =
     bind (lift (parseTurtle rdf data)) (\<lambda>qs.
     bind (sanitizePost c (new_store qs) clientID) (\<lambda>(result, i).
     bind (getStore sto) (\<lambda>st.
     if noAlreadyDefinedSubjects st result
     then bind (unawaited (addRule sto result)) (\<lambda>_. return \<lparr>status = 201, content = i\<rparr>)
     else throw Conflict)))"

definition deleteEntity ::
  "dialog_state rules_storage \<Rightarrow> sanitizers \<Rightarrow> string \<Rightarrow> string \<Rightarrow> nat dialog" where
  "deleteEntity sto c entityID clientID =
     bind (getStore sto) (\<lambda>st.
     bind (sanitizeDelete c (new_store st) entityID clientID) (\<lambda>filteredStore.
     bind (getStore sto) (\<lambda>st.
     bind (removeData sto (difference st filteredStore)) (\<lambda>_. return 204))))"

definition patchEntity ::
  "dialog_state rules_storage \<Rightarrow> sanitizers \<Rightarrow> string \<Rightarrow> js \<Rightarrow> string \<Rightarrow> bool \<Rightarrow> string response dialog" where
  "patchEntity sto c entityID patchInformation clientID isolate =
     bind (getStore sto) (\<lambda>st.
     let filteredStore = new_store st in
     bind (if isolate
           then bind (sanitizeGet c filteredStore entityID clientID) (\<lambda>filteredStore.
                bind (getStore sto) (\<lambda>st.
                return (filteredStore, remove_quads (new_store st) filteredStore)))
           else return (filteredStore, [])) (\<lambda>(filteredStore, omitStore).
     bind (sanitizePatch c filteredStore entityID clientID patchInformation) (\<lambda>filteredStore.
     bind (if isolate
           then bind (sanitizeGet c filteredStore entityID clientID) (\<lambda>filteredStore.
                return (add_quads omitStore filteredStore))
           else return filteredStore) (\<lambda>filteredStore.
     bind (getStore sto) (\<lambda>originalStore.
     let remove = difference originalStore filteredStore;
         add = difference filteredStore originalStore in
     bind (if remove \<noteq> [] then removeData sto remove else return ()) (\<lambda>_.
     bind (if add \<noteq> [] then addRule sto add else return ()) (\<lambda>_.
     return \<lparr>status = 204, content = ''''\<rparr>)))))))"

text \<open>\<open>putEntity\<close> deletes through \<open>this.deleteEntity\<close>, which a controller may override.\<close>

definition putEntity ::
  "rdf_lib \<Rightarrow> dialog_state rules_storage \<Rightarrow> sanitizers \<Rightarrow> string \<Rightarrow> string \<Rightarrow> string \<Rightarrow> nat dialog" where
  "putEntity rdf sto c data entityID clientID =
     bind (getEntity rdf sto c entityID clientID) (\<lambda>getResult.
     if status getResult \<noteq> 200 then return 404
     else bind (lift (parseTurtle rdf data)) (\<lambda>qs.
       bind (sanitizePost c (new_store qs) clientID) (\<lambda>(result, _).
       bind (deleteEntity sto c entityID clientID) (\<lambda>_.
       bind (addRule sto result) (\<lambda>_. return 204)))))"

subsection \<open>The policy controller\<close>

definition deletePolicy :: "rdf_lib \<Rightarrow> store \<Rightarrow> string \<Rightarrow> string \<Rightarrow> error + store" where
  "deletePolicy rdf st policyID resourceOwner = (case getPolicy rdf st policyID resourceOwner of
     Inl e \<Rightarrow> Inl e
   | Inr policy \<Rightarrow> Inr (remove_quads st policy))"

text \<open>\<open>query.toString()\<close> is the query itself for the string a policy patch is.\<close>

definition PolicyController :: "rdf_lib \<Rightarrow> sanitizers" where
  "PolicyController rdf = \<lparr>
     sanitizePost = (\<lambda>st client. lift (postPolicy rdf st client)),
     sanitizeDelete = (\<lambda>st i client. lift (deletePolicy rdf st i client)),
     sanitizeGets = (\<lambda>st client. lift (getPolicies rdf st client)),
     sanitizeGet = (\<lambda>st i client. lift (getPolicy rdf st i client)),
     sanitizePatch = (\<lambda>st i client patch. lift (patchPolicy rdf st client (decode_string patch)))\<rparr>"


subsection \<open>What the queries ask for\<close>

text \<open>
  A policy \<open>p\<close> with a permission \<open>r\<close> the owner assigned, in the default graph, as the two
  retrieval queries describe it.
\<close>

definition assigned_by :: "store \<Rightarrow> string \<Rightarrow> rterm \<Rightarrow> rterm \<Rightarrow> bool" where
  "assigned_by st owner p r \<longleftrightarrow>
     triple p (odrl ''permission'') r \<in> set st
     \<and> triple r (odrl ''assigner'') (NamedNode owner) \<in> set st
     \<and> list_ex (\<lambda>q. q = triple r (odrl ''target'') (object q)) st
     \<and> (triple p rdf_type (odrl ''Agreement'') \<in> set st \<or> triple p rdf_type (odrl ''Set'') \<in> set st)"

definition has_uid :: "store \<Rightarrow> rterm \<Rightarrow> string \<Rightarrow> bool" where
  "has_uid st p i \<longleftrightarrow> triple p (odrl ''uid'') (NamedNode i) \<in> set st"

text \<open>
  The documented meaning of the queries: the engine answers them with the solutions of their
  graph pattern. It is assumed per identifier and owner, since a string that is not an IRI
  changes the query it is pasted into.
\<close>

definition retrieval_answered :: "rdf_lib \<Rightarrow> string \<Rightarrow> string \<Rightarrow> bool" where
  "retrieval_answered rdf i owner \<longleftrightarrow> (\<forall>st. \<exists>rows.
     queryBindings rdf (buildPolicyRetrievalQuery i owner) st = Inr rows
     \<and> (\<forall>b \<in> set rows. \<exists>p r. b ''policy'' = Some p \<and> b ''perm'' = Some r
           \<and> assigned_by st owner p r \<and> has_uid st p i)
     \<and> (\<forall>p r. assigned_by st owner p r \<and> has_uid st p i \<longrightarrow>
           (\<exists>b \<in> set rows. b ''policy'' = Some p \<and> b ''perm'' = Some r)))"

definition listing_answered :: "rdf_lib \<Rightarrow> string \<Rightarrow> bool" where
  "listing_answered rdf owner \<longleftrightarrow> (\<forall>st. \<exists>rows.
     queryBindings rdf (buildPoliciesRetrievalQuery owner) st = Inr rows
     \<and> (\<forall>b \<in> set rows. \<exists>p r. b ''perm'' = Some r \<and> assigned_by st owner p r)
     \<and> (\<forall>p r. assigned_by st owner p r \<longrightarrow> (\<exists>b \<in> set rows. b ''perm'' = Some r)))"

text \<open>What is returned for a policy, and for a client.\<close>

definition policy_group :: "store \<Rightarrow> string \<Rightarrow> string \<Rightarrow> quad set" where
  "policy_group st i owner = {q. \<exists>p r. assigned_by st owner p r \<and> has_uid st p i
     \<and> (q \<in> set (permissionToQuads st p) \<or> q \<in> set (permissionToQuads st r))}"

definition client_policies :: "store \<Rightarrow> string \<Rightarrow> quad set" where
  "client_policies st owner = {q. \<exists>p r. assigned_by st owner p r \<and> q \<in> set (permissionToQuads st r)}"

lemma set_permissionToQuads:
  "set (permissionToQuads st r) = {q \<in> set st.
     (\<exists>p' \<in> set st. subject p' = subject q \<and> predicate p' = odrl ''permission'' \<and> object p' = r)
     \<or> subject q = r
     \<or> (\<exists>c \<in> set st. subject c = r \<and> predicate c = odrl ''constraint'' \<and> object c = subject q)}"
  by (auto simp: permissionToQuads_def get_quads_def get_subjects_def get_objects_def matches_def image_iff)

lemma policy_group_stored: "policy_group st i owner \<subseteq> set st"
  by (auto simp: policy_group_def set_permissionToQuads)

lemma policy_group_subject:
  assumes "assigned_by st owner p r" and "has_uid st p i" and "q \<in> set st" and "subject q = p \<or> subject q = r"
  shows "q \<in> policy_group st i owner"
  using assms by (auto simp: policy_group_def set_permissionToQuads)

lemma solution_store_set:
  "solution_store f b vs acc = (if \<forall>v \<in> set vs. b v \<noteq> None
     then Some (foldl (\<lambda>a v. add_quads a (f (the (b v)))) acc vs) else None)"
  by (induction vs arbitrary: acc) (auto split: option.splits)

lemma set_foldl_add_quads: "set (foldl (\<lambda>a x. add_quads a (g x)) acc xs) = set acc \<union> (\<Union>x \<in> set xs. set (g x))"
  by (induction xs arbitrary: acc) auto

lemma executeGet_answer:
  assumes "queryBindings rdf query st = Inr rows" and "\<forall>b \<in> set rows. \<forall>v \<in> set vars. b v \<noteq> None"
  shows "\<exists>d. executeGet rdf st query vars = Inr d
    \<and> set d = (\<Union>b \<in> set rows. \<Union>v \<in> set vars. set (permissionToQuads st (the (b v))))"
proof -
  have "List.map_filter (\<lambda>b. solution_store (permissionToQuads st) b vars (new_store [])) rows
    = map (\<lambda>b. foldl (\<lambda>a v. add_quads a (permissionToQuads st (the (b v)))) (new_store []) vars) rows"
    using assms(2) by (induction rows) (auto simp: map_filter_simps solution_store_set)
  then show ?thesis
    using set_foldl_add_quads [where g = "\<lambda>x. x" and acc = "new_store []"]
    by (auto simp: executeGet_def assms(1) set_foldl_add_quads foldl_map)
qed

lemma getPolicy_group:
  assumes "retrieval_answered rdf i owner"
  obtains d where "getPolicy rdf st i owner = Inr d" and "set d = policy_group st i owner"
proof -
  from assms [unfolded retrieval_answered_def, THEN spec, of st]
  obtain rows where q: "queryBindings rdf (buildPolicyRetrievalQuery i owner) st = Inr rows"
    and sound: "\<forall>b \<in> set rows. \<exists>p r. b ''policy'' = Some p \<and> b ''perm'' = Some r
       \<and> assigned_by st owner p r \<and> has_uid st p i"
    and complete: "\<forall>p r. assigned_by st owner p r \<and> has_uid st p i \<longrightarrow>
       (\<exists>b \<in> set rows. b ''policy'' = Some p \<and> b ''perm'' = Some r)"
    by (elim exE conjE)
  have "\<forall>b \<in> set rows. \<forall>v \<in> set [''policy'', ''perm'']. b v \<noteq> None"
    using sound by auto
  from executeGet_answer [OF q this, folded getPolicy_def]
  obtain d where d: "getPolicy rdf st i owner = Inr d"
    and set_d: "set d = (\<Union>b \<in> set rows. \<Union>v \<in> set [''policy'', ''perm'']. set (permissionToQuads st (the (b v))))"
    by (elim exE conjE)
  have "set d = policy_group st i owner"
  proof (intro set_eqI iffI)
    fix x assume "x \<in> set d"
    then obtain b where b: "b \<in> set rows" and x: "x \<in> set (permissionToQuads st (the (b ''policy'')))
        \<or> x \<in> set (permissionToQuads st (the (b ''perm'')))"
      unfolding set_d by auto
    from bspec [OF sound b] obtain p r where "b ''policy'' = Some p" "b ''perm'' = Some r"
      "assigned_by st owner p r" "has_uid st p i"
      by (elim exE conjE)
    with x show "x \<in> policy_group st i owner"
      unfolding policy_group_def by (intro CollectI exI [of _ p] exI [of _ r]) simp
  next
    fix x assume "x \<in> policy_group st i owner"
    then obtain p r where "assigned_by st owner p r \<and> has_uid st p i"
      and x: "x \<in> set (permissionToQuads st p) \<or> x \<in> set (permissionToQuads st r)"
      unfolding policy_group_def by blast
    with complete obtain b where "b \<in> set rows" "b ''policy'' = Some p" "b ''perm'' = Some r"
      by blast
    with x show "x \<in> set d" unfolding set_d by force
  qed
  then show ?thesis using that d by blast
qed


lemma getPolicies_listed:
  assumes "listing_answered rdf owner"
  obtains d where "getPolicies rdf st owner = Inr d" and "set d = client_policies st owner"
proof -
  from assms [unfolded listing_answered_def, THEN spec, of st]
  obtain rows where q: "queryBindings rdf (buildPoliciesRetrievalQuery owner) st = Inr rows"
    and sound: "\<forall>b \<in> set rows. \<exists>p r. b ''perm'' = Some r \<and> assigned_by st owner p r"
    and complete: "\<forall>p r. assigned_by st owner p r \<longrightarrow> (\<exists>b \<in> set rows. b ''perm'' = Some r)"
    by (elim exE conjE)
  have "\<forall>b \<in> set rows. \<forall>v \<in> set [''perm'']. b v \<noteq> None"
    using sound by auto
  from executeGet_answer [OF q this, folded getPolicies_def]
  obtain d where d: "getPolicies rdf st owner = Inr d"
    and set_d: "set d = (\<Union>b \<in> set rows. \<Union>v \<in> set [''perm'']. set (permissionToQuads st (the (b v))))"
    by (elim exE conjE)
  have "set d = client_policies st owner"
  proof (intro set_eqI iffI)
    fix x assume "x \<in> set d"
    then obtain b where b: "b \<in> set rows" and x: "x \<in> set (permissionToQuads st (the (b ''perm'')))"
      unfolding set_d by auto
    from bspec [OF sound b] obtain p r where "b ''perm'' = Some r" "assigned_by st owner p r"
      by (elim exE conjE)
    with x show "x \<in> client_policies st owner"
      unfolding client_policies_def by (intro CollectI exI [of _ p] exI [of _ r]) simp
  next
    fix x assume "x \<in> client_policies st owner"
    then obtain p r where "assigned_by st owner p r" and x: "x \<in> set (permissionToQuads st r)"
      unfolding client_policies_def by blast
    with complete obtain b where "b \<in> set rows" "b ''perm'' = Some r"
      by blast
    with x show "x \<in> set d" unfolding set_d by force
  qed
  then show ?thesis using that d by blast
qed

subsection \<open>Properties of the policy endpoint's controller\<close>

lemmas policy_controller = PolicyController_def lift_def bind_def return_def throw_def
  policyStorage_defs

lemma getEntity_run:
  assumes "retrieval_answered rdf i client"
  obtains d where "getEntity rdf policyStorage (PolicyController rdf) i client s
      = (Inr \<lparr>status = 200, content = if d \<noteq> [] then writeTurtle rdf d else ''''\<rparr>, s)"
    and "set d = policy_group (policies s) i client"
proof -
  obtain d where "getPolicy rdf (policies s) i client = Inr d" "set d = policy_group (policies s) i client"
    using assms by (rule getPolicy_group)
  with that show ?thesis by (simp add: getEntity_def controller_get_def policy_controller)
qed

text \<open>
  what a client reads. With the query engine answering the two retrieval queries, reading
  writes out exactly the policies with the identifier that have a permission the client assigned,
  with those permissions and their constraints, and listing exactly the permissions the client
  assigned with the policies they are in; nothing changes.
\<close>

theorem policies_read:
  assumes "retrieval_answered rdf i client" and "listing_answered rdf client"
  shows "\<exists>d ds.
     getEntity rdf policyStorage (PolicyController rdf) i client s
       = (Inr \<lparr>status = 200, content = if d \<noteq> [] then writeTurtle rdf d else ''''\<rparr>, s)
     \<and> getEntities rdf policyStorage (PolicyController rdf) client s
       = (Inr \<lparr>status = 200, content = if ds \<noteq> [] then writeTurtle rdf ds else ''''\<rparr>, s)
     \<and> set d = policy_group (policies s) i client \<and> set ds = client_policies (policies s) client
     \<and> (\<forall>q \<in> set d \<union> set ds. q \<in> set (policies s) \<and> (\<exists>p r. assigned_by (policies s) client p r))"
proof -
  obtain d where d: "getEntity rdf policyStorage (PolicyController rdf) i client s
       = (Inr \<lparr>status = 200, content = if d \<noteq> [] then writeTurtle rdf d else ''''\<rparr>, s)"
    "set d = policy_group (policies s) i client"
    using assms(1) by (rule getEntity_run)
  obtain ds where ds: "getPolicies rdf (policies s) client = Inr ds" "set ds = client_policies (policies s) client"
    using assms(2) by (rule getPolicies_listed)
  have "getEntities rdf policyStorage (PolicyController rdf) client s
       = (Inr \<lparr>status = 200, content = if ds \<noteq> [] then writeTurtle rdf ds else ''''\<rparr>, s)"
    using ds(1) by (simp add: getEntities_def controller_get_def policy_controller)
  moreover have "q \<in> set (policies s) \<and> (\<exists>p r. assigned_by (policies s) client p r)" if "q \<in> set d \<union> set ds" for q
    using that unfolding d(2) ds(2) by (auto simp: policy_group_def client_policies_def set_permissionToQuads)
  ultimately show ?thesis using d ds(2) by blast
qed

lemma deleteEntity_run:
  assumes "retrieval_answered rdf i client"
  obtains d where "deleteEntity policyStorage (PolicyController rdf) i client s
      = (Inr 204, s\<lparr>policies := remove_quads (policies s) d\<rparr>)"
    and "set d = policy_group (policies s) i client"
proof -
  obtain d where d: "getPolicy rdf (new_store (policies s)) i client = Inr d"
      "set d = policy_group (new_store (policies s)) i client"
    using assms by (rule getPolicy_group)
  have same: "policy_group (new_store (policies s)) i client = policy_group (policies s) i client"
    by (simp add: policy_group_def assigned_by_def has_uid_def set_permissionToQuads list_ex_iff)
  have "difference (policies s) (remove_quads (new_store (policies s)) d) = filter (\<lambda>q. q \<in> set d) (policies s)"
    by (auto simp: difference_def intro!: filter_cong)
  moreover have "remove_quads (policies s) (filter (\<lambda>q. q \<in> set d) (policies s)) = remove_quads (policies s) d"
    by (auto simp: remove_quads_def intro!: filter_cong)
  ultimately have "deleteEntity policyStorage (PolicyController rdf) i client s
      = (Inr 204, s\<lparr>policies := remove_quads (policies s) d\<rparr>)"
    by (simp add: deleteEntity_def deletePolicy_def d policy_controller)
  then show ?thesis using that d(2) same by blast
qed


lemma remaining_group_empty:
  assumes "set st' = set st - policy_group st i client"
  shows "policy_group st' i client = {}"
proof -
  have "\<not> (assigned_by st' client p r \<and> has_uid st' p i)" for p r
  proof
    assume a: "assigned_by st' client p r \<and> has_uid st' p i"
    then have "assigned_by st client p r" "has_uid st p i"
      using assms by (auto simp: assigned_by_def has_uid_def list_ex_iff)
    then have "triple p (odrl ''permission'') r \<in> policy_group st i client"
      by (rule policy_group_subject) (auto simp: assigned_by_def \<open>assigned_by st client p r\<close> [unfolded assigned_by_def])
    with a assms show False by (auto simp: assigned_by_def)
  qed
  then show ?thesis unfolding policy_group_def by blast
qed

text \<open>
  C34: deleting a policy. With the query engine answering, a DELETE removes exactly what a GET by
  the same client returned: afterwards the GET returns nothing, a client without a permission in
  the policy removes nothing, and of a policy in which the client assigned a permission no quad
  stays, so that the permissions other clients assigned in it are no longer part of a policy.
\<close>

theorem policy_deleted:
  assumes "retrieval_answered rdf i client"
  shows "\<exists>t. deleteEntity policyStorage (PolicyController rdf) i client s = (Inr 204, t)
    \<and> t = s\<lparr>policies := policies t\<rparr>
    \<and> set (policies t) = set (policies s) - policy_group (policies s) i client
    \<and> getEntity rdf policyStorage (PolicyController rdf) i client t = (Inr \<lparr>status = 200, content = ''''\<rparr>, t)
    \<and> (\<forall>p r q. assigned_by (policies s) client p r \<and> has_uid (policies s) p i \<and> subject q = p \<longrightarrow>
         q \<notin> set (policies t))"
proof -
  obtain d where run: "deleteEntity policyStorage (PolicyController rdf) i client s
      = (Inr 204, s\<lparr>policies := remove_quads (policies s) d\<rparr>)"
    and d: "set d = policy_group (policies s) i client"
    using assms by (rule deleteEntity_run)
  let ?t = "s\<lparr>policies := remove_quads (policies s) d\<rparr>"
  have pol: "set (policies ?t) = set (policies s) - policy_group (policies s) i client"
    by (auto simp: d)
  obtain e where get: "getEntity rdf policyStorage (PolicyController rdf) i client ?t
      = (Inr \<lparr>status = 200, content = if e \<noteq> [] then writeTurtle rdf e else ''''\<rparr>, ?t)"
    and "set e = policy_group (policies ?t) i client"
    using assms by (rule getEntity_run)
  then have "e = []" using remaining_group_empty [OF pol] by simp
  with run get pol policy_group_subject show ?thesis by auto
qed

definition policy_accepted :: "rdf_lib \<Rightarrow> string \<Rightarrow> store \<Rightarrow> bool" where
  "policy_accepted rdf client st \<longleftrightarrow> (\<exists>x. postPolicy rdf st client = Inr x)"

lemma postPolicy_Inr: "postPolicy rdf st client = Inr (d, i) \<Longrightarrow> d = st \<and> i = '''' \<and> is_assigner rdf st client"
  by (auto simp: postPolicy_def executePost_def split: if_splits sum.splits)

text \<open>
  adding policies. A POST succeeds exactly when the body parses, the policy check accepts it
  for the client and no subject of it occurs in the stored policies; it then adds exactly the
  quads of the body, and what was stored about any subject before is what is stored about it
  afterwards. A refused POST changes nothing, and who owns the target of the policy plays no part.
\<close>

theorem policy_added:
  assumes "addEntity rdf policyStorage (PolicyController rdf) data client s = (r, t)"
  shows "((\<exists>resp. r = Inr resp) \<longleftrightarrow> (\<exists>qs. parseTurtle rdf data = Inr qs
        \<and> policy_accepted rdf client (new_store qs)
        \<and> (\<forall>q \<in> set qs. \<forall>q' \<in> set (policies s). subject q' \<noteq> subject q)))
    \<and> (\<forall>e. r = Inl e \<longrightarrow> t = s)
    \<and> (\<forall>resp qs. r = Inr resp \<and> parseTurtle rdf data = Inr qs \<longrightarrow>
         t = s\<lparr>policies := policies t\<rparr> \<and> set (policies t) = set (policies s) \<union> set qs
         \<and> (\<forall>q q'. q \<in> set (policies s) \<and> subject q' = subject q \<longrightarrow>
              (q' \<in> set (policies t) \<longleftrightarrow> q' \<in> set (policies s))))
    \<and> fst (addEntity rdf policyStorage (PolicyController rdf) data client (s\<lparr>ownershipStore := o'\<rparr>)) = r"
proof -
  have new: "noAlreadyDefinedSubjects st d \<longleftrightarrow> (\<forall>q \<in> set d. \<forall>q' \<in> set st. subject q' \<noteq> subject q)" for st d
    by (auto simp: noAlreadyDefinedSubjects_def list_all_iff count_quads_def get_quads_def get_subjects_def
        matches_def filter_empty_conv)
  show ?thesis
  proof (cases "parseTurtle rdf data")
    case (Inl e)
    with assms show ?thesis by (auto simp: addEntity_def bind_def lift_def)
  next
    case qs: (Inr qs)
    show ?thesis
    proof (cases "postPolicy rdf (new_store qs) client")
      case (Inl e)
      with assms qs show ?thesis
        by (auto simp: addEntity_def bind_def lift_def PolicyController_def policy_accepted_def)
    next
      case (Inr x)
      then obtain i where "postPolicy rdf (new_store qs) client = Inr (new_store qs, i)"
        using postPolicy_Inr by (cases x) metis
      with assms qs show ?thesis
        by (auto simp: addEntity_def bind_def lift_def PolicyController_def policy_accepted_def new
            policyStorage_defs unawaited_def return_def throw_def split: if_splits) metis
    qed
  qed
qed


lemma patchEntity_run:
  assumes "retrieval_answered rdf i client"
  obtains d where "set d = policy_group (policies s) i client"
    and "patchEntity policyStorage (PolicyController rdf) i patch client True s =
      (case patchPolicy rdf d client (decode_string patch) of
         Inl e \<Rightarrow> (Inl e, s)
       | Inr u \<Rightarrow> (Inr \<lparr>status = 204, content = ''''\<rparr>, s\<lparr>policies := policies (snd
           (patchEntity policyStorage (PolicyController rdf) i patch client True s))\<rparr>))"
    and "\<And>u. patchPolicy rdf d client (decode_string patch) = Inr u \<Longrightarrow>
      set (policies (snd (patchEntity policyStorage (PolicyController rdf) i patch client True s)))
        = (set (policies s) - policy_group (policies s) i client) \<union> policy_group u i client"
proof -
  obtain d where get: "getPolicy rdf (new_store (policies s)) i client = Inr d"
    and "set d = policy_group (new_store (policies s)) i client"
    using assms by (rule getPolicy_group)
  moreover have "policy_group (new_store (policies s)) i client = policy_group (policies s) i client"
    by (simp add: policy_group_def assigned_by_def has_uid_def set_permissionToQuads list_ex_iff)
  ultimately have d: "set d = policy_group (policies s) i client" by simp
  show ?thesis
  proof (cases "patchPolicy rdf d client (decode_string patch)")
    case (Inl e)
    then show ?thesis
      by (intro that [OF d])
        (simp_all add: patchEntity_def Let_def get policy_controller)
  next
    case (Inr u)
    obtain d' where get': "getPolicy rdf u i client = Inr d'" and d': "set d' = policy_group u i client"
      using assms by (rule getPolicy_group)
    let ?f = "add_quads (remove_quads (new_store (policies s)) d) d'"
    have upd: "s\<lparr>policies := st\<rparr>\<lparr>policies := st'\<rparr> = s\<lparr>policies := st'\<rparr>" for st st' by simp
    have "patchEntity policyStorage (PolicyController rdf) i patch client True s =
      (Inr \<lparr>status = 204, content = ''''\<rparr>, s\<lparr>policies := add_quads
         (remove_quads (policies s) (difference (policies s) ?f)) (difference ?f (policies s))\<rparr>)"
    proof -
      have "remove_quads st [] = st" "add_quads st [] = st" for st
        by (simp_all add: remove_quads_def add_quads_def)
      then show ?thesis
        by (cases "difference (policies s) ?f = []"; cases "difference ?f (policies s) = []")
          (simp_all add: patchEntity_def Let_def get get' Inr policy_controller)
    qed
    then show ?thesis
      by (intro that [OF d]) (auto simp: Inr d d')
  qed
qed

text \<open>
  C33: patching a policy is confined to it. With the query engine answering, a PATCH by a client
  that assigned no permission in a policy with the identifier is refused; one that succeeds
  replaces exactly the quads a GET returned by those of the patched policy that such a GET would
  return, leaves every other quad alone, and one that fails changes nothing.
\<close>

theorem policy_patch_confined:
  assumes "retrieval_answered rdf i client"
    and "patchEntity policyStorage (PolicyController rdf) i patch client True s = (r, t)"
  shows "(policy_group (policies s) i client = {} \<longrightarrow> r = Inl Forbidden)
    \<and> (\<forall>e. r = Inl e \<longrightarrow> t = s)
    \<and> (\<forall>resp. r = Inr resp \<longrightarrow> resp = \<lparr>status = 204, content = ''''\<rparr> \<and> t = s\<lparr>policies := policies t\<rparr>
         \<and> (\<exists>d u. set d = policy_group (policies s) i client
              \<and> queryVoid rdf (decode_string patch) d = Inr u
              \<and> set (policies t) = (set (policies s) - set d) \<union> policy_group u i client))"
proof -
  obtain d where d: "set d = policy_group (policies s) i client"
    and run: "patchEntity policyStorage (PolicyController rdf) i patch client True s =
      (case patchPolicy rdf d client (decode_string patch) of
         Inl e \<Rightarrow> (Inl e, s)
       | Inr u \<Rightarrow> (Inr \<lparr>status = 204, content = ''''\<rparr>, s\<lparr>policies := policies (snd
           (patchEntity policyStorage (PolicyController rdf) i patch client True s))\<rparr>))"
    and pol: "\<And>u. patchPolicy rdf d client (decode_string patch) = Inr u \<Longrightarrow>
      set (policies (snd (patchEntity policyStorage (PolicyController rdf) i patch client True s)))
        = (set (policies s) - policy_group (policies s) i client) \<union> policy_group u i client"
    using assms(1) by (rule patchEntity_run) blast
  have none: "patchPolicy rdf [] client q = Inl Forbidden" for q
    by (simp add: patchPolicy_def is_assigner_def count_quads_def get_quads_def)
  show ?thesis
  proof (cases "patchPolicy rdf d client (decode_string patch)")
    case (Inl e)
    with run assms(2) d none show ?thesis by auto
  next
    case (Inr u)
    then have q: "queryVoid rdf (decode_string patch) d = Inr u"
      by (simp add: patchPolicy_def split: if_splits)
    from run Inr assms(2) have "r = Inr \<lparr>status = 204, content = ''''\<rparr>" "t = s\<lparr>policies := policies t\<rparr>"
      by auto
    moreover have "set (policies t) = (set (policies s) - set d) \<union> policy_group u i client"
      using pol [OF Inr] assms(2) d by simp
    moreover have "policy_group (policies s) i client \<noteq> {}"
      using d none Inr by auto
    ultimately show ?thesis using d q by auto
  qed
qed

text \<open>
  replacing a policy. With the query engine answering, a PUT that is accepted by the policy
  check removes what a GET by the client returned and adds the quads of the body: the same holds
  when nothing had the identifier, since a GET always has status 200, and when the body says
  something about a subject that is already described, for which a POST is refused.
\<close>

theorem policy_replaced:
  assumes "retrieval_answered rdf i client" and "parseTurtle rdf data = Inr qs"
    and "policy_accepted rdf client (new_store qs)"
  shows "\<exists>t. putEntity rdf policyStorage (PolicyController rdf) data i client s = (Inr 204, t)
    \<and> t = s\<lparr>policies := policies t\<rparr>
    \<and> set (policies t) = (set (policies s) - policy_group (policies s) i client) \<union> set qs
    \<and> (\<forall>q \<in> set qs. \<forall>q' \<in> set (policies s). subject q' = subject q \<longrightarrow>
         fst (addEntity rdf policyStorage (PolicyController rdf) data client s) = Inl Conflict)"
proof -
  obtain j where post: "postPolicy rdf (new_store qs) client = Inr (new_store qs, j)"
    using assms(3) postPolicy_Inr unfolding policy_accepted_def by (metis surj_pair)
  obtain d where get: "getEntity rdf policyStorage (PolicyController rdf) i client s
      = (Inr \<lparr>status = 200, content = if d \<noteq> [] then writeTurtle rdf d else ''''\<rparr>, s)"
    using assms(1) by (rule getEntity_run)
  obtain d' where del: "deleteEntity policyStorage (PolicyController rdf) i client s
      = (Inr 204, s\<lparr>policies := remove_quads (policies s) d'\<rparr>)" "set d' = policy_group (policies s) i client"
    using assms(1) by (rule deleteEntity_run)
  have "putEntity rdf policyStorage (PolicyController rdf) data i client s
    = (Inr 204, s\<lparr>policies := add_quads (remove_quads (policies s) d') (new_store qs)\<rparr>)"
    using post get del(1)
    by (simp add: putEntity_def bind_def lift_def assms(2) return_def)
      (simp add: PolicyController_def lift_def policyStorage_defs)
  moreover have "fst (addEntity rdf policyStorage (PolicyController rdf) data client s) = Inl Conflict"
    if "q \<in> set qs" "q' \<in> set (policies s)" "subject q' = subject q" for q q'
  proof -
    have "\<not> noAlreadyDefinedSubjects (policies s) (new_store qs)"
      using that by (auto simp: noAlreadyDefinedSubjects_def list_all_iff count_quads_def get_quads_def
          get_subjects_def matches_def filter_empty_conv)
    then show ?thesis
      using post by (simp add: addEntity_def bind_def lift_def assms(2) PolicyController_def
          policyStorage_defs throw_def)
  qed
  ultimately show ?thesis using del(2) by auto
qed


subsection \<open>Examples\<close>

text \<open>A query engine that answers the queries of one client about one identifier.\<close>

definition reference_rows :: "store \<Rightarrow> string option \<Rightarrow> string \<Rightarrow> binding list" where
  "reference_rows st i client = map (\<lambda>q. [''policy'' \<mapsto> subject q, ''perm'' \<mapsto> object q,
       ''p'' \<mapsto> subject q, ''r'' \<mapsto> object q])
     (filter (\<lambda>q. q = triple (subject q) (odrl ''permission'') (object q)
        \<and> assigned_by st client (subject q) (object q)
        \<and> (case i of None \<Rightarrow> True | Some i \<Rightarrow> has_uid st (subject q) i)) st)"

definition policy_graph :: "string \<Rightarrow> string \<Rightarrow> quad list" where
  "policy_graph i client = [triple (NamedNode i) rdf_type (odrl ''Set''),
     triple (NamedNode i) (odrl ''uid'') (NamedNode i),
     triple (NamedNode i) (odrl ''permission'') (BlankNode i),
     triple (BlankNode i) (odrl ''assigner'') (NamedNode client),
     triple (BlankNode i) (odrl ''target'') (NamedNode ''x'')]"

definition example_rdf :: "string \<Rightarrow> string \<Rightarrow> quad list \<Rightarrow> rdf_lib" where
  "example_rdf i client qs = \<lparr>parseTurtle = (\<lambda>_. Inr qs), writeTurtle = (\<lambda>_. ''turtle''),
     queryBindings = (\<lambda>query st. Inr (reference_rows st
       (if query = buildPolicyRetrievalQuery i client then Some i else None) client)),
     queryVoid = (\<lambda>_ st. Inr (tl st)), termFromId = NamedNode, stringToTerm = (\<lambda>t. Inr (NamedNode t)),
     parseJson = (\<lambda>_. Inl PlainError)\<rparr>"

lemma reference_rows_exact:
  "b \<in> set (reference_rows st i client) \<Longrightarrow> \<exists>p r. b ''policy'' = Some p \<and> b ''perm'' = Some r
     \<and> assigned_by st client p r \<and> (\<forall>j. i = Some j \<longrightarrow> has_uid st p j)"
  "assigned_by st client p r \<Longrightarrow> (\<forall>j. i = Some j \<longrightarrow> has_uid st p j) \<Longrightarrow>
     \<exists>b \<in> set (reference_rows st i client). b ''policy'' = Some p \<and> b ''perm'' = Some r"
proof -
  show "b \<in> set (reference_rows st i client) \<Longrightarrow> \<exists>p r. b ''policy'' = Some p \<and> b ''perm'' = Some r
     \<and> assigned_by st client p r \<and> (\<forall>j. i = Some j \<longrightarrow> has_uid st p j)"
    by (auto simp: reference_rows_def split: option.splits)
next
  assume a: "assigned_by st client p r" "\<forall>j. i = Some j \<longrightarrow> has_uid st p j"
  then have "triple p (odrl ''permission'') r \<in> set (filter (\<lambda>q. q = triple (subject q) (odrl ''permission'') (object q)
        \<and> assigned_by st client (subject q) (object q)
        \<and> (case i of None \<Rightarrow> True | Some i \<Rightarrow> has_uid st (subject q) i)) st)"
    by (auto simp: assigned_by_def split: option.split)
  then show "\<exists>b \<in> set (reference_rows st i client). b ''policy'' = Some p \<and> b ''perm'' = Some r"
    unfolding reference_rows_def by force
qed

lemma example_retrieval: "retrieval_answered (example_rdf i client qs) i client"
proof -
  have q: "queryBindings (example_rdf i client qs) (buildPolicyRetrievalQuery i client) st
    = Inr (reference_rows st (Some i) client)" for st
    by (simp add: example_rdf_def)
  have rows: "(\<forall>b \<in> set (reference_rows st (Some i) client). \<exists>p r. b ''policy'' = Some p \<and> b ''perm'' = Some r
           \<and> assigned_by st client p r \<and> has_uid st p i)
     \<and> (\<forall>p r. assigned_by st client p r \<and> has_uid st p i \<longrightarrow>
           (\<exists>b \<in> set (reference_rows st (Some i) client). b ''policy'' = Some p \<and> b ''perm'' = Some r))" for st
  proof (intro allI conjI ballI impI)
    fix b assume "b \<in> set (reference_rows st (Some i) client)"
    from reference_rows_exact(1) [OF this]
    show "\<exists>p r. b ''policy'' = Some p \<and> b ''perm'' = Some r \<and> assigned_by st client p r \<and> has_uid st p i"
      by simp
  next
    fix p r assume "assigned_by st client p r \<and> has_uid st p i"
    then show "\<exists>b \<in> set (reference_rows st (Some i) client). b ''policy'' = Some p \<and> b ''perm'' = Some r"
      by (intro reference_rows_exact(2)) simp_all
  qed
  show ?thesis
    unfolding retrieval_answered_def by (rule allI, rule exI, rule conjI [OF q rows])
qed

lemma example_listing: "listing_answered (example_rdf ''p1'' ''alice'' qs) ''alice''"
proof -
  have "buildPoliciesRetrievalQuery ''alice'' \<noteq> buildPolicyRetrievalQuery ''p1'' ''alice''"
    by code_simp
  then have q: "queryBindings (example_rdf ''p1'' ''alice'' qs) (buildPoliciesRetrievalQuery ''alice'') st
    = Inr (reference_rows st None ''alice'')" for st
    by (simp add: example_rdf_def)
  have rows: "(\<forall>b \<in> set (reference_rows st None ''alice''). \<exists>p r. b ''perm'' = Some r \<and> assigned_by st ''alice'' p r)
     \<and> (\<forall>p r. assigned_by st ''alice'' p r \<longrightarrow> (\<exists>b \<in> set (reference_rows st None ''alice''). b ''perm'' = Some r))" for st
  proof (intro allI conjI ballI impI)
    fix b assume "b \<in> set (reference_rows st None ''alice'')"
    from reference_rows_exact(1) [OF this]
    show "\<exists>p r. b ''perm'' = Some r \<and> assigned_by st ''alice'' p r"
      by (elim exE conjE) (intro exI conjI)
  next
    fix p r assume "assigned_by st ''alice'' p r"
    from reference_rows_exact(2) [OF this, of None]
    show "\<exists>b \<in> set (reference_rows st None ''alice''). b ''perm'' = Some r"
      by auto
  qed
  show ?thesis
    unfolding listing_answered_def by (rule allI, rule exI, rule conjI [OF q rows])
qed

definition policy_state :: dialog_state where
  "policy_state = empty_state\<lparr>policies := policy_graph ''p1'' ''alice'' @ policy_graph ''p2'' ''bob''\<rparr>"

lemma policies_read_witness:
  "\<exists>ds. set ds = client_policies (policies policy_state) ''alice''
     \<and> getEntities (example_rdf ''p1'' ''alice'' []) policyStorage
         (PolicyController (example_rdf ''p1'' ''alice'' [])) ''alice'' policy_state
       = (Inr \<lparr>status = 200, content = if ds \<noteq> [] then ''turtle'' else ''''\<rparr>, policy_state)"
proof -
  have "writeTurtle (example_rdf ''p1'' ''alice'' []) ds = ''turtle''" for ds
    by (simp add: example_rdf_def)
  moreover obtain ds where "set ds = client_policies (policies policy_state) ''alice''"
    "getEntities (example_rdf ''p1'' ''alice'' []) policyStorage
         (PolicyController (example_rdf ''p1'' ''alice'' [])) ''alice'' policy_state
       = (Inr \<lparr>status = 200, content = if ds \<noteq> [] then writeTurtle (example_rdf ''p1'' ''alice'' []) ds else ''''\<rparr>,
          policy_state)"
    using policies_read [OF example_retrieval example_listing, of "[]" policy_state] by (elim exE conjE)
  ultimately show ?thesis by (intro exI [of _ ds]) simp
qed

lemma policy_deleted_witness:
  "\<exists>t. fst (deleteEntity policyStorage (PolicyController (example_rdf ''p1'' ''alice'' [])) ''p1'' ''alice'' policy_state)
      = Inr 204
    \<and> fst (getEntity (example_rdf ''p1'' ''alice'' []) policyStorage
        (PolicyController (example_rdf ''p1'' ''alice'' [])) ''p1'' ''alice'' t) = Inr \<lparr>status = 200, content = ''''\<rparr>"
proof -
  let ?rdf = "example_rdf ''p1'' ''alice'' []"
  obtain t where "deleteEntity policyStorage (PolicyController ?rdf) ''p1'' ''alice'' policy_state = (Inr 204, t)"
    "getEntity ?rdf policyStorage (PolicyController ?rdf) ''p1'' ''alice'' t
       = (Inr \<lparr>status = 200, content = ''''\<rparr>, t)"
    using policy_deleted [OF example_retrieval, of "''p1''" "''alice''" "[]" policy_state] by (elim exE conjE)
  then show ?thesis by (intro exI [of _ t]) simp
qed

lemma policy_added_witness:
  "policies (snd (addEntity (example_rdf ''p3'' ''alice'' (policy_graph ''p3'' ''alice'')) policyStorage
     (PolicyController (example_rdf ''p3'' ''alice'' (policy_graph ''p3'' ''alice''))) ''data'' ''alice'' policy_state))
   \<noteq> policies policy_state"
proof -
  let ?rdf = "example_rdf ''p3'' ''alice'' (policy_graph ''p3'' ''alice'')"
  have run: "fst (addEntity ?rdf policyStorage (PolicyController ?rdf) ''data'' ''alice'' policy_state)
      = Inr \<lparr>status = 201, content = ''''\<rparr>"
    by code_simp
  have "triple (NamedNode ''p3'') rdf_type (odrl ''Set'') \<notin> set (policies policy_state)"
    by code_simp
  moreover have "triple (NamedNode ''p3'') rdf_type (odrl ''Set'') \<in> set (policy_graph ''p3'' ''alice'')"
    by (simp add: policy_graph_def)
  moreover have "parseTurtle ?rdf ''data'' = Inr (policy_graph ''p3'' ''alice'')"
    by (simp add: example_rdf_def)
  ultimately show ?thesis using policy_added [where o' = Map.empty, OF run_fst [OF run]] by auto
qed

lemma policy_patch_confined_witness:
  "fst (patchEntity policyStorage (PolicyController (example_rdf ''p1'' ''bob'' [])) ''p1'' (JStr ''q'') ''bob'' True
     policy_state) = Inl Forbidden"
proof -
  have "policy_group (policies policy_state) ''p1'' ''bob'' = {}"
    by (auto simp: policy_group_def assigned_by_def has_uid_def policy_state_def policy_graph_def)
  then show ?thesis
    using policy_patch_confined [OF example_retrieval prod.collapse [symmetric],
        where i = "''p1''" and client = "''bob''" and s = policy_state] by simp
qed

text \<open>Bob replaces a policy that does not exist by statements about Alice's policy.\<close>

lemma policy_replaced_witness:
  "set (policies (snd (putEntity (example_rdf ''p9'' ''bob'' (policy_graph ''p1'' ''bob'')) policyStorage
     (PolicyController (example_rdf ''p9'' ''bob'' (policy_graph ''p1'' ''bob''))) ''data'' ''p9'' ''bob'' policy_state)))
   = set (policies policy_state) \<union> set (policy_graph ''p1'' ''bob'')"
proof -
  let ?rdf = "example_rdf ''p9'' ''bob'' (policy_graph ''p1'' ''bob'')"
  have "policy_group (policies policy_state) ''p9'' ''bob'' = {}"
    by (auto simp: policy_group_def assigned_by_def has_uid_def policy_state_def policy_graph_def)
  moreover have "parseTurtle ?rdf ''data'' = Inr (policy_graph ''p1'' ''bob'')"
    by (simp add: example_rdf_def)
  moreover have "policy_accepted ?rdf ''bob'' (new_store (policy_graph ''p1'' ''bob''))"
  proof -
    have "postPolicy ?rdf (new_store (policy_graph ''p1'' ''bob'')) ''bob''
      = Inr (new_store (policy_graph ''p1'' ''bob''), '''')" by code_simp
    then show ?thesis by (simp add: policy_accepted_def)
  qed
  ultimately obtain t where "putEntity ?rdf policyStorage (PolicyController ?rdf) ''data'' ''p9'' ''bob'' policy_state
      = (Inr 204, t)"
    "set (policies t) = (set (policies policy_state) - policy_group (policies policy_state) ''p9'' ''bob'')
       \<union> set (policy_graph ''p1'' ''bob'')"
    using policy_replaced [OF example_retrieval, of "''p9''" "''bob''" "policy_graph ''p1'' ''bob''" "''data''"
        "policy_graph ''p1'' ''bob''" policy_state]
    by (elim meta_impE exE conjE)
  with \<open>policy_group (policies policy_state) ''p9'' ''bob'' = {}\<close> show ?thesis by simp
qed

end
