(* ===== verification/AccessRequests.thy ===== *)
theory AccessRequests
  imports Controllers
begin

text \<open>
  \<open>controller/AccessRequestController.ts\<close>: requests for access, which the owner of the requested
  resource accepts (which creates a policy) or denies.
\<close>

subsection \<open>Creating requests\<close>

definition AccessRequest :: pattern where
  "AccessRequest = PObject [(''resource_id'', PString), (''resource_scopes'', PArray PString),
     (''constraints'', POptional (PArray (PTuple [PString, PString, PString])))]"

definition decode_constraints :: "js \<Rightarrow> string list list" where
  "decode_constraints v = (case v of JArr xs \<Rightarrow> map js_string_array xs | _ \<Rightarrow> [])"

definition request_base :: "rterm \<Rightarrow> js \<Rightarrow> string \<Rightarrow> quad list" where
  "request_base subj json clientID =
     [triple subj rdf_type (sotw ''EvaluationRequest''),
      triple subj (sotw ''requestedTarget'') (NamedNode (decode_string (js_prop json ''resource_id''))),
      triple subj (sotw ''requestingParty'') (NamedNode clientID),
      triple subj (sotw ''requestStatus'') (sotw ''requested'')]
     @ map (\<lambda>sc. triple subj (sotw ''requestedAction'') (NamedNode sc))
         (js_string_array (js_prop json ''resource_scopes''))"

text \<open>The loop over the constraints; \<open>n\<close> is \<open>constraintIdx\<close>.\<close>

fun add_constraints :: "rdf_lib \<Rightarrow> rterm \<Rightarrow> nat \<Rightarrow> string list list \<Rightarrow> store \<Rightarrow> error + store" where
  "add_constraints rdf subj n [] st = Inr st"
| "add_constraints rdf subj n (c # cs) st =
     (case those (map (\<lambda>str. case stringToTerm rdf str of Inl e \<Rightarrow> None | Inr t \<Rightarrow> Some t) c) of
        Some [left, opr, right] \<Rightarrow>
          (let cs_subj = NamedNode (term_value subj @ ''-constraint-'' @ nat_str (Suc n)) in
           add_constraints rdf subj (Suc n) cs (add_quads st
             [triple subj (odrl ''constraint'') cs_subj,
              triple cs_subj rdf_type (odrl ''Constraint''),
              triple cs_subj (odrl ''leftOperand'') left,
              triple cs_subj (odrl ''operator'') opr,
              triple cs_subj (odrl ''rightOperand'') right]))
      | _ \<Rightarrow> Inl PlainError)"

definition request_addEntity ::
  "rdf_lib \<Rightarrow> dialog_state rules_storage \<Rightarrow> string \<Rightarrow> string \<Rightarrow> string response dialog" where
  "request_addEntity rdf sto data clientID = (case parseJson rdf data of
     Inl e \<Rightarrow> throw BadRequest
   | Inr json \<Rightarrow>
       if \<not> reType json AccessRequest then throw BadRequest
       else if js_string_array (js_prop json ''resource_scopes'') = [] then throw BadRequest
       else bind randomUUID (\<lambda>i.
         let subj = NamedNode (''http://example.org/'' @ i);
             request = add_quads (new_store []) (request_base subj json clientID) in
         bind (lift (add_constraints rdf subj 0 (decode_constraints (js_prop json ''constraints'')) request)) (\<lambda>request.
         bind (addRule sto request) (\<lambda>_.
         return \<lparr>status = 201, content = term_value subj\<rparr>))))"

subsection \<open>Reading requests\<close>

text \<open>An unbound variable is \<open>undefined\<close>, which the store reads as a wildcard.\<close>

definition getRequestQuads :: "store \<Rightarrow> rterm option \<Rightarrow> quad list" where
  "getRequestQuads st subj = get_quads st subj None None
     @ concat (map (\<lambda>c. get_quads st (Some c) None None)
         (get_objects st subj (Some (odrl ''constraint''))))"

definition requestedSparql :: "string \<Rightarrow> string" where
  "requestedSparql clientId = text_lines [
     ''        '',
     ''            SELECT DISTINCT ?req'',
     ''            WHERE { ?req <https://w3id.org/force/sotw#requestingParty> <'' @ clientId @ ''> }'']"

definition ownedSparql :: "string list \<Rightarrow> string" where
  "ownedSparql resources = text_lines [
     '''',
     ''            SELECT DISTINCT ?req'',
     ''            WHERE {'',
     ''              VALUES (?resource) {'',
     ''                '' @ text_lines (map (\<lambda>res. ''(<'' @ res @ ''>)'') resources),
     ''              }'',
     ''              ?req <https://w3id.org/force/sotw#requestedTarget> ?resource .'',
     ''            }'']"

definition collect_requests :: "store \<Rightarrow> store \<Rightarrow> binding list \<Rightarrow> store" where
  "collect_requests st result bindings =
     foldl (\<lambda>res b. add_quads res (getRequestQuads st (b ''req''))) result bindings"

definition getAccessRequests :: "rdf_lib \<Rightarrow> store \<Rightarrow> string \<Rightarrow> store dialog" where
  "getAccessRequests rdf st clientId =
     bind (lift (queryBindings rdf (requestedSparql clientId) st)) (\<lambda>bindings.
     let result = collect_requests st (new_store []) bindings in
     bind (gets (\<lambda>s. ownershipStore s clientId)) (\<lambda>resources.
     case resources of
       None \<Rightarrow> return result
     | Some rs \<Rightarrow>
         if rs = [] then return result
         else bind (lift (queryBindings rdf (ownedSparql rs) st)) (\<lambda>bindings.
           return (collect_requests st result bindings))))"

definition getAccessRequest :: "store \<Rightarrow> string \<Rightarrow> string \<Rightarrow> store dialog" where
  "getAccessRequest st requestID clientID =
     (let requestNode = NamedNode requestID;
          requesters = get_objects st (Some requestNode) (Some (sotw ''requestingParty'')) in
      if requesters = [] then throw NotFound
      else bind (if list_ex (\<lambda>r. term_value r = clientID) requesters then return True
        else (case get_objects st (Some requestNode) (Some (sotw ''requestedTarget'')) of
            [target] \<Rightarrow> bind (gets (\<lambda>s. owned s clientID)) (\<lambda>ownedResources.
               return (term_value target \<in> set ownedResources))
          | _ \<Rightarrow> throw InternalServer)) (\<lambda>allowedToSee.
      if \<not> allowedToSee then throw Forbidden
      else return (new_store (getRequestQuads st (Some requestNode)))))"

subsection \<open>Resolving requests\<close>

text \<open>The policy an accepted request becomes.\<close>

definition agreement :: "store \<Rightarrow> rterm \<Rightarrow> string \<Rightarrow> string \<Rightarrow> rterm \<Rightarrow> rterm list \<Rightarrow> rterm \<Rightarrow> quad list" where
  "agreement st requestNode iri clientID target actions party =
     (let policyNode = NamedNode iri; permissionNode = NamedNode (iri @ ''-permission'') in
      [triple policyNode rdf_type (odrl ''Agreement''),
       triple policyNode (odrl ''uid'') policyNode,
       triple policyNode (odrl ''permission'') permissionNode,
       triple permissionNode rdf_type (odrl ''Permission'')]
      @ map (\<lambda>action. triple permissionNode (odrl ''action'') action) actions
      @ [triple permissionNode (odrl ''target'') target,
         triple permissionNode (odrl ''assignee'') party,
         triple permissionNode (odrl ''assigner'') (NamedNode clientID)]
      @ concat (map (\<lambda>c. triple permissionNode (odrl ''constraint'') c # get_quads st (Some c) None None)
          (get_objects st (Some requestNode) (Some (odrl ''constraint'')))))"

definition patchAccessRequest :: "store \<Rightarrow> string \<Rightarrow> string \<Rightarrow> js \<Rightarrow> store dialog" where
  "patchAccessRequest st requestID clientID patchInformation =
     (let requestNode = NamedNode requestID in
      case get_objects st (Some requestNode) (Some (sotw ''requestedTarget'')) of
        [] \<Rightarrow> throw NotFound
      | target # _ \<Rightarrow>
         if patchInformation \<noteq> JStr ''accepted'' \<and> patchInformation \<noteq> JStr ''denied'' then throw BadRequest
         else bind (gets (\<lambda>s. owned s clientID)) (\<lambda>ownedResources.
         if term_value target \<notin> set ownedResources then throw Forbidden
         else (case get_objects st (Some requestNode) (Some (sotw ''requestStatus'')) of
           [current] \<Rightarrow>
             if current \<noteq> sotw ''requested'' then throw Conflict
             else (case (get_objects st (Some requestNode) (Some (sotw ''requestedAction'')),
                         get_objects st (Some requestNode) (Some (sotw ''requestingParty''))) of
               (action # actions, [party]) \<Rightarrow>
                 let st = remove_quads st [triple requestNode (sotw ''requestStatus'') (sotw ''requested'')];
                     st = add_quad st (triple requestNode (sotw ''requestStatus'') (sotw (decode_string patchInformation))) in
                 if patchInformation = JStr ''accepted''
                 then bind randomUUID (\<lambda>i.
                   return (add_quads st (agreement st requestNode (''http://example.org/'' @ i) clientID target
                     (action # actions) party)))
                 else return st
             | _ \<Rightarrow> throw InternalServer)
         | _ \<Rightarrow> throw InternalServer)))"

text \<open>
  The functions the controller overrides; \<open>sanitizePost\<close> and \<open>sanitizeDelete\<close> are \<open>null\<close>, and
  calling them would be a \<open>TypeError\<close>.
\<close>

definition AccessRequestController :: "rdf_lib \<Rightarrow> sanitizers" where
  "AccessRequestController rdf = \<lparr>
     sanitizePost = (\<lambda>st client. throw PlainError),
     sanitizeDelete = (\<lambda>st i client. throw PlainError),
     sanitizeGets = getAccessRequests rdf,
     sanitizeGet = getAccessRequest,
     sanitizePatch = patchAccessRequest\<rparr>"

definition request_deleteEntity :: "string \<Rightarrow> string \<Rightarrow> nat dialog" where
  "request_deleteEntity entityID clientID = throw Forbidden"

definition request_putEntity :: "string \<Rightarrow> string \<Rightarrow> string \<Rightarrow> nat dialog" where
  "request_putEntity data entityID clientID = throw Forbidden"


subsection \<open>What the operations do\<close>

definition statuses :: "store \<Rightarrow> string \<Rightarrow> rterm list" where
  "statuses st i = get_objects st (Some (NamedNode i)) (Some (sotw ''requestStatus''))"

definition targets :: "store \<Rightarrow> string \<Rightarrow> rterm list" where
  "targets st i = get_objects st (Some (NamedNode i)) (Some (sotw ''requestedTarget''))"

definition actions :: "store \<Rightarrow> string \<Rightarrow> rterm list" where
  "actions st i = get_objects st (Some (NamedNode i)) (Some (sotw ''requestedAction''))"

definition parties :: "store \<Rightarrow> string \<Rightarrow> rterm list" where
  "parties st i = get_objects st (Some (NamedNode i)) (Some (sotw ''requestingParty''))"

lemmas request_parts = statuses_def targets_def actions_def parties_def

text \<open>The requests a client may resolve.\<close>

definition resolvable :: "dialog_state \<Rightarrow> string \<Rightarrow> string \<Rightarrow> bool" where
  "resolvable s i client \<longleftrightarrow> targets (policies s) i \<noteq> []
     \<and> term_value (hd (targets (policies s) i)) \<in> set (owned s client)
     \<and> statuses (policies s) i = [sotw ''requested''] \<and> actions (policies s) i \<noteq> []
     \<and> length (parties (policies s) i) = 1"

definition with_status :: "store \<Rightarrow> string \<Rightarrow> string \<Rightarrow> store" where
  "with_status st i d = add_quad (remove_quads st
       [triple (NamedNode i) (sotw ''requestStatus'') (sotw ''requested'')])
     (triple (NamedNode i) (sotw ''requestStatus'') (sotw d))"

lemma patch_status_run:
  "patchAccessRequest st i client (JStr d) s = (Inr st', t) \<longleftrightarrow>
     (\<exists>target ts party. targets st i = target # ts \<and> term_value target \<in> set (owned s client)
       \<and> statuses st i = [sotw ''requested''] \<and> actions st i \<noteq> [] \<and> parties st i = [party]
       \<and> (d = ''denied'' \<and> st' = with_status st i d \<and> t = s
          \<or> d = ''accepted'' \<and> t = s\<lparr>drawn := Suc (drawn s)\<rparr>
             \<and> st' = add_quads (with_status st i d) (agreement (with_status st i d) (NamedNode i)
                 (''http://example.org/'' @ fresh_id s) client target (actions st i) party)))"
  by (auto simp: patchAccessRequest_def Let_def request_parts with_status_def decode_string_def
      split: list.splits if_splits)

lemma patch_other_status: "d \<notin> {JStr ''accepted'', JStr ''denied''} \<Longrightarrow> patchAccessRequest st i client d s \<noteq> (Inr st', t)"
  by (auto simp: patchAccessRequest_def Let_def split: list.splits)

lemma patch_refused: "patchAccessRequest st i client d s = (Inl e, t) \<Longrightarrow> t = s"
  by (auto simp: patchAccessRequest_def Let_def split: list.splits if_splits)


text \<open>A store lists each quad once; copying such a store gives it back.\<close>

lemma new_store_id: "distinct st \<Longrightarrow> new_store st = st"
proof -
  have "distinct (a @ st) \<Longrightarrow> add_quads a st = a @ st" for a
    unfolding add_quads_def
    by (induction st arbitrary: a) (simp_all add: add_quad_def)
  from this [of "[]"] show "distinct st \<Longrightarrow> new_store st = st" by (simp add: new_store_def)
qed

lemma resolve_run:
  assumes "distinct (policies s)"
    and "patchEntity policyStorage (AccessRequestController rdf) i patch client False s = (r, t)"
  shows "(case patchAccessRequest (policies s) i client patch s of
      (Inl e, s') \<Rightarrow> r = Inl e \<and> t = s'
    | (Inr st', s') \<Rightarrow> r = Inr \<lparr>status = 204, content = ''''\<rparr> \<and> t = s'\<lparr>policies := policies t\<rparr>
        \<and> set (policies t) = set st' \<and> distinct (policies t))"
proof -
  obtain x s' where run: "patchAccessRequest (policies s) i client patch s = (x, s')"
    by (cases "patchAccessRequest (policies s) i client patch s")
  show ?thesis
  proof (cases x)
    case (Inl e)
    with assms run show ?thesis
      by (simp add: patchEntity_def Let_def new_store_id AccessRequestController_def policyStorage_defs bind_def
          return_def)
  next
    case (Inr st')
    have pol: "policies s' = policies s"
    proof (cases "\<exists>d. patch = JStr d")
      case True
      with run Inr show ?thesis by (auto simp: patch_status_run)
    next
      case False
      then have "patch \<notin> {JStr ''accepted'', JStr ''denied''}" by auto
      from patch_other_status [OF this] run Inr show ?thesis by metis
    qed
    have "remove_quads st [] = st" "add_quads st [] = st" for st
      by (simp_all add: remove_quads_def add_quads_def)
    then have "patchEntity policyStorage (AccessRequestController rdf) i patch client False s
      = (Inr \<lparr>status = 204, content = ''''\<rparr>, s'\<lparr>policies := add_quads
          (remove_quads (policies s) (difference (policies s) st')) (difference st' (policies s))\<rparr>)"
      using run Inr assms(1) pol
      by (cases "difference (policies s) st' = []"; cases "difference st' (policies s) = []")
        (simp_all add: patchEntity_def Let_def new_store_id AccessRequestController_def policyStorage_defs bind_def
          return_def)
    with assms run Inr pol show ?thesis
      by (auto simp: difference_def remove_quads_def intro!: distinct_add_quads)
  qed
qed

lemma get_objects_store:
  assumes "set st = set st'" shows "set (get_objects st subj p) = set (get_objects st' subj p)"
  using assms by (auto simp: get_objects_def get_quads_def)

lemma distinct_singleton:
  assumes "distinct xs" and "set xs = {x}" shows "xs = [x]"
proof -
  have "length xs = Suc 0" using distinct_card [OF assms(1)] assms(2) by simp
  with assms(2) show ?thesis by (cases xs) simp_all
qed

lemma agreement_no_status:
  assumes "q \<in> set (agreement st n iri client target acts party)" and "predicate q = sotw u"
  shows "q \<in> set st"
  using assms by (auto simp: agreement_def Let_def get_quads_def)

lemma set_with_status: "set (with_status st i d) =
    insert (triple (NamedNode i) (sotw ''requestStatus'') (sotw d))
      (set st - {triple (NamedNode i) (sotw ''requestStatus'') (sotw ''requested'')})"
  by (auto simp: with_status_def set_add_quad)

lemma patch_status_outcome:
  assumes "patchAccessRequest st i client (JStr d) s = (Inr st', t)"
  shows "t = s\<lparr>drawn := drawn t\<rparr> \<and> set st' = set (with_status st i d)
    \<union> (if d = ''accepted'' then set (agreement (with_status st i ''accepted'') (NamedNode i)
               (''http://example.org/'' @ fresh_id s) client (hd (targets st i)) (actions st i)
               (hd (parties st i)))
       else {})"
  using assms [unfolded patch_status_run] by (elim exE conjE disjE) simp_all

text \<open>
  C11: resolving a request. A PATCH of a request succeeds exactly when it sets the status to
  accepted or denied, the client owns the requested resource, and the request is unresolved and
  complete. Then it replaces the status and, for an accepted request, adds the policy that lets
  the requesting party do the requested actions on the resource under the request's constraints;
  nothing else changes. A refused PATCH changes nothing.
\<close>

theorem request_resolved:
  assumes "distinct (policies s)"
    and "patchEntity policyStorage (AccessRequestController rdf) i patch client False s = (r, t)"
  shows "((\<exists>resp. r = Inr resp) \<longleftrightarrow>
        patch \<in> {JStr ''accepted'', JStr ''denied''} \<and> resolvable s i client)
    \<and> (\<forall>e. r = Inl e \<longrightarrow> t = s)
    \<and> (\<forall>resp. r = Inr resp \<longrightarrow> t = s\<lparr>policies := policies t, drawn := drawn t\<rparr>
        \<and> set (policies t) = set (with_status (policies s) i (decode_string patch))
          \<union> (if patch = JStr ''accepted''
             then set (agreement (with_status (policies s) i ''accepted'') (NamedNode i)
               (''http://example.org/'' @ fresh_id s) client (hd (targets (policies s) i))
               (actions (policies s) i) (hd (parties (policies s) i)))
             else {}))"
proof (cases "patchAccessRequest (policies s) i client patch s")
  case (Pair x s')
  show ?thesis
  proof (cases "patch \<in> {JStr ''accepted'', JStr ''denied''}")
    case False
    from patch_other_status [OF False] Pair obtain e where "x = Inl e" by (cases x) auto
    with Pair have "r = Inl e \<and> t = s"
      using resolve_run [OF assms] patch_refused by fastforce
    with False show ?thesis by auto
  next
    case True
    then obtain d where d: "patch = JStr d" "d = ''accepted'' \<or> d = ''denied''" by auto
    have iff: "(\<exists>st' s'. patchAccessRequest (policies s) i client patch s = (Inr st', s')) \<longleftrightarrow> resolvable s i client"
      unfolding d(1) patch_status_run resolvable_def using d(2)
      by (auto simp: length_Suc_conv neq_Nil_conv)
    show ?thesis
    proof (cases x)
      case (Inl e)
      with Pair have "r = Inl e \<and> t = s"
        using resolve_run [OF assms] patch_refused by fastforce
      with iff Pair Inl show ?thesis by auto
    next
      case (Inr st')
      with resolve_run [OF assms] Pair have run: "r = Inr \<lparr>status = 204, content = ''''\<rparr>"
        "t = s'\<lparr>policies := policies t\<rparr>" "set (policies t) = set st'" by simp_all
      have st': "s' = s\<lparr>drawn := drawn s'\<rparr> \<and> set st' = set (with_status (policies s) i d)
          \<union> (if patch = JStr ''accepted''
             then set (agreement (with_status (policies s) i ''accepted'') (NamedNode i)
               (''http://example.org/'' @ fresh_id s) client (hd (targets (policies s) i))
               (actions (policies s) i) (hd (parties (policies s) i)))
             else {})"
        using patch_status_outcome [of "policies s" i client d s st' s'] Pair Inr d by simp
      moreover have "t = s\<lparr>policies := policies t, drawn := drawn t\<rparr>"
      proof -
        obtain n ps where "s' = s\<lparr>drawn := n\<rparr>" "t = s'\<lparr>policies := ps\<rparr>"
          using run(2) st' by blast
        then show ?thesis by simp
      qed
      ultimately show ?thesis using run True iff Pair Inr d(1) by (auto simp: decode_string_def)
    qed
  qed
qed


subsection \<open>The life of a request\<close>

abbreviation status_quad :: "string \<Rightarrow> string \<Rightarrow> quad" where
  "status_quad i d \<equiv> triple (NamedNode i) (sotw ''requestStatus'') (sotw d)"

definition status_quads :: "store \<Rightarrow> quad set" where
  "status_quads st = {q \<in> set st. predicate q = sotw ''requestStatus''}"

text \<open>Every request has one status, one of the three of the vocabulary.\<close>

definition requests_ok :: "store \<Rightarrow> bool" where
  "requests_ok st \<longleftrightarrow> distinct st
     \<and> (\<forall>q \<in> status_quads st. graph q = DefaultGraph
          \<and> object q \<in> {sotw ''requested'', sotw ''accepted'', sotw ''denied''})
     \<and> (\<forall>q \<in> status_quads st. \<forall>q' \<in> status_quads st. subject q = subject q' \<longrightarrow> object q = object q')"

lemma requests_okD:
  assumes "requests_ok st" and "q \<in> status_quads st"
  shows "graph q = DefaultGraph" and "object q \<in> {sotw ''requested'', sotw ''accepted'', sotw ''denied''}"
    and "predicate q = sotw ''requestStatus''"
    and "q' \<in> status_quads st \<Longrightarrow> subject q = subject q' \<Longrightarrow> object q = object q'"
proof -
  from assms show "graph q = DefaultGraph" "object q \<in> {sotw ''requested'', sotw ''accepted'', sotw ''denied''}"
    unfolding requests_ok_def by blast+
  from assms(2) show "predicate q = sotw ''requestStatus''" by (simp add: status_quads_def)
  from assms show "q' \<in> status_quads st \<Longrightarrow> subject q = subject q' \<Longrightarrow> object q = object q'"
    unfolding requests_ok_def by blast
qed

lemma set_statuses: "set (statuses st i) = object ` {q \<in> status_quads st. subject q = NamedNode i}"
  by (auto simp: statuses_def get_objects_def get_quads_def matches_def status_quads_def)

lemma statuses_iff:
  assumes "requests_ok st"
  shows "statuses st i = [sotw d] \<longleftrightarrow> status_quad i d \<in> status_quads st"
proof
  assume "statuses st i = [sotw d]"
  then have "sotw d \<in> object ` {q \<in> status_quads st. subject q = NamedNode i}"
    unfolding set_statuses [symmetric] by simp
  then obtain q where q: "sotw d = object q" "q \<in> {q \<in> status_quads st. subject q = NamedNode i}"
    by (rule imageE)
  with requests_okD [OF assms, of q] have "q = status_quad i d"
    by (cases q) (simp add: triple_def status_quads_def)
  with q(2) show "status_quad i d \<in> status_quads st" by simp
next
  assume q: "status_quad i d \<in> status_quads st"
  show "statuses st i = [sotw d]"
  proof (rule distinct_singleton)
    show "distinct (statuses st i)" by (simp add: statuses_def get_objects_def)
    have "object q' = sotw d" if "q' \<in> status_quads st" "subject q' = NamedNode i" for q'
      using requests_okD(4) [OF assms that(1) q] that(2) by simp
    with q show "set (statuses st i) = {sotw d}"
      unfolding set_statuses by (auto intro!: image_eqI [of _ _ "status_quad i d"])
  qed
qed

lemma requests_ok_change:
  assumes "requests_ok st" and "distinct st'" and "d' \<in> {''requested'', ''accepted'', ''denied''}"
    and "status_quads st' = insert (status_quad i d') (status_quads st - {status_quad i d})"
    and "statuses st i \<in> {[], [sotw d]}"
  shows "requests_ok st'"
proof -
  have old: "q = status_quad i d" if "q \<in> status_quads st" "subject q = NamedNode i" for q
  proof -
    have "object q \<in> set (statuses st i)" unfolding set_statuses using that by blast
    with assms(5) have "object q = sotw d" by auto
    with requests_okD(1,3) [OF assms(1) that(1)] that(2) show ?thesis
      by (cases q) (simp add: triple_def)
  qed
  show ?thesis
    unfolding requests_ok_def
  proof (intro conjI ballI impI)
    show "distinct st'" by fact
  next
    fix q assume "q \<in> status_quads st'"
    then consider "q = status_quad i d'" | "q \<in> status_quads st"
      unfolding assms(4) by blast
    then show "graph q = DefaultGraph" "object q \<in> {sotw ''requested'', sotw ''accepted'', sotw ''denied''}"
      using assms(3) requests_okD(1,2) [OF assms(1)] by (cases; auto)+
  next
    fix q q' assume qs: "q \<in> status_quads st'" "q' \<in> status_quads st'" and same: "subject q = subject q'"
    have new: "x = status_quad i d' \<or> x \<in> status_quads st \<and> x \<noteq> status_quad i d" if "x \<in> status_quads st'" for x
      using that unfolding assms(4) by simp
    show "object q = object q'"
    proof (cases "subject q = NamedNode i")
      case True
      have "x = status_quad i d'" if "x \<in> status_quads st'" "subject x = NamedNode i" for x
        using new [OF that(1)] old [OF _ that(2)] by blast
      from this [OF qs(1)] this [OF qs(2)] True same show ?thesis by simp
    next
      case False
      with new [OF qs(1)] new [OF qs(2)] same have "q \<in> status_quads st" "q' \<in> status_quads st" by auto
      then show ?thesis using requests_okD(4) [OF assms(1)] same by blast
    qed
  qed
qed

lemma resolve_cases:
  assumes "distinct (policies s)"
    and "patchEntity policyStorage (AccessRequestController rdf) i patch client False s = (r, t)"
  obtains "policies t = policies s"
  | d where "d \<in> {''accepted'', ''denied''}" and "statuses (policies s) i = [sotw ''requested'']"
      and "distinct (policies t)"
      and "status_quads (policies t) = insert (status_quad i d) (status_quads (policies s) - {status_quad i ''requested''})"
proof (cases "patchAccessRequest (policies s) i client patch s")
  case (Pair x s')
  show ?thesis
  proof (cases x)
    case (Inl e)
    with Pair resolve_run [OF assms] patch_refused [of "policies s" i client patch s e s'] that(1)
    show ?thesis by simp
  next
    case (Inr st')
    then obtain d where d: "patch = JStr d" "d \<in> {''accepted'', ''denied''}"
      using Pair patch_other_status [of patch "policies s" i client s st' s'] by auto
    from Pair Inr d(1) have run: "patchAccessRequest (policies s) i client (JStr d) s = (Inr st', s')" by simp
    have was: "statuses (policies s) i = [sotw ''requested'']"
      using run [unfolded patch_status_run] by (elim exE conjE)
    have pol: "set (policies t) = set st'" "distinct (policies t)"
      using resolve_run [OF assms] Pair Inr by simp_all
    have "q \<in> set st' \<longleftrightarrow> q \<in> set (with_status (policies s) i d)" if "predicate q = sotw ''requestStatus''" for q
      using patch_status_outcome [OF run] agreement_no_status [OF _ that] by auto
    then have "status_quads (policies t) = status_quads (with_status (policies s) i d)"
      by (auto simp: pol status_quads_def)
    also have "\<dots> = insert (status_quad i d) (status_quads (policies s) - {status_quad i ''requested''})"
      by (auto simp: status_quads_def set_with_status)
    finally show ?thesis using that(2) d(2) was pol(2) by blast
  qed
qed

lemma add_constraints_quads:
  assumes "add_constraints rdf subj n cs st = Inr st'"
  shows "set st \<subseteq> set st'" and "status_quads st' = status_quads st" and "distinct st \<Longrightarrow> distinct st'"
proof -
  have "set st \<subseteq> set st' \<and> status_quads st' = status_quads st \<and> (distinct st \<longrightarrow> distinct st')"
    using assms
    by (induction rdf subj n cs st rule: add_constraints.induct)
      (auto simp: Let_def status_quads_def distinct_add_quads split: option.splits list.splits)
  then show "set st \<subseteq> set st'" "status_quads st' = status_quads st" "distinct st \<Longrightarrow> distinct st'" by auto
qed


text \<open>The identifier the next request gets, and the bodies that are accepted.\<close>

definition next_request :: "dialog_state \<Rightarrow> string" where
  "next_request s = ''http://example.org/'' @ fresh_id s"

definition requested_quads :: "rdf_lib \<Rightarrow> string \<Rightarrow> string \<Rightarrow> string \<Rightarrow> store option" where
  "requested_quads rdf data i client = (case parseJson rdf data of
     Inl e \<Rightarrow> None
   | Inr json \<Rightarrow>
       if reType json AccessRequest \<and> js_string_array (js_prop json ''resource_scopes'') \<noteq> []
       then (case add_constraints rdf (NamedNode i) 0 (decode_constraints (js_prop json ''constraints''))
           (new_store (request_base (NamedNode i) json client)) of Inl e \<Rightarrow> None | Inr st \<Rightarrow> Some st)
       else None)"

lemma add_to_empty: "add_quads (new_store []) qs = new_store qs" "add_quads [] qs = new_store qs"
  by (simp_all add: new_store_def add_quads_def)

lemma create_run:
  "request_addEntity rdf policyStorage data client s = (r, t) \<Longrightarrow>
     (case requested_quads rdf data (next_request s) client of
        None \<Rightarrow> (\<exists>e. r = Inl e) \<and> t = s\<lparr>drawn := drawn t\<rparr>
      | Some st \<Rightarrow> r = Inr \<lparr>status = 201, content = next_request s\<rparr>
          \<and> t = s\<lparr>drawn := Suc (drawn s), policies := add_quads (policies s) st\<rparr>)"
  unfolding next_request_def
  by (cases s; cases r; auto simp: request_addEntity_def requested_quads_def Let_def policyStorage_defs bind_eqs
      add_to_empty fresh_id_def split: sum.splits if_splits)

lemma requested_status_quads:
  assumes "requested_quads rdf data i client = Some st"
  shows "status_quads st = {status_quad i ''requested''}" and "distinct st"
    and "triple (NamedNode i) (sotw ''requestingParty'') (NamedNode client) \<in> set st"
proof -
  from assms obtain json where cs: "add_constraints rdf (NamedNode i) 0
      (decode_constraints (js_prop json ''constraints'')) (new_store (request_base (NamedNode i) json client)) = Inr st"
    by (auto simp: requested_quads_def split: sum.splits if_splits)
  have "status_quads (new_store (request_base (NamedNode i) json client)) = {status_quad i ''requested''}"
    by (auto simp: status_quads_def request_base_def)
  then show "status_quads st = {status_quad i ''requested''}"
    using add_constraints_quads(2) [OF cs] by simp
  show "distinct st" using add_constraints_quads(3) [OF cs] distinct_new_store by blast
  show "triple (NamedNode i) (sotw ''requestingParty'') (NamedNode client) \<in> set st"
    using add_constraints_quads(1) [OF cs] by (auto simp: request_base_def)
qed

text \<open>
  The steps the request endpoint takes: requests are created under identifiers without a status
  and resolved; the other operations change no policy.
\<close>

inductive request_step :: "rdf_lib \<Rightarrow> dialog_state \<Rightarrow> dialog_state \<Rightarrow> bool" for rdf where
  create: "request_addEntity rdf policyStorage data client s = (r, t) \<Longrightarrow>
     statuses (policies s) (next_request s) = [] \<Longrightarrow> request_step rdf s t"
| resolve: "patchEntity policyStorage (AccessRequestController rdf) i patch client False s = (r, t) \<Longrightarrow>
     request_step rdf s t"
| other: "policies t = policies s \<Longrightarrow> request_step rdf s t"

lemma create_status_quads:
  assumes "request_addEntity rdf policyStorage data client s = (r, t)"
  obtains "policies t = policies s"
  | "status_quads (policies t) = insert (status_quad (next_request s) ''requested'') (status_quads (policies s))"
    and "distinct (policies s) \<Longrightarrow> distinct (policies t)"
proof (cases "requested_quads rdf data (next_request s) client")
  case None
  with create_run [OF assms] that(1) show ?thesis by (auto intro: that(1) dest: arg_cong [where f = policies])
next
  case (Some st)
  have "status_quads (add_quads a b) = status_quads a \<union> status_quads b" for a b
    by (auto simp: status_quads_def)
  with create_run [OF assms] Some requested_status_quads [OF Some] show ?thesis
    by (intro that(2)) (auto simp: distinct_add_quads)
qed

text \<open>A status that is there changes at most from requested to accepted or denied.\<close>

abbreviation resolves_once :: "store \<Rightarrow> store \<Rightarrow> bool" where
  "resolves_once st st' \<equiv> \<forall>i d. statuses st i = [sotw d] \<longrightarrow> statuses st' i = [sotw d]
     \<or> d = ''requested'' \<and> statuses st' i \<in> {[sotw ''accepted''], [sotw ''denied'']}"

lemma create_statuses:
  assumes "request_addEntity rdf policyStorage data client s = (r, t)" and "requests_ok (policies s)"
    and "statuses (policies s) (next_request s) = []"
  shows "requests_ok (policies t) \<and> resolves_once (policies s) (policies t)"
  using assms(1)
proof (cases rule: create_status_quads)
  case 1
  with assms(2) show ?thesis by simp
next
  case 2
  have new: "status_quad (next_request s) ''requested'' \<notin> status_quads (policies s)"
    using statuses_iff [OF assms(2)] assms(3) by (metis list.distinct(1))
  have ok: "requests_ok (policies t)"
    by (rule requests_ok_change [OF assms(2), where d' = "''requested''" and d = "''requested''" and i = "next_request s"])
      (use 2 new assms(2,3) in \<open>auto simp: requests_ok_def\<close>)
  have "statuses (policies t) i = [sotw d]" if "statuses (policies s) i = [sotw d]" for i d
    using that unfolding statuses_iff [OF ok] statuses_iff [OF assms(2)] 2(1) by blast
  with ok show ?thesis by blast
qed

lemma status_replaced:
  assumes "requests_ok st" and "requests_ok st'" and "d \<in> {''accepted'', ''denied''}"
    and "status_quads st' = insert (status_quad i d) (status_quads st - {status_quad i ''requested''})"
  shows "resolves_once st st'"
proof (intro allI impI)
  fix j e assume e: "statuses st j = [sotw e]"
  show "statuses st' j = [sotw e] \<or> e = ''requested'' \<and> statuses st' j \<in> {[sotw ''accepted''], [sotw ''denied'']}"
  proof (cases "j = i \<and> e = ''requested''")
    case True
    have "statuses st' i = [sotw d]" unfolding statuses_iff [OF assms(2)] assms(4) by blast
    with True assms(3) show ?thesis by auto
  next
    case False
    have "status_quad j e \<in> status_quads st" using e statuses_iff [OF assms(1)] by blast
    moreover have "status_quad j e \<noteq> status_quad i ''requested''" using False by auto
    ultimately have "statuses st' j = [sotw e]" unfolding statuses_iff [OF assms(2)] assms(4) by blast
    then show ?thesis ..
  qed
qed

lemma request_step_statuses:
  assumes "request_step rdf s t" and "requests_ok (policies s)"
  shows "requests_ok (policies t) \<and> resolves_once (policies s) (policies t)"
  using assms(1)
proof (cases rule: request_step.cases)
  case (create data client r)
  from create_statuses [OF create(1) assms(2) create(2)] show ?thesis .
next
  case (resolve i patch client r)
  have "distinct (policies s)" using assms(2) by (simp add: requests_ok_def)
  then show ?thesis using resolve
  proof (cases rule: resolve_cases)
    case 1
    with assms(2) show ?thesis by simp
  next
    case (2 d)
    have ok: "requests_ok (policies t)"
      by (rule requests_ok_change [OF assms(2) 2(3) _ 2(4)]) (use 2(1,2) in auto)
    from status_replaced [OF assms(2) ok _ 2(4)] 2(1) ok show ?thesis by blast
  qed
next
  case other
  with assms(2) show ?thesis by simp
qed

text \<open>
  C10: the life of a request. Starting from a store in which every request has one status, over
  any sequence of requests to the endpoint every request keeps exactly one status, which changes at
  most once, from requested to accepted or denied: a resolved request stays as it was resolved.
\<close>

theorem request_lifecycle:
  assumes "(request_step rdf)\<^sup>*\<^sup>* s t" and "requests_ok (policies s)"
    and "statuses (policies s) i = [sotw d]"
  shows "requests_ok (policies t) \<and> (statuses (policies t) i = [sotw d]
    \<or> d = ''requested'' \<and> statuses (policies t) i \<in> {[sotw ''accepted''], [sotw ''denied'']})"
  using assms(1)
proof (induction rule: rtranclp_induct)
  case base
  with assms show ?case by simp
next
  case (step u t)
  then have ok: "requests_ok (policies u)" by blast
  note next_ok = request_step_statuses [OF step(2) ok]
  from step(3) have "statuses (policies u) i = [sotw d] \<or> d = ''requested''
      \<and> (statuses (policies u) i = [sotw ''accepted''] \<or> statuses (policies u) i = [sotw ''denied''])" by simp
  then show ?case
  proof (elim disjE conjE)
    assume "d = ''requested''" "statuses (policies u) i = [sotw ''accepted'']"
    with next_ok [THEN conjunct2, rule_format, of i "''accepted''"] next_ok show ?thesis by simp
  next
    assume "d = ''requested''" "statuses (policies u) i = [sotw ''denied'']"
    with next_ok [THEN conjunct2, rule_format, of i "''denied''"] next_ok show ?thesis by simp
  next
    assume "statuses (policies u) i = [sotw d]"
    with next_ok [THEN conjunct2, rule_format, of i d] next_ok show ?thesis by simp
  qed
qed


subsection \<open>Seeing requests\<close>

lemma getAccessRequest_run:
  "getAccessRequest st i client s =
    (if parties st i = [] then (Inl NotFound, s)
     else if client \<in> term_value ` set (parties st i)
     then (Inr (new_store (getRequestQuads st (Some (NamedNode i)))), s)
     else case targets st i of
         [target] \<Rightarrow> if term_value target \<in> set (owned s client)
           then (Inr (new_store (getRequestQuads st (Some (NamedNode i)))), s) else (Inl Forbidden, s)
       | _ \<Rightarrow> (Inl InternalServer, s))"
  by (auto simp: getAccessRequest_def request_parts list_ex_iff act_simps image_iff Let_def
      split: list.split)

text \<open>
  who sees a request. Reading a request changes nothing. It succeeds exactly for a client
  that is a requesting party of it or owns its one target; an unknown request is not found, a
  request with another number of targets is an internal error for anyone but its requesting
  parties, and everyone else is refused.
\<close>

theorem request_visibility:
  assumes "getEntity rdf policyStorage (AccessRequestController rdf) i client s = (r, t)"
  shows "t = s
    \<and> ((\<exists>resp. r = Inr resp) \<longleftrightarrow> parties (policies s) i \<noteq> []
         \<and> (client \<in> term_value ` set (parties (policies s) i)
            \<or> (\<exists>target. targets (policies s) i = [target] \<and> term_value target \<in> set (owned s client))))
    \<and> (r = Inl NotFound \<longleftrightarrow> parties (policies s) i = [])
    \<and> (r = Inl InternalServer \<longleftrightarrow> parties (policies s) i \<noteq> [] \<and> client \<notin> term_value ` set (parties (policies s) i)
         \<and> length (targets (policies s) i) \<noteq> 1)
    \<and> (\<forall>e. r = Inl e \<longrightarrow> e \<in> {NotFound, InternalServer, Forbidden})"
proof -
  have "getEntity rdf policyStorage (AccessRequestController rdf) i client s
    = bind (getAccessRequest (policies s) i client) (\<lambda>st.
        return \<lparr>status = 200, content = if st \<noteq> [] then writeTurtle rdf st else ''''\<rparr>) s"
    by (simp add: getEntity_def controller_get_def AccessRequestController_def policyStorage_defs bind_def return_def)
  with assms show ?thesis
    by (auto simp: getAccessRequest_run bind_def return_def split: if_splits list.splits)
qed

lemma add_constraints_shape:
  assumes "add_constraints rdf subj n cs st = Inr st'" and "q \<in> set st'"
  shows "q \<in> set st \<or> subject q = subj
        \<and> (predicate q = odrl ''constraint'' \<longrightarrow> prefix (term_value subj) (term_value (object q)))
    \<or> triple subj (odrl ''constraint'') (subject q) \<in> set st' \<and> subject q \<noteq> subj
        \<and> prefix (term_value subj) (term_value (subject q))"
  using assms
proof (induction rdf subj n cs st rule: add_constraints.induct)
  case (2 rdf subj n c cs st)
  then obtain left opr right cs_subj where step: "add_constraints rdf subj (Suc n) cs (add_quads st
             [triple subj (odrl ''constraint'') cs_subj,
              triple cs_subj rdf_type (odrl ''Constraint''),
              triple cs_subj (odrl ''leftOperand'') left,
              triple cs_subj (odrl ''operator'') opr,
              triple cs_subj (odrl ''rightOperand'') right]) = Inr st'"
    and cs_subj: "cs_subj = NamedNode (term_value subj @ ''-constraint-'' @ nat_str (Suc n))"
    and terms: "those (map (\<lambda>str. case stringToTerm rdf str of Inl e \<Rightarrow> None | Inr t \<Rightarrow> Some t) c) = Some [left, opr, right]"
    by (auto simp: Let_def split: option.splits list.splits)
  have "cs_subj \<noteq> subj" unfolding cs_subj by (cases subj) auto
  with 2(1) [OF terms refl refl refl refl cs_subj step 2(3)] add_constraints_quads(1) [OF step] cs_subj
  show ?case by auto
qed simp

text \<open>The quads of a request: about the request, or about a constraint that it names.\<close>

lemma requested_quads_shape:
  assumes "requested_quads rdf data i client = Some st" and "q \<in> set st"
  shows "subject q = NamedNode i \<and> (predicate q = odrl ''constraint'' \<longrightarrow> prefix i (term_value (object q)))
    \<or> triple (NamedNode i) (odrl ''constraint'') (subject q) \<in> set st \<and> subject q \<noteq> NamedNode i
      \<and> prefix i (term_value (subject q))"
proof -
  from assms(1) obtain json where "add_constraints rdf (NamedNode i) 0
      (decode_constraints (js_prop json ''constraints'')) (new_store (request_base (NamedNode i) json client)) = Inr st"
    by (auto simp: requested_quads_def split: sum.splits if_splits)
  from add_constraints_shape [OF this assms(2)] show ?thesis by (auto simp: request_base_def)
qed

lemma set_getRequestQuads:
  "set (getRequestQuads st (Some n)) = {q \<in> set st. subject q = n
     \<or> (\<exists>c \<in> set st. subject c = n \<and> predicate c = odrl ''constraint'' \<and> object c = subject q)}"
  by (auto simp: getRequestQuads_def get_quads_def get_objects_def matches_def image_iff)

lemma requested_quads_read_back:
  assumes "requested_quads rdf data i client = Some st"
    and "\<forall>q \<in> set old. \<not> prefix i (term_value (subject q))" and "set new = set old \<union> set st"
  shows "set (getRequestQuads new (Some (NamedNode i))) = set st"
proof -
  note shape = requested_quads_shape [OF assms(1)]
  have own: "q \<in> set st" if "q \<in> set new" "subject q = NamedNode i" for q
    using assms(2,3) that by auto
  show ?thesis
    unfolding set_getRequestQuads
  proof (intro set_eqI iffI)
    fix q assume q: "q \<in> set st"
    with shape [OF q] assms(3) show "q \<in> {q \<in> set new. subject q = NamedNode i \<or> (\<exists>c \<in> set new.
        subject c = NamedNode i \<and> predicate c = odrl ''constraint'' \<and> object c = subject q)}"
      by (force intro!: bexI [of _ "triple (NamedNode i) (odrl ''constraint'') (subject q)"])
  next
    fix q assume "q \<in> {q \<in> set new. subject q = NamedNode i \<or> (\<exists>c \<in> set new.
        subject c = NamedNode i \<and> predicate c = odrl ''constraint'' \<and> object c = subject q)}"
    then consider "q \<in> set new" "subject q = NamedNode i"
      | c where "q \<in> set new" "c \<in> set new" "subject c = NamedNode i" "predicate c = odrl ''constraint''"
          "object c = subject q" by blast
    then show "q \<in> set st"
    proof cases
      case 1
      then show ?thesis by (rule own)
    next
      case 2
      from shape [OF own [OF 2(2,3)]] 2(3-5) have "prefix i (term_value (subject q))" by auto
      then show ?thesis using assms(2,3) 2(1) by blast
    qed
  qed
qed

lemma requested_status:
  assumes "requested_quads rdf data i client = Some st"
    and "\<forall>q \<in> set old. \<not> prefix i (term_value (subject q))" and "set new = set old \<union> set st"
  shows "statuses new i = [sotw ''requested'']"
proof -
  have "q \<in> set new \<longleftrightarrow> q \<in> set st" if "subject q = NamedNode i" for q
    using assms(2,3) that by auto
  then have "set (statuses new i) = object ` {q \<in> status_quads st. subject q = NamedNode i}"
    unfolding set_statuses status_quads_def by auto
  then have "set (statuses new i) = {sotw ''requested''}"
    unfolding requested_status_quads(1) [OF assms(1)] by auto
  then show ?thesis by (intro distinct_singleton) (simp_all add: statuses_def get_objects_def)
qed

lemma requested_getAccessRequest:
  assumes "requested_quads rdf data i client = Some st" and "set st \<subseteq> set new"
  shows "getAccessRequest new i client t = (Inr (new_store (getRequestQuads new (Some (NamedNode i)))), t)"
proof -
  let ?parties = "get_objects new (Some (NamedNode i)) (Some (sotw ''requestingParty''))"
  have "NamedNode client \<in> set ?parties"
    using requested_status_quads(3) [OF assms(1)] assms(2)
    by (auto simp: set_get_objects matches_def
        intro!: image_eqI [of _ _ "triple (NamedNode i) (sotw ''requestingParty'') (NamedNode client)"])
  then have "list_ex (\<lambda>r. term_value r = client) ?parties"
    by (auto simp: list_ex_iff intro!: bexI [of _ "NamedNode client"])
  then show ?thesis by (cases ?parties) (simp_all add: getAccessRequest_def Let_def)
qed

text \<open>
  the round trip of a request. A POST creates a request exactly when its body is JSON of the
  right shape with at least one scope and with constraints that are terms; otherwise no policy
  changes. The request is unresolved, and when nothing stored was about the new identifier, the
  client reads back exactly the quads that were made from the body.
\<close>

theorem request_roundtrip:
  assumes "request_addEntity rdf policyStorage data client s = (r, t)"
    and "\<forall>q \<in> set (policies s). \<not> prefix (next_request s) (term_value (subject q))"
  shows "(case requested_quads rdf data (next_request s) client of
      None \<Rightarrow> (\<exists>e. r = Inl e) \<and> policies t = policies s
    | Some st \<Rightarrow> r = Inr \<lparr>status = 201, content = next_request s\<rparr>
        \<and> set (policies t) = set (policies s) \<union> set st
        \<and> statuses (policies t) (next_request s) = [sotw ''requested'']
        \<and> (\<exists>d. getAccessRequest (policies t) (next_request s) client t = (Inr d, t) \<and> set d = set st))"
proof (cases "requested_quads rdf data (next_request s) client")
  case None
  with create_run [OF assms(1)] show ?thesis
    by (auto dest: arg_cong [where f = policies])
next
  case (Some st)
  from create_run [OF assms(1)] Some have run: "r = Inr \<lparr>status = 201, content = next_request s\<rparr>"
    and pol: "set (policies t) = set (policies s) \<union> set st" by auto
  note status = requested_status [OF Some assms(2) pol]
  note read_back = requested_quads_read_back [OF Some assms(2) pol]
  have "getAccessRequest (policies t) (next_request s) client t
      = (Inr (new_store (getRequestQuads (policies t) (Some (NamedNode (next_request s))))), t)"
    by (rule requested_getAccessRequest [OF Some]) (simp add: pol)
  with Some run pol status read_back show ?thesis by auto
qed


text \<open>
  an accepted request can be revoked. The policy an accepted request becomes is one in which
  the accepting owner assigned the permission, under the identifier that is its uid: with the
  query engine answering, a DELETE of that identifier by the owner removes every quad about the
  policy and its permission.
\<close>

theorem accepted_request_revocable:
  assumes "distinct (policies s)"
    and "patchEntity policyStorage (AccessRequestController rdf) i (JStr ''accepted'') client False s = (Inr resp, t)"
    and "retrieval_answered rdf (next_request s) client"
  shows "assigned_by (policies t) client (NamedNode (next_request s)) (NamedNode (next_request s @ ''-permission''))
    \<and> has_uid (policies t) (NamedNode (next_request s)) (next_request s)
    \<and> (\<exists>u. deleteEntity policyStorage (PolicyController rdf) (next_request s) client t = (Inr 204, u)
        \<and> (\<forall>q \<in> set (policies u). subject q \<notin>
             {NamedNode (next_request s), NamedNode (next_request s @ ''-permission'')}))"
proof -
  let ?p = "NamedNode (next_request s)" and ?r = "NamedNode (next_request s @ ''-permission'')"
  obtain st' s' where run: "patchAccessRequest (policies s) i client (JStr ''accepted'') s = (Inr st', s')"
    and pol: "set (policies t) = set st'"
    using resolve_run [OF assms(1,2)]
    by (cases "patchAccessRequest (policies s) i client (JStr ''accepted'') s") (auto split: sum.splits)
  let ?agreement = "agreement (with_status (policies s) i ''accepted'') (NamedNode i) (next_request s) client
      (hd (targets (policies s) i)) (actions (policies s) i) (hd (parties (policies s) i))"
  have sub: "set ?agreement \<subseteq> set (policies t)"
    using patch_status_outcome [OF run] by (simp add: pol next_request_def)
  have "{triple ?p (odrl ''permission'') ?r, triple ?p (odrl ''uid'') ?p, triple ?p rdf_type (odrl ''Agreement''),
      triple ?r (odrl ''assigner'') (NamedNode client), triple ?r (odrl ''target'') (hd (targets (policies s) i))}
    \<subseteq> set ?agreement"
    by (simp add: agreement_def Let_def)
  with sub have quads: "{triple ?p (odrl ''permission'') ?r, triple ?p (odrl ''uid'') ?p, triple ?p rdf_type (odrl ''Agreement''),
      triple ?r (odrl ''assigner'') (NamedNode client), triple ?r (odrl ''target'') (hd (targets (policies s) i))}
    \<subseteq> set (policies t)" by (rule order_trans [rotated])
  then have a: "assigned_by (policies t) client ?p ?r" and u: "has_uid (policies t) ?p (next_request s)"
    by (auto simp: assigned_by_def has_uid_def list_ex_iff
        intro!: bexI [of _ "triple ?r (odrl ''target'') (hd (targets (policies s) i))"])
  obtain d where del: "deleteEntity policyStorage (PolicyController rdf) (next_request s) client t
      = (Inr 204, t\<lparr>policies := remove_quads (policies t) d\<rparr>)"
    and d: "set d = policy_group (policies t) (next_request s) client"
    using assms(3) by (rule deleteEntity_run)
  have "subject q \<notin> {?p, ?r}" if "q \<in> set (remove_quads (policies t) d)" for q
    using that policy_group_subject [OF a u, of q] by (auto simp: d)
  with a u del show ?thesis by simp
qed


subsection \<open>Examples\<close>

definition request_json :: js where
  "request_json = JObj [(''resource_id'', JStr ''x''), (''resource_scopes'', JArr [JStr ''read''])]"

definition request_rdf :: rdf_lib where
  "request_rdf = (example_rdf ''http://example.org/id-0'' ''alice'' [])\<lparr>parseJson := (\<lambda>_. Inr request_json)\<rparr>"

definition request_state :: dialog_state where
  "request_state = empty_state\<lparr>ownershipStore := [''alice'' \<mapsto> [''x'']],
     policies := request_base (NamedNode ''req'') request_json ''bob''\<rparr>"

lemma request_state_facts:
  "distinct (policies request_state)" "resolvable request_state ''req'' ''alice''"
  "\<not> resolvable request_state ''req'' ''bob''"
  "statuses (policies request_state) ''req'' = [sotw ''requested'']"
  "parties (policies request_state) ''req'' = [NamedNode ''bob'']"
  "next_request request_state = ''http://example.org/id-0''"
  by code_simp+

lemma request_state_ok: "requests_ok (policies request_state)"
proof -
  have "status_quads (policies request_state) = {status_quad ''req'' ''requested''}"
    by (auto simp: status_quads_def request_state_def request_base_def)
  with request_state_facts(1) show ?thesis by (simp add: requests_ok_def)
qed

lemma request_resolved_witness:
  "(\<exists>resp. fst (patchEntity policyStorage (AccessRequestController request_rdf) ''req'' (JStr ''accepted'') ''alice'' False
      request_state) = Inr resp)
   \<and> \<not> (\<exists>resp. fst (patchEntity policyStorage (AccessRequestController request_rdf) ''req'' (JStr ''accepted'') ''bob'' False
      request_state) = Inr resp)"
  using request_resolved [OF request_state_facts(1) prod.collapse [symmetric], of request_rdf "''req''" "JStr ''accepted''" "''alice''"]
    request_resolved [OF request_state_facts(1) prod.collapse [symmetric], of request_rdf "''req''" "JStr ''accepted''" "''bob''"]
    request_state_facts(2,3) by simp

lemma request_lifecycle_witness:
  "statuses (policies (snd (patchEntity policyStorage (AccessRequestController request_rdf) ''req'' (JStr ''denied'') ''alice''
     False request_state))) ''req'' \<in> {[sotw ''requested''], [sotw ''accepted''], [sotw ''denied'']}"
proof -
  have "(request_step request_rdf)\<^sup>*\<^sup>* request_state (snd (patchEntity policyStorage (AccessRequestController request_rdf) ''req''
      (JStr ''denied'') ''alice'' False request_state))"
    by (rule r_into_rtranclp, rule request_step.resolve, rule prod.collapse [symmetric])
  from request_lifecycle [OF this request_state_ok request_state_facts(4)] show ?thesis by auto
qed

lemma request_visibility_witness:
  "\<exists>e. fst (getEntity request_rdf policyStorage (AccessRequestController request_rdf) ''req'' ''mallory'' request_state) = Inl e"
proof -
  have "owned request_state ''mallory'' = []" by code_simp
  then show ?thesis
    using request_visibility [OF prod.collapse [symmetric], of request_rdf "''req''" "''mallory''" request_state]
      request_state_facts(5)
    by (cases "fst (getEntity request_rdf policyStorage (AccessRequestController request_rdf) ''req'' ''mallory'' request_state)") auto
qed

lemma request_roundtrip_witness:
  "\<exists>d. fst (getAccessRequest (policies (snd (request_addEntity request_rdf policyStorage ''data'' ''bob'' request_state)))
     ''http://example.org/id-0'' ''bob''
     (snd (request_addEntity request_rdf policyStorage ''data'' ''bob'' request_state))) = Inr d"
proof -
  have fresh: "\<forall>q \<in> set (policies request_state). \<not> prefix (next_request request_state) (term_value (subject q))"
    by code_simp
  have "parseJson request_rdf ''data'' = Inr request_json" by (simp add: request_rdf_def)
  moreover have "reType request_json AccessRequest" "js_string_array (js_prop request_json ''resource_scopes'') \<noteq> []"
    "js_prop request_json ''constraints'' = JUndef"
    by code_simp+
  ultimately obtain st where "requested_quads request_rdf ''data'' (next_request request_state) ''bob'' = Some st"
    by (simp add: requested_quads_def decode_constraints_def)
  with request_roundtrip [OF prod.collapse [symmetric] fresh, of request_rdf "''data''" "''bob''"] request_state_facts(6)
  show ?thesis by fastforce
qed

lemma accepted_request_revocable_witness:
  "\<exists>t u. fst (deleteEntity policyStorage (PolicyController request_rdf) ''http://example.org/id-0'' ''alice'' t) = Inr 204
     \<and> has_uid (policies t) (NamedNode ''http://example.org/id-0'') ''http://example.org/id-0''"
proof -
  have "retrieval_answered request_rdf ''http://example.org/id-0'' ''alice''"
    using example_retrieval [of "''http://example.org/id-0''" "''alice''" "[]"]
    by (simp add: retrieval_answered_def request_rdf_def)
  moreover obtain resp t where "patchEntity policyStorage (AccessRequestController request_rdf) ''req''
      (JStr ''accepted'') ''alice'' False request_state = (Inr resp, t)"
  proof -
    obtain st' s' where "patchAccessRequest (policies request_state) ''req'' ''alice'' (JStr ''accepted'') request_state
        = (Inr st', s')"
      unfolding patch_status_run using request_state_facts(2)
      by (auto simp: resolvable_def length_Suc_conv neq_Nil_conv)
    with resolve_run [OF request_state_facts(1) prod.collapse [symmetric], of request_rdf "''req''" "JStr ''accepted''" "''alice''"]
    show ?thesis by (intro that [OF run_fst]) simp
  qed
  ultimately show ?thesis
    using accepted_request_revocable [OF request_state_facts(1), of request_rdf "''req''" "''alice''" resp t]
    unfolding request_state_facts(6) by (metis fst_conv)
qed

end
