(* ===== verification/PolicyRoutes.thy ===== *)
theory PolicyRoutes
  imports AccessRequests
begin

text \<open>
  \<open>routes/BaseHandler.ts\<close>: the handler of the policy endpoint and of the access request endpoint,
  with the two controllers it is configured with.
\<close>

subsection \<open>The controllers behind the routes\<close>

record entity_controller =
  ec_getEntities :: "string \<Rightarrow> string response dialog"
  ec_getEntity :: "string \<Rightarrow> string \<Rightarrow> string response dialog"
  ec_addEntity :: "string \<Rightarrow> string \<Rightarrow> string response dialog"
  ec_deleteEntity :: "string \<Rightarrow> string \<Rightarrow> nat dialog"
  ec_patchEntity :: "string \<Rightarrow> js \<Rightarrow> string \<Rightarrow> bool \<Rightarrow> string response dialog"
  ec_putEntity :: "string \<Rightarrow> string \<Rightarrow> string \<Rightarrow> nat dialog"

definition policy_entities :: "rdf_lib \<Rightarrow> dialog_state rules_storage \<Rightarrow> entity_controller" where
  "policy_entities rdf sto = (let c = PolicyController rdf in \<lparr>
     ec_getEntities = getEntities rdf sto c, ec_getEntity = getEntity rdf sto c,
     ec_addEntity = addEntity rdf sto c, ec_deleteEntity = deleteEntity sto c,
     ec_patchEntity = patchEntity sto c, ec_putEntity = putEntity rdf sto c\<rparr>)"

definition request_entities :: "rdf_lib \<Rightarrow> dialog_state rules_storage \<Rightarrow> entity_controller" where
  "request_entities rdf sto = (let c = AccessRequestController rdf in \<lparr>
     ec_getEntities = getEntities rdf sto c, ec_getEntity = getEntity rdf sto c,
     ec_addEntity = request_addEntity rdf sto, ec_deleteEntity = request_deleteEntity,
     ec_patchEntity = patchEntity sto c, ec_putEntity = request_putEntity\<rparr>)"

subsection \<open>The handler\<close>

datatype entity_body = EntityText string | EntityLocation string | NoEntity

text \<open>The handlers take the body as a string; an absent or empty one is a bad request.\<close>

definition body_text :: "request \<Rightarrow> string option" where
  "body_text req = (case req_body req of JStr b \<Rightarrow> if b = [] then None else Some b | _ \<Rightarrow> None)"

definition entity_text :: "string response \<Rightarrow> entity_body response" where
  "entity_text resp = \<lparr>status = status resp, content = EntityText (content resp)\<rparr>"

definition handleSingleGet :: "entity_controller \<Rightarrow> string \<Rightarrow> string \<Rightarrow> entity_body response dialog" where
  "handleSingleGet c entityID clientID =
     bind (ec_getEntity c entityID clientID) (\<lambda>resp. return (entity_text resp))"

text \<open>Reading a property of \<open>null\<close> is a \<open>TypeError\<close>.\<close>

definition handlePatch ::
  "rdf_lib \<Rightarrow> entity_controller \<Rightarrow> string \<Rightarrow> request \<Rightarrow> string \<Rightarrow> string \<Rightarrow> entity_body response dialog" where
  "handlePatch rdf c patchContentType req entityID clientID = (case body_text req of
     None \<Rightarrow> throw BadRequest
   | Some body \<Rightarrow>
       if patchContentType = ''application/json''
       then bind (lift (parseJson rdf body)) (\<lambda>json.
         if json = JNull then throw PlainError
         else if truthy (js_prop json ''status'')
         then bind (ec_patchEntity c entityID (js_prop json ''status'') clientID False) (\<lambda>resp.
           return (entity_text resp))
         else throw BadRequest)
       else bind (ec_patchEntity c entityID (JStr body) clientID True) (\<lambda>resp. return (entity_text resp)))"

definition handleEntityPut ::
  "entity_controller \<Rightarrow> request \<Rightarrow> string \<Rightarrow> string \<Rightarrow> entity_body response dialog" where
  "handleEntityPut c req entityID clientID = (case body_text req of
     None \<Rightarrow> throw BadRequest
   | Some body \<Rightarrow> bind (ec_putEntity c body entityID clientID) (\<lambda>code.
       return \<lparr>status = code, content = NoEntity\<rparr>))"

definition handleEntityDelete :: "entity_controller \<Rightarrow> string \<Rightarrow> string \<Rightarrow> entity_body response dialog" where
  "handleEntityDelete c entityID clientID =
     bind (ec_deleteEntity c entityID clientID) (\<lambda>code. return \<lparr>status = code, content = NoEntity\<rparr>)"

definition handleEntityGet :: "entity_controller \<Rightarrow> string \<Rightarrow> entity_body response dialog" where
  "handleEntityGet c clientID = bind (ec_getEntities c clientID) (\<lambda>resp. return (entity_text resp))"

definition handleEntityPost :: "web \<Rightarrow> entity_controller \<Rightarrow> request \<Rightarrow> string \<Rightarrow> entity_body response dialog" where
  "handleEntityPost w c req clientID = (case body_text req of
     None \<Rightarrow> throw BadRequest
   | Some body \<Rightarrow> bind (ec_addEntity c body clientID) (\<lambda>resp.
       return \<lparr>status = status resp, content = EntityLocation (joinUrl w (req_url req) (content resp))\<rparr>))"

definition entity_dispatch ::
  "web \<Rightarrow> rdf_lib \<Rightarrow> entity_controller \<Rightarrow> string \<Rightarrow> request \<Rightarrow> string \<Rightarrow> entity_body response dialog" where
  "entity_dispatch w rdf c patchContentType req user =
     (if has_id req
      then (let i = the (obj_get (req_parameters req) ''id'') in
        if req_method req = ''GET'' then handleSingleGet c i user
        else if req_method req = ''PATCH'' then handlePatch rdf c patchContentType req i user
        else if req_method req = ''PUT'' then handleEntityPut c req i user
        else if req_method req = ''DELETE'' then handleEntityDelete c i user
        else throw MethodNotAllowed)
      else if req_method req = ''GET'' then handleEntityGet c user
      else if req_method req = ''POST'' then handleEntityPost w c req user
      else throw MethodNotAllowed)"

definition BaseHandler ::
  "(string option \<Rightarrow> error + credential) \<Rightarrow> verify_fun \<Rightarrow> web \<Rightarrow> rdf_lib \<Rightarrow> entity_controller \<Rightarrow> string \<Rightarrow> request \<Rightarrow>
   entity_body response dialog" where
  "BaseHandler parse verify w rdf c patchContentType req =
     (if req_method req = ''OPTIONS'' then return \<lparr>status = 204, content = NoEntity\<rparr>
      else bind (request_user parse verify req) (entity_dispatch w rdf c patchContentType req))"

text \<open>The two endpoints, as \<open>config/routes/\<close> sets them up.\<close>

definition PolicyHandler ::
  "(string option \<Rightarrow> error + credential) \<Rightarrow> verify_fun \<Rightarrow> web \<Rightarrow> rdf_lib \<Rightarrow> request \<Rightarrow> entity_body response dialog" where
  "PolicyHandler parse verify w rdf =
     BaseHandler parse verify w rdf (policy_entities rdf policyStorage) ''application/sparql-update''"

definition AccessRequestHandler ::
  "(string option \<Rightarrow> error + credential) \<Rightarrow> verify_fun \<Rightarrow> web \<Rightarrow> rdf_lib \<Rightarrow> request \<Rightarrow> entity_body response dialog" where
  "AccessRequestHandler parse verify w rdf =
     BaseHandler parse verify w rdf (request_entities rdf policyStorage) ''application/json''"


subsection \<open>Properties\<close>

lemma body_bind_state:
  "bind m (\<lambda>x. return (f x)) s = (r, t) \<Longrightarrow> \<exists>r'. m s = (r', t)"
  by (auto simp: bind_def split: prod.splits sum.splits)

lemma getAccessRequests_quiet: "unchanged policies (getAccessRequests rdf st client)"
  unfolding getAccessRequests_def by (intro unchanged_intros)

lemma getAccessRequest_quiet: "unchanged policies (getAccessRequest st i client)"
  unfolding getAccessRequest_def by (intro unchanged_intros)

lemma getEntities_quiet: "unchanged policies (getEntities rdf policyStorage (AccessRequestController rdf) client)"
  unfolding getEntities_def controller_get_def AccessRequestController_def policyStorage_defs
  by (simp del: bind_gets) (intro unchanged_intros getAccessRequests_quiet)

lemma getEntity_quiet: "unchanged policies (getEntity rdf policyStorage (AccessRequestController rdf) i client)"
  unfolding getEntity_def controller_get_def AccessRequestController_def policyStorage_defs
  by (simp del: bind_gets) (intro unchanged_intros getAccessRequest_quiet)

text \<open>What one operation of the request endpoint does to the requests.\<close>

lemma request_operation:
  assumes "statuses (policies s) (next_request s) = []"
    and "entity_dispatch w rdf (request_entities rdf policyStorage) ''application/json'' req user s = (r, t)"
  shows "(request_step rdf)\<^sup>*\<^sup>* s t"
proof -
  have other: "(request_step rdf)\<^sup>*\<^sup>* s t" if "policies t = policies s"
    using request_step.other [OF that] by blast
  have get: "policies t = policies s" if "getEntity rdf policyStorage (AccessRequestController rdf) i user s = (x, t)" for i x
    using keepsD [OF getEntity_quiet that] .
  have list: "policies t = policies s" if "getEntities rdf policyStorage (AccessRequestController rdf) user s = (x, t)" for x
    using keepsD [OF getEntities_quiet that] .
  note parts = entity_dispatch_def handleSingleGet_def handlePatch_def handleEntityPut_def handleEntityDelete_def handleEntityGet_def
    handleEntityPost_def request_entities_def Let_def request_putEntity_def request_deleteEntity_def
  consider "policies t = policies s"
    | i patch x where "patchEntity policyStorage (AccessRequestController rdf) i patch user False s = (x, t)"
    | data x where "request_addEntity rdf policyStorage data user s = (x, t)"
    using assms(2)
    by (auto simp: parts bind_lift split: if_splits option.splits sum.splits dest!: body_bind_state dest: get list)
  then show ?thesis
  proof cases
    case 1
    then show ?thesis by (rule other)
  next
    case 2
    then show ?thesis by (intro r_into_rtranclp request_step.resolve)
  next
    case 3
    then show ?thesis using assms(1) by (intro r_into_rtranclp request_step.create)
  qed
qed



text \<open>
  what both endpoints refuse. Without a WebID among the verified claims the error of the
  authentication is the answer, on an entity only GET, PATCH, PUT and DELETE and on the endpoint
  only GET and POST are allowed, and a method that needs a body is a bad request without one; in
  all these cases no policy changes. OPTIONS needs no credential.
\<close>

theorem entity_endpoint_errors:
  assumes "verifier verify" and "BaseHandler parse verify w rdf c ct req s = (r, t)"
  shows "(req_method req = ''OPTIONS'' \<longrightarrow> r = Inr \<lparr>status = 204, content = NoEntity\<rparr> \<and> t = s)
    \<and> (\<forall>e. req_method req \<noteq> ''OPTIONS'' \<and> fst (request_user parse verify req s) = Inl e \<longrightarrow>
         r = Inl e \<and> policies t = policies s)
    \<and> (\<forall>user. req_method req \<noteq> ''OPTIONS'' \<and> fst (request_user parse verify req s) = Inr user
         \<and> req_method req \<notin> (if has_id req then {''GET'', ''PATCH'', ''PUT'', ''DELETE''} else {''GET'', ''POST''}) \<longrightarrow>
         r = Inl MethodNotAllowed \<and> policies t = policies s)
    \<and> (\<forall>user. fst (request_user parse verify req s) = Inr user \<and> body_text req = None
         \<and> req_method req \<in> (if has_id req then {''PATCH'', ''PUT''} else {''POST''}) \<longrightarrow>
         r = Inl BadRequest \<and> policies t = policies s)"
proof -
  obtain x u where user: "request_user parse verify req s = (x, u)" by fastforce
  have pol: "policies u = policies s"
    using drops_refresh_fields(6) [OF keepsD [OF request_user_drops [OF assms(1)] user]] .
  show ?thesis
    using assms(2) pol
    by (auto simp: BaseHandler_def entity_dispatch_def bind_def user handlePatch_def handleEntityPut_def
        handleEntityPost_def Let_def split: if_splits sum.splits)
qed

subsection \<open>Examples\<close>

definition entity_request :: "string \<Rightarrow> js \<Rightarrow> (string \<times> string) list \<Rightarrow> request" where
  "entity_request verb body params = \<lparr>req_method = verb, req_url = ''https://as/requests'', req_body = body,
     req_authorization = Some ''alice'', req_content_type = None, req_parameters = params\<rparr>"

definition webid_credential :: "string option \<Rightarrow> error + credential" where
  "webid_credential a = (case a of None \<Rightarrow> Inl Unauthorized | Some i \<Rightarrow> Inr \<lparr>token = i, format = WEBID\<rparr>)"


lemma entity_endpoint_errors_witness:
  "fst (BaseHandler webid_credential KeyValueVerifier example_web request_rdf (request_entities request_rdf policyStorage)
     ''application/json'' (entity_request ''DELETE'' JNull []) request_state) = Inl MethodNotAllowed"
proof -
  have "fst (request_user webid_credential KeyValueVerifier (entity_request ''DELETE'' JNull []) request_state)
    = Inr ''alice''" by code_simp
  then show ?thesis
    using entity_endpoint_errors [OF key_value_verifier.verifier_axioms prod.collapse [symmetric],
        where parse = webid_credential and w = example_web and rdf = request_rdf and ct = "''application/json''"
          and c = "request_entities request_rdf policyStorage" and req = "entity_request ''DELETE'' JNull []"
          and s = request_state]
    by (simp add: entity_request_def has_id_def)
qed

end
