(* ===== verification/UmaClient.thy ===== *)
theory UmaClient
  imports Collections
begin

text \<open>
  \<open>packages/css/src/uma/\<close>: the scopes and the client through which the resource server talks to
  an authorization server. The server is reached through the \<open>fetch\<close> of the state, which also
  holds whatever the other side keeps; the concurrent registrations of \<open>registerResource\<close> are in
  the theory RegistrationProgress.
\<close>

subsection \<open>Scopes\<close>

text \<open>
  \<open>uma/ScopeUtil.ts\<close> and \<open>util/Vocabularies.ts\<close>; \<open>None\<close> is \<open>undefined\<close>. The modes the
  resource server uses are those of the vocabulary \<open>PERMISSIONS\<close> of an imported package: its
  terms are its namespace, the argument \<open>pe\<close>, followed by their names.
\<close>

definition mode_term :: "string \<Rightarrow> string" where
  "mode_term t = ''urn:example:css:modes:'' @ t"

definition MODES :: "string list" where
  "MODES = map mode_term [''append'', ''read'', ''create'', ''delete'', ''write'']"

definition policy_mode :: "string \<Rightarrow> string \<Rightarrow> string" where
  "policy_mode pe t = pe @ t"

definition modeMap :: "string \<Rightarrow> string obj" where
  "modeMap pe = [(policy_mode pe ''Append'', mode_term ''append''), (policy_mode pe ''Create'', mode_term ''create''),
     (policy_mode pe ''Delete'', mode_term ''delete''), (policy_mode pe ''Modify'', mode_term ''write''),
     (policy_mode pe ''Read'', mode_term ''read'')]"

definition scopeMap :: "string \<Rightarrow> string obj" where
  "scopeMap pe = fold (\<lambda>(mode, sc). obj_set sc mode) (modeMap pe) []"

definition toUmaScope :: "string \<Rightarrow> string \<Rightarrow> error + string option" where
  "toUmaScope pe mode =
     (if \<not> starts_with pe mode then Inl InternalServer else Inr (obj_get (modeMap pe) mode))"

definition toCssMode :: "string \<Rightarrow> string \<Rightarrow> error + string option" where
  "toCssMode pe sc =
     (if \<not> starts_with (mode_term '''') sc then Inl InternalServer else Inr (obj_get (scopeMap pe) sc))"

subsection \<open>State and libraries\<close>

text \<open>
  \<open>fetch_of\<close> sends a request to the other side; a response has a status and, when its body is
  JSON, that value. \<open>jose_decode\<close> and \<open>jose_verify\<close> are \<open>decodeJwt\<close> and \<open>jwtVerify\<close> against the
  key set at an address, for an issuer and an audience; \<open>js_text\<close> is the conversion of a value to a
  string in a template, and \<open>has_resource\<close> the resource set of the server.
\<close>

record http_response =
  hr_status :: nat
  hr_json :: "js option"

record rs_library =
  rs_joinUrl :: "string \<Rightarrow> string \<Rightarrow> string"
  pe_namespace :: string
  jose_decode :: "string \<Rightarrow> error + js"
  jose_verify :: "js \<Rightarrow> string \<Rightarrow> string \<Rightarrow> string \<Rightarrow> error + js"
  has_resource :: "string \<Rightarrow> bool"
  js_text :: "js \<Rightarrow> string"

record uma_config =
  uc_jwks_uri :: string
  uc_issuer :: string
  uc_permission_endpoint :: string
  uc_introspection_endpoint :: string
  uc_resource_registration_endpoint :: string
  uc_token_endpoint :: js
  uc_registration_endpoint :: js

text \<open>An expiration that is not a number is \<open>NaN\<close>, here \<open>None\<close>: it is never in the future.\<close>

record 'a rs_state =
  inProgress :: "string set"
  configCache :: "string \<rightharpoonup> uma_config \<times> int"
  patStorage :: "string \<rightharpoonup> string \<times> int option"
  umaIdStore :: "string \<rightharpoonup> string"
  rs_clock :: int
  other_side :: 'a

type_synonym 'a fetcher = "request \<Rightarrow> ('a, http_response) act"

definition PAT_EVENT :: string where "PAT_EVENT = ''PAT_EVENT''"

text \<open>
  A call that awaits an event is suspended until another call emits it, and then starts over.
\<close>

datatype 'x progress = Settled 'x | Awaits string

definition web_fetch :: "'a fetcher \<Rightarrow> request \<Rightarrow> ('a rs_state, http_response) act" where
  "web_fetch fetch req = (\<lambda>s. case fetch req (other_side s) of (r, a) \<Rightarrow> (r, s\<lparr>other_side := a\<rparr>))"

definition http_get :: "string \<Rightarrow> request" where
  "http_get url = \<lparr>req_method = ''GET'', req_url = url, req_body = JUndef, req_authorization = None,
     req_content_type = None, req_parameters = []\<rparr>"

definition http_post :: "string \<Rightarrow> string \<Rightarrow> string option \<Rightarrow> js \<Rightarrow> request" where
  "http_post url content_type authorization body = \<lparr>req_method = ''POST'', req_url = url, req_body = body,
     req_authorization = authorization, req_content_type = Some content_type, req_parameters = []\<rparr>"

text \<open>\<open>await response.json()\<close>\<close>

definition json_of :: "http_response \<Rightarrow> ('s, js) act" where
  "json_of resp = (case hr_json resp of None \<Rightarrow> throw PlainError | Some v \<Rightarrow> return v)"

text \<open>A cached value whose expiration is in the future.\<close>

definition usable :: "('v \<times> 'e) option \<Rightarrow> ('e \<Rightarrow> bool) \<Rightarrow> bool" where
  "usable cached in_future = (case cached of None \<Rightarrow> False | Some (v, expiration) \<Rightarrow> in_future expiration)"

lemma usable_iff [simp]: "usable cached in_future \<longleftrightarrow> (\<exists>c. cached = Some c \<and> in_future (snd c))"
  by (auto simp: usable_def split: option.splits)

subsection \<open>Configuration\<close>

definition REQUIRED_METADATA :: "string list" where
  "REQUIRED_METADATA = [''issuer'', ''jwks_uri'', ''permission_endpoint'', ''introspection_endpoint'',
     ''resource_registration_endpoint'']"

definition UMA_DISCOVERY :: string where "UMA_DISCOVERY = ''/.well-known/uma2-configuration''"

definition typed_config :: "js \<Rightarrow> uma_config" where
  "typed_config v = \<lparr>uc_jwks_uri = decode_string (js_prop v ''jwks_uri''),
     uc_issuer = decode_string (js_prop v ''issuer''),
     uc_permission_endpoint = decode_string (js_prop v ''permission_endpoint''),
     uc_introspection_endpoint = decode_string (js_prop v ''introspection_endpoint''),
     uc_resource_registration_endpoint = decode_string (js_prop v ''resource_registration_endpoint''),
     uc_token_endpoint = js_prop v ''token_endpoint'', uc_registration_endpoint = js_prop v ''registration_endpoint''\<rparr>"

text \<open>\<open>in\<close> on a value that is not an object is a \<open>TypeError\<close>.\<close>

definition requestUmaConfig :: "'a fetcher \<Rightarrow> string \<Rightarrow> ('a rs_state, uma_config) act" where
  "requestUmaConfig fetch issuer =
     bind (web_fetch fetch (http_get (issuer @ UMA_DISCOVERY))) (\<lambda>res.
       if hr_status res \<ge> 400 then throw PlainError
       else bind (json_of res) (\<lambda>configuration.
         if \<not> is_object configuration then throw PlainError
         else if list_ex (\<lambda>k. k \<notin> fst ` set (own_props configuration)) REQUIRED_METADATA then throw PlainError
         else if list_ex (\<lambda>k. \<not> is_string (js_prop configuration k)) REQUIRED_METADATA then throw PlainError
         else bind (modify (\<lambda>s. s\<lparr>configCache := (configCache s)
             (issuer \<mapsto> (typed_config configuration, rs_clock s + 5 * 60 * 1000))\<rparr>)) (\<lambda>_.
           return (typed_config configuration))))"

definition fetchUmaConfig :: "'a fetcher \<Rightarrow> string \<Rightarrow> ('a rs_state, uma_config) act" where
  "fetchUmaConfig fetch issuer =
     bind (gets (\<lambda>s. (configCache s issuer, rs_clock s))) (\<lambda>(cached, now).
     if usable cached (\<lambda>expiration. expiration > now) then return (fst (the cached))
     else requestUmaConfig fetch issuer)"

subsection \<open>The protection API token\<close>

definition token_expiration :: "int \<Rightarrow> js \<Rightarrow> int option" where
  "token_expiration now v = (case v of JNum n \<Rightarrow> Some (now + n * 1000)
     | JBool b \<Rightarrow> Some (now + (if b then 1000 else 0)) | JNull \<Rightarrow> Some now | _ \<Rightarrow> None)"

definition unexpired :: "int option \<Rightarrow> int \<Rightarrow> bool" where
  "unexpired e now = (case e of None \<Rightarrow> False | Some t \<Rightarrow> t > now)"

definition requestPat :: "rs_library \<Rightarrow> 'a fetcher \<Rightarrow> string \<Rightarrow> string \<Rightarrow> ('a rs_state, string) act" where
  "requestPat lib fetch issuer credentials =
     bind (fetchUmaConfig fetch issuer) (\<lambda>config.
     bind (web_fetch fetch (http_post (js_text lib (uc_token_endpoint config)) ''application/x-www-form-urlencoded''
         (Some credentials) (JStr ''grant_type=client_credentials&scope=uma_protection''))) (\<lambda>response.
     if hr_status response \<noteq> 201 then throw InternalServer
     else bind (json_of response) (\<lambda>v.
       let pat = js_text lib (js_prop v ''token_type'') @ '' '' @ js_text lib (js_prop v ''access_token'') in
       bind (modify (\<lambda>s. s\<lparr>patStorage := (patStorage s)
           (credentials \<mapsto> (pat, token_expiration (rs_clock s) (js_prop v ''expires_in'')))\<rparr>)) (\<lambda>_.
       return pat))))"

definition getPat :: "rs_library \<Rightarrow> 'a fetcher \<Rightarrow> string \<Rightarrow> string \<Rightarrow> ('a rs_state, string progress) act" where
  "getPat lib fetch issuer credentials =
     bind (gets (\<lambda>s. (patStorage s credentials, rs_clock s))) (\<lambda>(cached, now).
     if usable cached (\<lambda>expiration. unexpired expiration now) then return (Settled (fst (the cached)))
     else bind (gets (\<lambda>s. PAT_EVENT \<in> inProgress s)) (\<lambda>busy.
     if busy then return (Awaits PAT_EVENT)
     else bind (modify (\<lambda>s. s\<lparr>inProgress := insert PAT_EVENT (inProgress s)\<rparr>)) (\<lambda>_.
       bind (requestPat lib fetch issuer credentials) (\<lambda>pat.
       bind (modify (\<lambda>s. s\<lparr>inProgress := inProgress s - {PAT_EVENT}\<rparr>)) (\<lambda>_.
       return (Settled pat))))))"

text \<open>What follows an \<open>await\<close> runs once the awaited call is settled.\<close>

definition await :: "('s, 'x progress) act \<Rightarrow> ('x \<Rightarrow> ('s, 'y progress) act) \<Rightarrow> ('s, 'y progress) act" where
  "await m f = bind m (\<lambda>p. case p of Settled x \<Rightarrow> f x | Awaits e \<Rightarrow> return (Awaits e))"

definition generateClientCredentials ::
  "rs_library \<Rightarrow> 'a fetcher \<Rightarrow> string \<Rightarrow> string \<Rightarrow> string \<Rightarrow> ('a rs_state, js \<times> js) act" where
  "generateClientCredentials lib fetch baseUrl webId issuer =
     bind (fetchUmaConfig fetch issuer) (\<lambda>config.
     bind (web_fetch fetch (http_post (js_text lib (uc_registration_endpoint config)) ''application/json''
         (Some (''WebID '' @ encodeURIComponent webId)) (JObj [(''client_uri'', JStr baseUrl)]))) (\<lambda>response.
     if hr_status response \<noteq> 201 then throw InternalServer
     else bind (json_of response) (\<lambda>v.
       return (js_prop v ''client_id'', js_prop v ''client_secret''))))"

subsection \<open>Tickets\<close>

text \<open>
  \<open>fetchTicket\<close> waits while other calls run: for the end of a registration (\<open>Finished\<close>, raced
  with a timer of two seconds that throws), and for a registration it starts itself
  (\<open>Registering\<close>). The argument \<open>suspend\<close> is what the event loop runs meanwhile, and how the wait
  ends; the registrations it interleaves are those of the theory RegistrationProgress.
\<close>

datatype wait = Finished string | Registering string

definition known_id :: "string \<Rightarrow> 'a rs_state \<Rightarrow> string option" where
  "known_id path s = (case umaIdStore s path of None \<Rightarrow> None | Some i \<Rightarrow> if truthy_str i then Some i else None)"

definition await_registration :: "(wait \<Rightarrow> ('a rs_state, unit) act) \<Rightarrow> string \<Rightarrow> ('a rs_state, unit) act" where
  "await_registration suspend path =
     bind (gets (\<lambda>s. known_id path s = None \<and> path \<in> inProgress s)) (\<lambda>busy.
     if busy then suspend (Finished path) else return ())"

definition force_registration ::
  "rs_library \<Rightarrow> (wait \<Rightarrow> ('a rs_state, unit) act) \<Rightarrow> string \<Rightarrow> ('a rs_state, unit) act" where
  "force_registration lib suspend path =
     bind (gets (\<lambda>s. known_id path s)) (\<lambda>umaId.
     if umaId \<noteq> None then return ()
     else if has_resource lib path then suspend (Registering path)
     else throw NotFound)"

definition ticket_scopes :: "string \<Rightarrow> string list \<Rightarrow> ('a rs_state, js list) act" where
  "ticket_scopes pe modes = fold_act (\<lambda>scopes mode. bind (lift (toUmaScope pe mode)) (\<lambda>sc.
     return (scopes @ [case sc of None \<Rightarrow> JNull | Some x \<Rightarrow> JStr x]))) [] modes"

definition ticket_entry ::
  "rs_library \<Rightarrow> (wait \<Rightarrow> ('a rs_state, unit) act) \<Rightarrow> js list \<Rightarrow> string \<times> string list \<Rightarrow> ('a rs_state, js list) act" where
  "ticket_entry lib suspend body = (\<lambda>(path, modes).
     bind (await_registration suspend path) (\<lambda>_.
     bind (force_registration lib suspend path) (\<lambda>_.
     bind (gets (\<lambda>s. known_id path s)) (\<lambda>umaId.
     case umaId of None \<Rightarrow> throw InternalServer
     | Some i \<Rightarrow> bind (ticket_scopes (pe_namespace lib) modes) (\<lambda>scopes.
         return (body @ [JObj [(''resource_id'', JStr i), (''resource_scopes'', JArr scopes)]]))))))"

definition post_ticket_request ::
  "'a fetcher \<Rightarrow> string \<Rightarrow> js list \<Rightarrow> string \<Rightarrow> ('a rs_state, string option progress) act" where
  "post_ticket_request fetch endpoint body pat =
     bind (web_fetch fetch (http_post endpoint ''application/json'' (Some pat) (JArr body))) (\<lambda>response.
     if hr_status response = 200 then return (Settled None)
     else if hr_status response \<noteq> 201 then throw PlainError
     else bind (json_of response) (\<lambda>v. case js_prop v ''ticket'' of
         JStr t \<Rightarrow> if truthy_str t then return (Settled (Some t)) else throw PlainError
       | _ \<Rightarrow> throw PlainError))"

definition fetchTicket ::
  "rs_library \<Rightarrow> 'a fetcher \<Rightarrow> (wait \<Rightarrow> ('a rs_state, unit) act) \<Rightarrow> (string \<times> string list) list \<Rightarrow> string \<Rightarrow> string \<Rightarrow>
     ('a rs_state, string option progress) act" where
  "fetchTicket lib fetch suspend entries issuer credentials =
     bind (catch (fetchUmaConfig fetch issuer) (\<lambda>_. throw PlainError)) (\<lambda>config.
     bind (fold_act (ticket_entry lib suspend) [] entries) (\<lambda>body.
     await (getPat lib fetch issuer credentials)
       (post_ticket_request fetch (uc_permission_endpoint config) body)))"

subsection \<open>Access tokens\<close>

definition permission_shape :: "js \<Rightarrow> bool" where
  "permission_shape p = (is_string (js_prop p ''resource_id'')
     \<and> (case js_prop p ''resource_scopes'' of JArr scopes \<Rightarrow> list_all is_string scopes | _ \<Rightarrow> False))"

definition verifyTokenData :: "rs_library \<Rightarrow> js \<Rightarrow> string \<Rightarrow> string \<Rightarrow> error + js" where
  "verifyTokenData lib tok issuer jwks =
     (case jose_verify lib tok jwks issuer ''solid'' of Inl e \<Rightarrow> Inl e
      | Inr payload \<Rightarrow>
          if \<not> list_all permission_shape (case js_prop payload ''permissions'' of JArr ps \<Rightarrow> ps | _ \<Rightarrow> [])
          then Inl PlainError else Inr payload)"

definition verifyJwtToken :: "rs_library \<Rightarrow> 'a fetcher \<Rightarrow> string \<Rightarrow> string list \<Rightarrow> ('a rs_state, js) act" where
  "verifyJwtToken lib fetch tok validIssuers =
     bind (catch
       (bind (lift (jose_decode lib tok)) (\<lambda>payload.
        case js_prop payload ''iss'' of
          JStr issuer \<Rightarrow>
            if \<not> truthy_str issuer then throw PlainError
            else if issuer \<notin> set validIssuers then throw PlainError
            else fetchUmaConfig fetch issuer
        | _ \<Rightarrow> throw PlainError))
       (\<lambda>_. throw PlainError)) (\<lambda>config.
     lift (verifyTokenData lib (JStr tok) (uc_issuer config) (uc_jwks_uri config)))"

definition verifyOpaqueToken :: "rs_library \<Rightarrow> 'a fetcher \<Rightarrow> string \<Rightarrow> string \<Rightarrow> ('a rs_state, js) act" where
  "verifyOpaqueToken lib fetch tok issuer =
     bind (fetchUmaConfig fetch issuer) (\<lambda>config.
     bind (web_fetch fetch (http_post (uc_introspection_endpoint config) ''application/x-www-form-urlencoded''
         None (JStr (''token_type_hint=access_token&token='' @ tok)))) (\<lambda>res.
     if hr_status res \<ge> 400 then throw PlainError
     else bind (json_of res) (\<lambda>jwt.
       if js_prop jwt ''active'' \<noteq> JStr ''true'' then throw PlainError
       else lift (verifyTokenData lib jwt (uc_issuer config) (uc_jwks_uri config)))))"

subsection \<open>Deregistration\<close>

definition http_delete :: "string \<Rightarrow> string \<Rightarrow> request" where
  "http_delete url pat = \<lparr>req_method = ''DELETE'', req_url = url, req_body = JUndef,
     req_authorization = Some pat, req_content_type = None, req_parameters = []\<rparr>"

definition deleteResource ::
  "rs_library \<Rightarrow> 'a fetcher \<Rightarrow> string \<Rightarrow> string \<Rightarrow> string \<Rightarrow> ('a rs_state, unit progress) act" where
  "deleteResource lib fetch path issuer credentials =
     bind (fetchUmaConfig fetch issuer) (\<lambda>config.
     bind (gets (\<lambda>s. known_id path s)) (\<lambda>umaId.
     case umaId of None \<Rightarrow> throw PlainError
     | Some i \<Rightarrow> await (getPat lib fetch issuer credentials) (\<lambda>pat.
         bind (web_fetch fetch (http_delete
             (rs_joinUrl lib (uc_resource_registration_endpoint config) (encodeURIComponent i)) pat)) (\<lambda>_.
         return (Settled ())))))"

subsection \<open>What the client keeps\<close>

lemma web_fetch_run: "web_fetch fetch req s = (r, t) \<Longrightarrow> \<exists>a. fetch req (other_side s) = (r, a) \<and> t = s\<lparr>other_side := a\<rparr>"
  by (auto simp: web_fetch_def split: prod.splits)

lemma json_of_run: "json_of resp s = (r, t) \<longleftrightarrow> t = s \<and> r = (case hr_json resp of None \<Rightarrow> Inl PlainError | Some v \<Rightarrow> Inr v)"
  by (auto simp: json_of_def split: option.splits)

lemma fetchUmaConfig_run:
  assumes "fetchUmaConfig fetch issuer s = (r, t)"
  obtains (cached) c e where "r = Inr c" "t = s" "configCache s issuer = Some (c, e)" "rs_clock s < e"
  | (fetched) v a where "r = Inr (typed_config v)"
      "t = s\<lparr>other_side := a, configCache := (configCache s)(issuer \<mapsto> (typed_config v, rs_clock s + 300000))\<rparr>"
      "\<forall>k \<in> set REQUIRED_METADATA. is_string (js_prop v k)"
  | (failed) err a where "r = Inl err" "t = s\<lparr>other_side := a\<rparr>"
proof (cases "\<exists>c. configCache s issuer = Some c \<and> snd c > rs_clock s")
  case True
  then obtain c e where c: "configCache s issuer = Some (c, e)" "rs_clock s < e" by fastforce
  with assms have "r = Inr c" "t = s" by (auto simp: fetchUmaConfig_def)
  with c show ?thesis by (rule cached [rotated 2])
next
  case False
  with assms have run: "requestUmaConfig fetch issuer s = (r, t)" by (auto simp: fetchUmaConfig_def split: if_splits)
  obtain x u where get: "web_fetch fetch (http_get (issuer @ UMA_DISCOVERY)) s = (x, u)" by fastforce
  obtain a where u: "u = s\<lparr>other_side := a\<rparr>" using web_fetch_run [OF get] by blast
  consider (bad) err where "r = Inl err" "t = u"
    | (good) v where "r = Inr (typed_config v)" "\<forall>k \<in> set REQUIRED_METADATA. is_string (js_prop v k)"
      "t = u\<lparr>configCache := (configCache u)(issuer \<mapsto> (typed_config v, rs_clock u + 300000))\<rparr>"
    using run get by (cases r; cases x) (auto simp: requestUmaConfig_def bind_eqs json_of_run list_ex_iff split: if_splits option.splits)
  then show ?thesis
  proof cases
    case bad
    with u show ?thesis by (intro failed) auto
  next
    case good
    with u show ?thesis by (intro fetched [of v a]) auto
  qed
qed

text \<open>The two maps between modes and scopes are inverse to each other.\<close>

lemma modeMap_distinct: "distinct (map fst (modeMap pe)) \<and> distinct (map snd (modeMap pe))"
  by (simp add: modeMap_def policy_mode_def mode_term_def)

lemma scopeMap_swap: "scopeMap pe = map (\<lambda>(m, sc). (sc, m)) (modeMap pe)"
  by (simp add: scopeMap_def modeMap_def policy_mode_def mode_term_def)

lemma map_of_swap:
  assumes "distinct (map fst xs)" and "distinct (map snd xs)"
  shows "map_of (map (\<lambda>(m, sc). (sc, m)) xs) y = Some x \<longleftrightarrow> map_of xs x = Some y"
proof -
  have keys: "distinct (map fst (map (\<lambda>(m, sc). (sc, m)) xs))"
    using assms(2) by (simp add: comp_def case_prod_beta)
  have "map_of (map (\<lambda>(m, sc). (sc, m)) xs) y = Some x \<longleftrightarrow> (y, x) \<in> set (map (\<lambda>(m, sc). (sc, m)) xs)"
    by (rule map_of_eq_Some_iff [OF keys])
  also have "\<dots> \<longleftrightarrow> map_of xs x = Some y" using map_of_eq_Some_iff [OF assms(1)] by force
  finally show ?thesis .
qed

text \<open>
  the conversions between the modes of the resource server and the scopes of the
  authorization server undo each other: a mode is converted to a scope exactly when the scope is
  converted to the mode, and every one of the five scopes is the image of a mode.
\<close>

theorem scope_roundtrip:
  "(toUmaScope pe mode = Inr (Some sc) \<longleftrightarrow> toCssMode pe sc = Inr (Some mode))
   \<and> (sc \<in> set MODES \<longleftrightarrow> (\<exists>m. toCssMode pe sc = Inr (Some m)))"
proof
  have modes: "starts_with pe m" if "obj_get (modeMap pe) m = Some x" for m x
    using map_of_SomeD [OF that] by (auto simp: modeMap_def policy_mode_def starts_with_def)
  have scopes: "starts_with (mode_term '''') x" if "obj_get (modeMap pe) m = Some x" for m x
    using map_of_SomeD [OF that] by (auto simp: modeMap_def mode_term_def starts_with_def)
  have swap: "obj_get (scopeMap pe) x = Some m \<longleftrightarrow> obj_get (modeMap pe) m = Some x" for x m
    using map_of_swap [of "modeMap pe"] modeMap_distinct [of pe] by (simp add: scopeMap_swap)
  show "toUmaScope pe mode = Inr (Some sc) \<longleftrightarrow> toCssMode pe sc = Inr (Some mode)"
    using modes scopes swap by (auto simp: toUmaScope_def toCssMode_def)
  have "(\<exists>m. obj_get (modeMap pe) m = Some sc) \<longleftrightarrow> sc \<in> snd ` set (modeMap pe)"
    using map_of_eq_Some_iff [of "modeMap pe"] modeMap_distinct [of pe] by force
  also have "\<dots> \<longleftrightarrow> sc \<in> set MODES" by (auto simp: modeMap_def MODES_def)
  finally show "sc \<in> set MODES \<longleftrightarrow> (\<exists>m. toCssMode pe sc = Inr (Some m))"
    using swap scopes by (auto simp: toCssMode_def)
qed

subsection \<open>The protection API token\<close>

text \<open>A failing request leaves the tokens and the calls in progress as they were.\<close>

lemma requestPat_run:
  assumes "requestPat lib fetch issuer credentials s = (r, t)"
  shows "inProgress t = inProgress s \<and> umaIdStore t = umaIdStore s \<and> rs_clock t = rs_clock s
    \<and> (case r of Inl e \<Rightarrow> patStorage t = patStorage s
       | Inr pat \<Rightarrow> \<exists>e. patStorage t = (patStorage s)(credentials \<mapsto> (pat, e)))"
proof -
  have config_keeps: "inProgress u = inProgress s \<and> umaIdStore u = umaIdStore s \<and> rs_clock u = rs_clock s \<and> patStorage u = patStorage s"
    if "fetchUmaConfig fetch issuer s = (x, u)" for x u
    using that by (cases rule: fetchUmaConfig_run) auto
  from assms [unfolded requestPat_def] show ?thesis
  proof (cases rule: bind_cases)
    case (raised e)
    with config_keeps show ?thesis by auto
  next
    case (returned c u)
    from returned(2) show ?thesis
    proof (cases rule: bind_cases)
      case (raised e)
      with config_keeps [OF returned(1)] web_fetch_run show ?thesis by fastforce
    next
      case post: (returned resp v)
      from web_fetch_run [OF post(1)] post(2) config_keeps [OF returned(1)] show ?thesis
        by (cases r) (auto simp: bind_eqs json_of_run Let_def split: if_splits option.splits)
    qed
  qed
qed

lemma getPat_run:
  assumes "getPat lib fetch issuer credentials s = (r, t)"
  obtains (cached) pat e where "r = Inr (Settled pat)" "t = s" "patStorage s credentials = Some (pat, e)" "unexpired e (rs_clock s)"
  | (busy) "r = Inr (Awaits PAT_EVENT)" "t = s" "PAT_EVENT \<in> inProgress s"
      "\<nexists>c. patStorage s credentials = Some c \<and> unexpired (snd c) (rs_clock s)"
  | (issued) pat e where "r = Inr (Settled pat)" "patStorage t = (patStorage s)(credentials \<mapsto> (pat, e))"
      "inProgress t = inProgress s" "PAT_EVENT \<notin> inProgress s" "umaIdStore t = umaIdStore s" "rs_clock t = rs_clock s"
  | (failed) err where "r = Inl err" "patStorage t = patStorage s" "umaIdStore t = umaIdStore s"
      "inProgress t = insert PAT_EVENT (inProgress s)" "PAT_EVENT \<notin> inProgress s" "rs_clock t = rs_clock s"
      "\<nexists>c. patStorage s credentials = Some c \<and> unexpired (snd c) (rs_clock s)"
proof (cases "\<exists>c. patStorage s credentials = Some c \<and> unexpired (snd c) (rs_clock s)")
  case True
  then obtain pat e where c: "patStorage s credentials = Some (pat, e)" "unexpired e (rs_clock s)" by fastforce
  with assms have "r = Inr (Settled pat)" "t = s" by (auto simp: getPat_def)
  with c show ?thesis by (rule cached [rotated 2])
next
  case none: False
  show ?thesis
  proof (cases "PAT_EVENT \<in> inProgress s")
    case True
    with assms none have "r = Inr (Awaits PAT_EVENT)" "t = s" by (auto simp: getPat_def split: if_splits)
    with True none show ?thesis by (intro busy) auto
  next
    case free: False
    let ?s = "s\<lparr>inProgress := insert PAT_EVENT (inProgress s)\<rparr>"
    obtain x u where req: "requestPat lib fetch issuer credentials ?s = (x, u)" by fastforce
    note u = requestPat_run [OF req]
    have run: "bind (requestPat lib fetch issuer credentials) (\<lambda>pat.
       bind (modify (\<lambda>s. s\<lparr>inProgress := inProgress s - {PAT_EVENT}\<rparr>)) (\<lambda>_. return (Settled pat))) ?s = (r, t)"
      using assms none free by (auto simp: getPat_def split: if_splits)
    show ?thesis
    proof (cases x)
      case (Inl e)
      with run req u free none show ?thesis by (intro failed [of e]) (auto simp: bind_Inl)
    next
      case (Inr pat)
      with u obtain e where "patStorage u = (patStorage s)(credentials \<mapsto> (pat, e))" by auto
      with run req u free Inr show ?thesis by (intro issued [of pat e]) (auto simp: bind_Inr)
    qed
  qed
qed

text \<open>
  The life of the client between restarts, as far as PATs are concerned: calls of \<open>getPat\<close> for
  any account, between which the time, the other side and the cached configurations may change.
\<close>

inductive pat_step :: "rs_library \<Rightarrow> 'a fetcher \<Rightarrow> 'a rs_state \<Rightarrow> 'a rs_state \<Rightarrow> bool" for lib fetch where
  call: "getPat lib fetch issuer credentials s = (r, t) \<Longrightarrow> pat_step lib fetch s t"
| elapse: "pat_step lib fetch s (s\<lparr>rs_clock := now, other_side := a, configCache := c\<rparr>)"

text \<open>
  a PAT is requested at most once per life time: while one is stored and not expired, every call
  for the same credentials returns it and contacts nobody; a call that succeeds stores what it
  returns and leaves the lock as it found it.
\<close>

theorem pat_cached:
  assumes "getPat lib fetch issuer credentials s = (Inr (Settled pat), t)"
  shows "\<exists>e. patStorage t credentials = Some (pat, e) \<and> inProgress t = inProgress s
    \<and> (\<forall>fetch' issuer' u. patStorage u credentials = patStorage t credentials \<and> unexpired e (rs_clock u)
        \<longrightarrow> getPat lib fetch' issuer' credentials u = (Inr (Settled pat), u))"
proof -
  have "\<exists>e. patStorage t credentials = Some (pat, e) \<and> inProgress t = inProgress s"
    using assms by (cases rule: getPat_run) auto
  then obtain e where e: "patStorage t credentials = Some (pat, e)" "inProgress t = inProgress s" by blast
  have "getPat lib fetch' issuer' credentials u = (Inr (Settled pat), u)"
    if "patStorage u credentials = patStorage t credentials" "unexpired e (rs_clock u)" for fetch' issuer' u
    using that e(1) by (simp add: getPat_def)
  with e show ?thesis by blast
qed

text \<open>
  a request for a PAT that fails leaves the client locked: the lock is taken before the
  request and given back only after a success, so that from then on no call for any account
  requests a PAT. Whatever calls follow, a call returns a token stored before the failure that
  has not expired, or waits for an event that is never emitted.
\<close>

theorem pat_failure_locks:
  assumes "getPat lib fetch issuer credentials s = (Inl err, t)"
    and "(pat_step lib fetch)\<^sup>*\<^sup>* t u" and "getPat lib fetch issuer' credentials' u = (r, v)"
  shows "patStorage u = patStorage s \<and> v = u
    \<and> (r = Inr (Awaits PAT_EVENT)
       \<or> (\<exists>pat e. r = Inr (Settled pat) \<and> patStorage s credentials' = Some (pat, e) \<and> unexpired e (rs_clock u)))"
proof -
  have "PAT_EVENT \<in> inProgress t \<and> patStorage t = patStorage s"
    using assms(1) by (cases rule: getPat_run) auto
  with assms(2) have locked: "PAT_EVENT \<in> inProgress u \<and> patStorage u = patStorage s"
  proof (induction rule: rtranclp_induct)
    case (step x y)
    from step(2) step(3) [OF step(4)] show ?case
      by (cases rule: pat_step.cases) (auto elim: getPat_run)
  qed
  from assms(3) locked show ?thesis by (cases rule: getPat_run) auto
qed

subsection \<open>Verified tokens\<close>

text \<open>
  What is relied on in the library that verifies JWTs: it verifies strings only, and what it
  returns is what the decoder reads in the token, issued by the given issuer.
\<close>

definition jose_contract :: "rs_library \<Rightarrow> bool" where
  "jose_contract lib = (\<forall>v jwks issuer audience payload. jose_verify lib v jwks issuer audience = Inr payload
     \<longrightarrow> (\<exists>tok. v = JStr tok \<and> jose_decode lib tok = Inr payload) \<and> js_prop payload ''iss'' = JStr issuer)"

lemma verifyTokenData_Inr:
  assumes "verifyTokenData lib v issuer jwks = Inr payload"
  shows "jose_verify lib v jwks issuer ''solid'' = Inr payload
    \<and> (\<forall>ps p. js_prop payload ''permissions'' = JArr ps \<and> p \<in> set ps \<longrightarrow> permission_shape p)"
  using assms by (auto simp: verifyTokenData_def list_all_iff split: sum.splits if_splits)

lemma verifyJwtToken_run:
  assumes "jose_contract lib" and "verifyJwtToken lib fetch tok validIssuers s = (Inr payload, t)"
  shows "\<exists>issuer jwks. issuer \<in> set validIssuers \<and> issuer \<noteq> '''' \<and> js_prop payload ''iss'' = JStr issuer
    \<and> jose_verify lib (JStr tok) jwks issuer ''solid'' = Inr payload
    \<and> (\<exists>c e. configCache t issuer = Some (c, e) \<and> uc_issuer c = issuer \<and> uc_jwks_uri c = jwks \<and> rs_clock t < e)
    \<and> (\<forall>ps p. js_prop payload ''permissions'' = JArr ps \<and> p \<in> set ps \<longrightarrow> permission_shape p)"
proof -
  from assms(2) obtain c where config: "bind (lift (jose_decode lib tok)) (\<lambda>payload.
        case js_prop payload ''iss'' of
          JStr issuer \<Rightarrow>
            if \<not> truthy_str issuer then throw PlainError
            else if issuer \<notin> set validIssuers then throw PlainError
            else fetchUmaConfig fetch issuer
        | _ \<Rightarrow> throw PlainError) s = (Inr c, t)"
    and data: "verifyTokenData lib (JStr tok) (uc_issuer c) (uc_jwks_uri c) = Inr payload"
    by (auto simp: verifyJwtToken_def bind_eq_Inr catch_eq_Inr)
  from config obtain decoded issuer where decoded: "jose_decode lib tok = Inr decoded" "js_prop decoded ''iss'' = JStr issuer"
    "issuer \<in> set validIssuers" "issuer \<noteq> ''''" and run: "fetchUmaConfig fetch issuer s = (Inr c, t)"
    by (cases "js_prop (projr (jose_decode lib tok)) ''iss''")
      (auto simp: bind_eq_Inr truthy_str_def split: if_splits)
  note verified = verifyTokenData_Inr [OF data]
  with assms(1) decoded have payload: "payload = decoded" "js_prop payload ''iss'' = JStr (uc_issuer c)"
    by (fastforce simp: jose_contract_def)+
  with decoded have issuer: "uc_issuer c = issuer" by simp
  have "\<exists>e. configCache t issuer = Some (c, e) \<and> rs_clock t < e"
    using run by (cases rule: fetchUmaConfig_run) auto
  with verified decoded payload issuer show ?thesis by blast
qed

text \<open>
  a JWT is accepted as access token only if it verifies, for the audience of the server, against
  the key set and under the name the configuration of one of the valid issuers gives, and its
  permissions then have a resource and a list of scopes each. The issuer in the token is then a
  valid one.
\<close>

theorem jwt_accepted_only_from_valid_issuer:
  assumes "jose_contract lib" and "verifyJwtToken lib fetch tok validIssuers s = (Inr payload, t)"
  shows "\<exists>issuer jwks. issuer \<in> set validIssuers \<and> issuer \<noteq> '''' \<and> js_prop payload ''iss'' = JStr issuer
    \<and> jose_verify lib (JStr tok) jwks issuer ''solid'' = Inr payload
    \<and> (\<exists>c e. configCache t issuer = Some (c, e) \<and> uc_issuer c = issuer \<and> uc_jwks_uri c = jwks \<and> rs_clock t < e)
    \<and> (\<forall>ps p. js_prop payload ''permissions'' = JArr ps \<and> p \<in> set ps \<longrightarrow> permission_shape p)"
  by (rule verifyJwtToken_run [OF assms])

lemma opaque_token_rejected:
  assumes "jose_contract lib"
  shows "\<exists>e. fst (verifyOpaqueToken lib fetch tok issuer s) = Inl e"
proof -
  obtain r t where run: "verifyOpaqueToken lib fetch tok issuer s = (r, t)" by fastforce
  have never: "verifyTokenData lib v i jwks \<noteq> Inr payload" if "js_prop v ''active'' = JStr ''true''" for v i jwks payload
  proof
    assume "verifyTokenData lib v i jwks = Inr payload"
    with assms obtain tok where "v = JStr tok" by (fastforce simp: jose_contract_def dest: verifyTokenData_Inr)
    with that show False by (simp add: js_prop_def own_props_def)
  qed
  have "r \<noteq> Inr payload" for payload
    using run never by (auto simp: verifyOpaqueToken_def bind_eq_Inr json_of_run split: if_splits option.splits)
  with run show ?thesis by (cases r) auto
qed

text \<open>
  no token is ever accepted by introspection: the answer of the authorization server has to
  carry the string \<open>true\<close> as \<open>active\<close>, so it is an object, and it is this object, not the
  token, that is then verified as a JWT. With the authorization server of this repository the
  first test fails already, as its answers carry a boolean.
\<close>

theorem opaque_token_never_accepted:
  assumes "jose_contract lib"
  shows "\<exists>e. fst (verifyOpaqueToken lib fetch tok issuer s) = Inl e"
  by (rule opaque_token_rejected [OF assms])

subsection \<open>Requested tickets\<close>

definition scope_json :: "string \<Rightarrow> string \<Rightarrow> js" where
  "scope_json pe mode = (case toUmaScope pe mode of Inr (Some sc) \<Rightarrow> JStr sc | _ \<Rightarrow> JNull)"

definition requested_entry :: "string \<Rightarrow> string \<Rightarrow> string list \<Rightarrow> js" where
  "requested_entry pe i modes =
     JObj [(''resource_id'', JStr i), (''resource_scopes'', JArr (map (scope_json pe) modes))]"

text \<open>An identifier that is known stays known.\<close>

definition ids_kept :: "'a rs_state \<Rightarrow> 'a rs_state \<Rightarrow> bool" where
  "ids_kept s t = (\<forall>path i. known_id path s = Some i \<longrightarrow> known_id path t = Some i)"

lemma ids_kept_refl: "ids_kept s s"
  by (simp add: ids_kept_def)

lemma ids_kept_trans: "ids_kept s t \<Longrightarrow> ids_kept t u \<Longrightarrow> ids_kept s u"
  by (simp add: ids_kept_def)

lemma ids_kept_same: "umaIdStore t = umaIdStore s \<Longrightarrow> ids_kept s t"
  by (simp add: ids_kept_def known_id_def)

lemma ticket_scopes_run:
  assumes "ticket_scopes pe modes s = (Inr out, t)"
  shows "t = s \<and> out = map (scope_json pe) modes \<and> (\<forall>m \<in> set modes. starts_with pe m)"
proof -
  have "fold_act (\<lambda>scopes mode. bind (lift (toUmaScope pe mode)) (\<lambda>sc.
     return (scopes @ [case sc of None \<Rightarrow> JNull | Some x \<Rightarrow> JStr x]))) acc modes s = (Inr out, t) \<Longrightarrow>
     t = s \<and> out = acc @ map (scope_json pe) modes \<and> (\<forall>m \<in> set modes. starts_with pe m)" for acc
  proof (induction modes arbitrary: acc)
    case (Cons m ms)
    then show ?case
      by (fastforce simp: bind_eq_Inr scope_json_def toUmaScope_def split: if_splits option.splits)
  qed simp
  from this [of "[]"] assms show ?thesis by (simp add: ticket_scopes_def)
qed

lemma ticket_entry_run:
  assumes "\<forall>w. keeps ids_kept (suspend w)" and "ticket_entry lib suspend body (path, modes) s = (Inr out, t)"
  shows "ids_kept s t \<and> (\<exists>i. known_id path t = Some i \<and> out = body @ [requested_entry (pe_namespace lib) i modes])
    \<and> (\<forall>m \<in> set modes. starts_with (pe_namespace lib) m)"
proof -
  from assms(2) obtain u v where first: "await_registration suspend path s = (Inr (), u)"
    and forced: "force_registration lib suspend path u = (Inr (), v)"
    and last: "(case known_id path v of None \<Rightarrow> throw InternalServer
     | Some i \<Rightarrow> bind (ticket_scopes (pe_namespace lib) modes) (\<lambda>scopes.
         return (body @ [JObj [(''resource_id'', JStr i), (''resource_scopes'', JArr scopes)]]))) v = (Inr out, t)"
    by (auto simp: ticket_entry_def bind_eq_Inr)
  have su: "ids_kept s u" using first assms(1)
    by (auto simp: await_registration_def ids_kept_refl dest: keepsD split: if_splits)
  have uv: "ids_kept u v" using forced assms(1)
    by (auto simp: force_registration_def ids_kept_refl dest: keepsD split: if_splits)
  obtain i where i: "known_id path v = Some i" using last by (cases "known_id path v") auto
  with last obtain scopes where scopes: "ticket_scopes (pe_namespace lib) modes v = (Inr scopes, t)"
    and out: "out = body @ [JObj [(''resource_id'', JStr i), (''resource_scopes'', JArr scopes)]]"
    by (auto simp: bind_eq_Inr)
  note sc = ticket_scopes_run [OF scopes]
  from ids_kept_trans [OF su uv] sc have "ids_kept s t" by simp
  with sc i out show ?thesis by (simp add: requested_entry_def)
qed

lemma ticket_body_run:
  assumes "\<forall>w. keeps ids_kept (suspend w)" and "fold_act (ticket_entry lib suspend) acc entries s = (Inr body, t)"
  shows "ids_kept s t \<and> (\<exists>rest. body = acc @ rest \<and> list_all2 (\<lambda>(path, modes) b.
      (\<exists>i. known_id path t = Some i \<and> b = requested_entry (pe_namespace lib) i modes)
      \<and> (\<forall>m \<in> set modes. starts_with (pe_namespace lib) m)) entries rest)"
  using assms(2)
proof (induction entries arbitrary: acc s)
  case Nil
  then show ?case by (simp add: ids_kept_refl)
next
  case (Cons entry entries)
  obtain path modes where entry: "entry = (path, modes)" by fastforce
  from Cons.prems obtain acc' u where step: "ticket_entry lib suspend acc (path, modes) s = (Inr acc', u)"
    and rest: "fold_act (ticket_entry lib suspend) acc' entries u = (Inr body, t)"
    by (auto simp: entry bind_eq_Inr)
  note first = ticket_entry_run [OF assms(1) step]
  note later = Cons.IH [OF rest]
  from first obtain i where i: "known_id path u = Some i" "acc' = acc @ [requested_entry (pe_namespace lib) i modes]"
    by blast
  from later obtain rest where ids: "ids_kept u t" and body: "body = acc' @ rest"
    and entries: "list_all2 (\<lambda>(path, modes) b.
      (\<exists>i. known_id path t = Some i \<and> b = requested_entry (pe_namespace lib) i modes)
      \<and> (\<forall>m \<in> set modes. starts_with (pe_namespace lib) m)) entries rest" by blast
  from ids i(1) have known: "known_id path t = Some i" by (simp add: ids_kept_def)
  have "ids_kept s t" by (rule ids_kept_trans [OF _ ids]) (use first in blast)
  moreover from body i(2) have "body = acc @ (requested_entry (pe_namespace lib) i modes # rest)" by simp
  ultimately show ?case using known entries first by (simp add: entry)
qed

lemma await_Settled:
  "await m f s = (Inr (Settled x), t) \<Longrightarrow> \<exists>y u. m s = (Inr (Settled y), u) \<and> f y u = (Inr (Settled x), t)"
proof -
  assume "await m f s = (Inr (Settled x), t)"
  then obtain p u where "m s = (Inr p, u)" "(case p of Settled x \<Rightarrow> f x | Awaits e \<Rightarrow> return (Awaits e)) u = (Inr (Settled x), t)"
    by (auto simp: await_def bind_eq_Inr)
  then show ?thesis by (cases p) auto
qed

lemma post_ticket_request_run:
  assumes "post_ticket_request fetch endpoint body pat w = (Inr (Settled x), t)"
  shows "\<exists>resp a. fetch (http_post endpoint ''application/json'' (Some pat) (JArr body)) (other_side w) = (Inr resp, a)
    \<and> t = w\<lparr>other_side := a\<rparr>
    \<and> (case x of None \<Rightarrow> hr_status resp = 200
       | Some tk \<Rightarrow> hr_status resp = 201 \<and> tk \<noteq> '''' \<and> (\<exists>v. hr_json resp = Some v \<and> js_prop v ''ticket'' = JStr tk))"
  using assms [unfolded post_ticket_request_def]
proof (cases rule: bind_cases)
  case (returned resp y)
  obtain a where a: "fetch (http_post endpoint ''application/json'' (Some pat) (JArr body)) (other_side w) = (Inr resp, a)"
    "y = w\<lparr>other_side := a\<rparr>" using web_fetch_run [OF returned(1)] by blast
  have "t = y \<and> (case x of None \<Rightarrow> hr_status resp = 200
       | Some tk \<Rightarrow> hr_status resp = 201 \<and> tk \<noteq> '''' \<and> (\<exists>v. hr_json resp = Some v \<and> js_prop v ''ticket'' = JStr tk))"
  proof (cases "hr_json resp")
    case None
    with returned(2) show ?thesis by (auto simp: bind_eq_Inr json_of_run split: if_splits)
  next
    case (Some v)
    with returned(2) show ?thesis
      by (cases "js_prop v ''ticket''") (auto simp: bind_eq_Inr json_of_run truthy_str_def split: if_splits)
  qed
  with a show ?thesis by blast
qed simp

lemma fetchTicket_run:
  assumes "\<forall>w. keeps ids_kept (suspend w)"
    and "fetchTicket lib fetch suspend entries issuer credentials s = (Inr (Settled x), t)"
  shows "\<exists>config pat body a resp e.
      fst (fetchUmaConfig fetch issuer s) = Inr config
    \<and> patStorage t credentials = Some (pat, e)
    \<and> fetch (http_post (uc_permission_endpoint config) ''application/json'' (Some pat) (JArr body)) a
        = (Inr resp, other_side t)
    \<and> list_all2 (\<lambda>(path, modes) b.
          (\<exists>i. known_id path t = Some i \<and> b = requested_entry (pe_namespace lib) i modes)
          \<and> (\<forall>m \<in> set modes. starts_with (pe_namespace lib) m)) entries body
    \<and> (case x of None \<Rightarrow> hr_status resp = 200
       | Some tk \<Rightarrow> hr_status resp = 201 \<and> tk \<noteq> '''' \<and> (\<exists>v. hr_json resp = Some v \<and> js_prop v ''ticket'' = JStr tk))"
proof -
  from assms(2) obtain config u body v pat w where config: "fetchUmaConfig fetch issuer s = (Inr config, u)"
    and body: "fold_act (ticket_entry lib suspend) [] entries u = (Inr body, v)"
    and pat: "getPat lib fetch issuer credentials v = (Inr (Settled pat), w)"
    and send: "post_ticket_request fetch (uc_permission_endpoint config) body pat w = (Inr (Settled x), t)"
    by (auto simp: fetchTicket_def bind_eq_Inr catch_eq_Inr dest!: await_Settled)
  obtain resp a where fetched: "fetch (http_post (uc_permission_endpoint config) ''application/json'' (Some pat) (JArr body))
      (other_side w) = (Inr resp, a)" and state: "t = w\<lparr>other_side := a\<rparr>"
    and answer: "case x of None \<Rightarrow> hr_status resp = 200
       | Some tk \<Rightarrow> hr_status resp = 201 \<and> tk \<noteq> '''' \<and> (\<exists>v. hr_json resp = Some v \<and> js_prop v ''ticket'' = JStr tk)"
    using post_ticket_request_run [OF send] by blast
  obtain e where e: "patStorage w credentials = Some (pat, e)" "umaIdStore w = umaIdStore v"
    using pat by (cases rule: getPat_run) auto
  have kept: "known_id path t = known_id path v" for path
    using e(2) state by (simp add: known_id_def)
  have "list_all2 (\<lambda>(path, modes) b.
          (\<exists>i. known_id path t = Some i \<and> b = requested_entry (pe_namespace lib) i modes)
          \<and> (\<forall>m \<in> set modes. starts_with (pe_namespace lib) m)) entries body"
    using ticket_body_run [OF assms(1) body] unfolding kept by simp
  then show ?thesis using config fetched answer e(1) state by (intro exI conjI) auto
qed

text \<open>
  a ticket is requested for exactly the resources and modes that are to be accessed. When
  \<open>fetchTicket\<close> returns, the last request it sent went to the permission endpoint of the issuer
  with a PAT of the given credentials, and its body has one entry per target, in their order, with
  the UMA identifier the target is registered under and the scopes of its modes; the ticket is the
  string of the answer 201, and there is none (the resource is public) exactly after 200. This
  holds whatever runs while the call waits for registrations, provided no identifier is lost then.
\<close>

theorem ticket_requested_exactly:
  assumes "\<forall>w. keeps ids_kept (suspend w)"
    and "fetchTicket lib fetch suspend entries issuer credentials s = (Inr (Settled x), t)"
  shows "\<exists>config pat body a resp e.
      fst (fetchUmaConfig fetch issuer s) = Inr config
    \<and> patStorage t credentials = Some (pat, e)
    \<and> fetch (http_post (uc_permission_endpoint config) ''application/json'' (Some pat) (JArr body)) a
        = (Inr resp, other_side t)
    \<and> list_all2 (\<lambda>(path, modes) b.
          (\<exists>i. known_id path t = Some i \<and> b = requested_entry (pe_namespace lib) i modes)
          \<and> (\<forall>m \<in> set modes. starts_with (pe_namespace lib) m)) entries body
    \<and> (case x of None \<Rightarrow> hr_status resp = 200
       | Some tk \<Rightarrow> hr_status resp = 201 \<and> tk \<noteq> '''' \<and> (\<exists>v. hr_json resp = Some v \<and> js_prop v ''ticket'' = JStr tk))"
  by (rule fetchTicket_run [OF assms])

subsection \<open>Examples\<close>

definition example_rs_library :: rs_library where
  "example_rs_library = \<lparr>rs_joinUrl = (@), pe_namespace = ''pe#'',
     jose_decode = (\<lambda>tok. Inr (JObj [(''iss'', JStr ''as''), (''permissions'', JArr [])])),
     jose_verify = (\<lambda>v jwks issuer audience. case v of
        JStr tok \<Rightarrow> if issuer = ''as'' then Inr (JObj [(''iss'', JStr ''as''), (''permissions'', JArr [])]) else Inl PlainError
      | _ \<Rightarrow> Inl PlainError),
     has_resource = (\<lambda>_. True), js_text = decode_string\<rparr>"

definition example_metadata :: js where
  "example_metadata = JObj [(''issuer'', JStr ''as''), (''jwks_uri'', JStr ''keys''), (''permission_endpoint'', JStr ''ticket''),
     (''introspection_endpoint'', JStr ''introspect''), (''resource_registration_endpoint'', JStr ''resources/''),
     (''token_endpoint'', JStr ''token'')]"

text \<open>An authorization server that answers the token endpoint with the given status.\<close>

definition example_server :: "nat \<Rightarrow> unit fetcher" where
  "example_server code req = (\<lambda>a. (Inr (if req_url req = ''as/.well-known/uma2-configuration''
       then \<lparr>hr_status = 200, hr_json = Some example_metadata\<rparr>
     else if req_url req = ''token''
       then \<lparr>hr_status = code, hr_json = Some (JObj [(''access_token'', JStr ''pat''), (''token_type'', JStr ''Bearer''), (''expires_in'', JNum 60)])\<rparr>
     else \<lparr>hr_status = 201, hr_json = Some (JObj [(''ticket'', JStr ''tk'')])\<rparr>), a))"

definition rs_example :: "unit rs_state" where
  "rs_example = \<lparr>inProgress = {}, configCache = Map.empty, patStorage = Map.empty, umaIdStore = [''/a'' \<mapsto> ''id1''],
     rs_clock = 0, other_side = ()\<rparr>"

lemma example_jose: "jose_contract example_rs_library"
  by (auto simp: jose_contract_def example_rs_library_def split: js.splits if_splits)

lemma rs_example_pat: "fst (getPat example_rs_library (example_server 201) ''as'' ''Basic a'' rs_example)
    = Inr (Settled ''Bearer pat'')"
  by code_simp

theorem pat_cached_witness:
  "\<exists>e. patStorage (snd (getPat example_rs_library (example_server 201) ''as'' ''Basic a'' rs_example)) ''Basic a''
    = Some (''Bearer pat'', e)"
  using pat_cached [OF run_fst [OF rs_example_pat]] by (elim exE conjE) (rule exI)

lemma example_failure: "fst (getPat example_rs_library (example_server 500) ''as'' ''Basic a'' rs_example) = Inl InternalServer"
  by code_simp

theorem pat_failure_locks_witness:
  "\<exists>t r v. getPat example_rs_library (example_server 500) ''as'' ''Basic a'' rs_example = (Inl InternalServer, t)
    \<and> getPat example_rs_library (example_server 500) ''as'' ''Basic b'' t = (r, v) \<and> v = t"
proof -
  let ?t = "snd (getPat example_rs_library (example_server 500) ''as'' ''Basic a'' rs_example)"
  note failed = run_fst [OF example_failure]
  have "snd (getPat example_rs_library (example_server 500) ''as'' ''Basic b'' ?t) = ?t"
    using pat_failure_locks [OF failed rtranclp.rtrancl_refl prod.collapse [symmetric]] by blast
  with failed show ?thesis by (metis prod.collapse)
qed

lemma example_jwt: "fst (verifyJwtToken example_rs_library (example_server 201) ''t'' [''as''] rs_example)
    = Inr (JObj [(''iss'', JStr ''as''), (''permissions'', JArr [])])"
  by code_simp

theorem jwt_accepted_only_from_valid_issuer_witness:
  "\<exists>issuer. issuer \<in> set [''as''] \<and> issuer \<noteq> ''''"
  using jwt_accepted_only_from_valid_issuer [OF example_jose run_fst [OF example_jwt]] by blast

theorem opaque_token_never_accepted_witness:
  "\<exists>e. fst (verifyOpaqueToken example_rs_library (example_server 201) ''t'' ''as'' rs_example) = Inl e"
  by (rule opaque_token_never_accepted [OF example_jose])

lemma rs_ticket_run:
  "fst (fetchTicket example_rs_library (example_server 201) (\<lambda>w. return ()) [(''/a'', [''pe#Read''])] ''as'' ''Basic a'' rs_example)
    = Inr (Settled (Some ''tk''))"
  by code_simp

theorem ticket_requested_exactly_witness:
  "\<exists>config. fst (fetchUmaConfig (example_server 201) ''as'' rs_example) = Inr config"
proof -
  have "\<forall>w. keeps ids_kept ((\<lambda>w :: wait. return ()) w)" by (auto intro!: keepsI simp: ids_kept_refl)
  from ticket_requested_exactly [OF this run_fst [OF rs_ticket_run]] show ?thesis by blast
qed

end
