(* ===== verification/RegistrationProgress.thy ===== *)
theory RegistrationProgress
  imports UmaClient "HOL-Library.Multiset"
begin

text \<open>
  \<open>UmaClient.registerResource\<close>: any number of calls run at once on the event loop, each in one of
  the stages between two awaits. The functions below are what a call does from one await to the
  next; the step relation runs the calls in any order, with any answer of the authorization
  server, so that what holds in its reachable states holds for every interleaving.
\<close>

subsection \<open>One call\<close>

text \<open>\<open>isContainerIdentifier\<close> and the identifier strategy of the server.\<close>

record site =
  is_container :: "string \<Rightarrow> bool"
  is_root :: "string \<Rightarrow> bool"
  parent_of :: "string \<Rightarrow> string"

text \<open>
  A call has not begun (\<open>Start\<close>), waits for the event of a path to begin again (\<open>Listening\<close>),
  waits for the configuration, for a PAT (with the address to send to and the identifier it found),
  or for the answer to its request; or it has ended.
\<close>

datatype stage =
    Start
  | Listening string
  | Configuring
  | Tokening string "string option"
  | Sending "string option"
  | Done
  | Failed

datatype task = Task (task_path: string) (task_stage: stage)

definition register_start :: "string \<Rightarrow> 'a rs_state \<Rightarrow> stage \<times> 'a rs_state" where
  "register_start path s =
     (if path \<in> inProgress s then (Listening path, s)
      else (Configuring, s\<lparr>inProgress := insert path (inProgress s)\<rparr>))"

definition register_configured :: "rs_library \<Rightarrow> string \<Rightarrow> string \<Rightarrow> 'a rs_state \<Rightarrow> stage" where
  "register_configured lib path endpoint s =
     (case known_id path s of None \<Rightarrow> Tokening endpoint None
      | Some i \<Rightarrow> Tokening (rs_joinUrl lib endpoint (encodeURIComponent i)) (Some i))"

definition contains_property :: string where "contains_property = ''http://www.w3.org/ns/ldp#contains''"

definition registered_scopes :: js where
  "registered_scopes = JArr (map (\<lambda>m. JStr (mode_term m)) [''read'', ''append'', ''create'', ''delete'', ''write''])"

definition description_body :: "site \<Rightarrow> string \<Rightarrow> string option \<Rightarrow> js" where
  "description_body site path parentId = JObj
     ([(''name'', JStr path), (''resource_scopes'', registered_scopes)]
      @ (if is_container site path then [(''resource_defaults'', JObj [(contains_property, registered_scopes)])] else [])
      @ (case parentId of None \<Rightarrow> []
         | Some i \<Rightarrow> [(''resource_relations'', JObj [(''@reverse'', JObj [(contains_property, JArr [JStr i])])])]))"

definition description_request :: "string \<Rightarrow> string option \<Rightarrow> string \<Rightarrow> js \<Rightarrow> request" where
  "description_request url known pat body =
     \<lparr>req_method = (if known = None then ''POST'' else ''PUT''), req_url = url, req_body = body,
      req_authorization = Some pat, req_content_type = Some ''application/json'', req_parameters = []\<rparr>"

definition parent_relation :: "site \<Rightarrow> string \<Rightarrow> 'a rs_state \<Rightarrow> string option" where
  "parent_relation site path s = (if is_root site path then None else known_id (parent_of site path) s)"

text \<open>
  Without an identifier of the parent the call listens for the end of the parent's registration,
  and begins it when nobody has.
\<close>

definition await_parent :: "site \<Rightarrow> string \<Rightarrow> 'a rs_state \<Rightarrow> task multiset \<times> 'a rs_state" where
  "await_parent site path s =
     (let parent = parent_of site path in
      if is_root site path \<or> known_id parent s \<noteq> None then ({#}, s)
      else if parent \<in> inProgress s then ({#Task path (Listening parent)#}, s)
      else ({#Task path (Listening parent), Task parent (fst (register_start parent s))#}, snd (register_start parent s)))"

definition register_response :: "string \<Rightarrow> string option \<Rightarrow> http_response \<Rightarrow> ('a rs_state, unit) act" where
  "register_response path known resp =
     bind (case known of
         Some i \<Rightarrow> if hr_status resp \<noteq> 200 then throw InternalServer else return ()
       | None \<Rightarrow>
           if hr_status resp \<noteq> 201 then throw InternalServer
           else bind (json_of resp) (\<lambda>v. case js_prop v ''_id'' of
               JStr umaId \<Rightarrow> modify (\<lambda>s. s\<lparr>umaIdStore := (umaIdStore s)(path \<mapsto> umaId)\<rparr>)
             | _ \<Rightarrow> throw InternalServer))
       (\<lambda>_. modify (\<lambda>s. s\<lparr>inProgress := inProgress s - {path}\<rparr>))"

subsection \<open>All calls\<close>

text \<open>
  The calls of all kinds, the state they share, and the requests sent so far. Emitting the event
  of a path lets the calls that listen for it begin again.
\<close>

record 'a pool =
  client :: "'a rs_state"
  tasks :: "task multiset"
  sent :: "(string \<times> request) list"

definition wake :: "string \<Rightarrow> task \<Rightarrow> task" where
  "wake event T = (if task_stage T = Listening event then Task (task_path T) Start else T)"

definition emit :: "string \<Rightarrow> task multiset \<Rightarrow> task multiset" where
  "emit event M = image_mset (wake event) M"

text \<open>
  \<open>other\<close> is everything else the client does between two steps: tickets, PATs, the clock.
\<close>

inductive registration_step :: "site \<Rightarrow> rs_library \<Rightarrow> 'a pool \<Rightarrow> 'a pool \<Rightarrow> bool" for site lib where
  call: "path \<noteq> PAT_EVENT \<Longrightarrow>
     registration_step site lib p (p\<lparr>tasks := add_mset (Task path Start) (tasks p)\<rparr>)"
| start: "tasks p = add_mset (Task path Start) M \<Longrightarrow> register_start path (client p) = (st, s) \<Longrightarrow>
     registration_step site lib p (p\<lparr>client := s, tasks := add_mset (Task path st) M\<rparr>)"
| configured: "tasks p = add_mset (Task path Configuring) M \<Longrightarrow>
     registration_step site lib p (p\<lparr>tasks := add_mset (Task path (register_configured lib path endpoint (client p))) M\<rparr>)"
| token: "tasks p = add_mset (Task path (Tokening url known)) M \<Longrightarrow> await_parent site path (client p) = (new, s) \<Longrightarrow>
     registration_step site lib p (p\<lparr>client := s, tasks := add_mset (Task path (Sending known)) (new + M),
       sent := sent p @ [(path, description_request url known pat
         (description_body site path (parent_relation site path (client p))))]\<rparr>)"
| response: "tasks p = add_mset (Task path (Sending known)) M \<Longrightarrow>
     register_response path known resp (client p) = (Inr (), s) \<Longrightarrow>
     registration_step site lib p (p\<lparr>client := s, tasks := add_mset (Task path Done) (emit path M)\<rparr>)"
| failure: "tasks p = add_mset (Task path st) M \<Longrightarrow>
     st = Configuring \<or> (\<exists>url known. st = Tokening url known) \<or> (\<exists>known. st = Sending known) \<Longrightarrow>
     registration_step site lib p (p\<lparr>tasks := add_mset (Task path Failed) M\<rparr>)"
| other: "umaIdStore s = umaIdStore (client p) \<Longrightarrow>
     inProgress s - {PAT_EVENT} = inProgress (client p) - {PAT_EVENT} \<Longrightarrow>
     registration_step site lib p (p\<lparr>client := s\<rparr>)"

subsection \<open>The invariant\<close>

text \<open>A call that holds the mark of its path: it has set it and has not given it back.\<close>

definition holding :: "stage \<Rightarrow> bool" where
  "holding st = (case st of Configuring \<Rightarrow> True | Tokening url known \<Rightarrow> True | Sending known \<Rightarrow> True | Failed \<Rightarrow> True | _ \<Rightarrow> False)"

definition holders :: "string \<Rightarrow> task multiset \<Rightarrow> nat" where
  "holders path M = size (filter_mset (\<lambda>T. task_path T = path \<and> holding (task_stage T)) M)"

lemma holding_simps [simp]:
  "\<not> holding Start" "\<not> holding (Listening e)" "holding Configuring" "holding (Tokening url known)"
  "holding (Sending known)" "\<not> holding Done" "holding Failed"
  by (simp_all add: holding_def)

lemma holders_simps [simp]:
  "holders path {#} = 0"
  "holders path (add_mset T M) = (if task_path T = path \<and> holding (task_stage T) then 1 else 0) + holders path M"
  "holders path (M + N) = holders path M + holders path N"
  by (simp_all add: holders_def)

lemma holders_emit [simp]: "holders path (emit e M) = holders path M"
  by (induction M) (auto simp: emit_def wake_def)

lemma holders_pos: "T \<in># M \<Longrightarrow> holding (task_stage T) \<Longrightarrow> 0 < holders (task_path T) M"
  by (induction M) auto

lemma holders_witness: "0 < holders path M \<Longrightarrow> \<exists>T \<in># M. task_path T = path \<and> holding (task_stage T)"
  by (induction M) (auto split: if_splits)

text \<open>The identifier a call has found is the one that is known.\<close>

definition found_id :: "stage \<Rightarrow> string option option" where
  "found_id st = (case st of Tokening url known \<Rightarrow> Some known | Sending known \<Rightarrow> Some known | _ \<Rightarrow> None)"

definition task_ok :: "'a rs_state \<Rightarrow> task \<Rightarrow> bool" where
  "task_ok s T \<longleftrightarrow> task_path T \<noteq> PAT_EVENT
     \<and> (\<forall>known. found_id (task_stage T) = Some known \<longrightarrow> known = known_id (task_path T) s)
     \<and> (\<forall>e. task_stage T = Listening e \<longrightarrow> e \<noteq> PAT_EVENT \<and> e \<in> inProgress s)
     \<and> (task_stage T = Done \<longrightarrow> umaIdStore s (task_path T) \<noteq> None)"

definition progress_ok :: "'a pool \<Rightarrow> bool" where
  "progress_ok p \<longleftrightarrow> (\<forall>T \<in># tasks p. task_ok (client p) T)
     \<and> (\<forall>path. path \<noteq> PAT_EVENT \<longrightarrow>
          holders path (tasks p) = (if path \<in> inProgress (client p) then 1 else 0))"

lemma found_id_simps [simp]:
  "found_id Start = None" "found_id (Listening e) = None" "found_id Configuring = None"
  "found_id (Tokening url known) = Some known" "found_id (Sending known) = Some known"
  "found_id Done = None" "found_id Failed = None"
  by (simp_all add: found_id_def)

definition site_ok :: "site \<Rightarrow> bool" where
  "site_ok site \<longleftrightarrow> (\<forall>path. parent_of site path \<noteq> PAT_EVENT)"

lemma register_response_run:
  "register_response path known resp s = (Inr u, t) \<Longrightarrow>
     inProgress t = inProgress s - {path}
     \<and> (if known = None then \<exists>i. umaIdStore t = (umaIdStore s)(path \<mapsto> i) else umaIdStore t = umaIdStore s)"
  by (cases known) (auto simp: register_response_def bind_eq_Inr json_of_run
      split: if_splits option.splits js.splits)

lemma known_id_upd: "path' \<noteq> path \<Longrightarrow> umaIdStore t = (umaIdStore s)(path \<mapsto> i) \<Longrightarrow> known_id path' t = known_id path' s"
  by (simp add: known_id_def)

lemma register_response_ids:
  assumes "register_response path known resp s = (Inr u, t)" and "known = known_id path s"
  shows "umaIdStore t path \<noteq> None \<and> (\<forall>path'. path' \<noteq> path \<longrightarrow> umaIdStore t path' = umaIdStore s path')
    \<and> ids_kept s t"
proof (cases known)
  case None
  with register_response_run [OF assms(1)] obtain i where i: "umaIdStore t = (umaIdStore s)(path \<mapsto> i)" by auto
  moreover have "known_id path s = None" using assms(2) None by simp
  ultimately show ?thesis unfolding ids_kept_def by (metis fun_upd_apply known_id_upd option.distinct(1))
next
  case (Some i)
  with register_response_run [OF assms(1)] have same: "umaIdStore t = umaIdStore s" by simp
  have "umaIdStore s path \<noteq> None" using assms(2) Some by (auto simp: known_id_def split: option.splits)
  with same ids_kept_same [OF same] show ?thesis by simp
qed

lemma task_ok_cong:
  assumes "task_ok s T" and "inProgress s - {PAT_EVENT} \<subseteq> inProgress t" and "umaIdStore t = umaIdStore s"
  shows "task_ok t T"
  using assms by (auto simp: task_ok_def known_id_def)

lemma task_ok_emit:
  assumes "task_ok s T" and "inProgress t = inProgress s - {path}"
    and "\<forall>path'. path' \<noteq> path \<longrightarrow> umaIdStore t path' = umaIdStore s path'" and "umaIdStore s path \<noteq> None \<longrightarrow> umaIdStore t path \<noteq> None"
    and "task_path T = path \<longrightarrow> \<not> holding (task_stage T)"
  shows "task_ok t (wake path T)"
  using assms by (cases T; cases "task_stage T") (auto simp: task_ok_def known_id_def wake_def)

lemma await_parent_cases:
  assumes "await_parent site path s = (new, t)"
  obtains (none) "new = {#}" "t = s" "is_root site path \<or> known_id (parent_of site path) s \<noteq> None"
  | (busy) "new = {#Task path (Listening (parent_of site path))#}" "t = s" "parent_of site path \<in> inProgress s"
      "\<not> is_root site path" "known_id (parent_of site path) s = None"
  | (begun) "new = {#Task path (Listening (parent_of site path)), Task (parent_of site path) Configuring#}"
      "parent_of site path \<notin> inProgress s" "t = s\<lparr>inProgress := insert (parent_of site path) (inProgress s)\<rparr>"
      "\<not> is_root site path" "known_id (parent_of site path) s = None"
proof (cases "is_root site path \<or> known_id (parent_of site path) s \<noteq> None")
  case True
  with assms show ?thesis by (intro none) (simp_all add: await_parent_def)
next
  case unknown: False
  show ?thesis
  proof (cases "parent_of site path \<in> inProgress s")
    case True
    with unknown assms show ?thesis by (intro busy) (simp_all add: await_parent_def)
  next
    case False
    with unknown assms show ?thesis by (intro begun) (simp_all add: await_parent_def register_start_def Let_def)
  qed
qed

lemma progress_start:
  assumes "progress_ok p" and "tasks p = add_mset (Task path Start) M"
    and "register_start path (client p) = (st, s)" and "client q = s" and "tasks q = add_mset (Task path st) M"
  shows "progress_ok q"
proof (cases "path \<in> inProgress (client p)")
  case True
  with assms show ?thesis by (auto simp: progress_ok_def register_start_def task_ok_def)
next
  case False
  with assms(3) have st: "st = Configuring" "s = (client p)\<lparr>inProgress := insert path (inProgress (client p))\<rparr>"
    by (auto simp: register_start_def)
  have ok: "task_ok s T" if "task_ok (client p) T" for T
    by (rule task_ok_cong [OF that]) (auto simp: st)
  from assms ok st False show ?thesis by (auto simp: progress_ok_def task_ok_def)
qed

lemma await_parent_progress:
  assumes "await_parent site path s = (new, t)" and "site_ok site" and "path \<noteq> PAT_EVENT"
  shows "inProgress s \<subseteq> inProgress t" and "umaIdStore t = umaIdStore s" and "\<forall>T \<in># new. task_ok t T"
    and "holders path' new = (if path' \<in> inProgress t \<and> path' \<notin> inProgress s then 1 else 0)"
proof -
  have parent: "parent_of site path \<noteq> PAT_EVENT" using assms(2) by (simp add: site_ok_def)
  from assms(1) have "inProgress s \<subseteq> inProgress t \<and> umaIdStore t = umaIdStore s \<and> (\<forall>T \<in># new. task_ok t T)
      \<and> holders path' new = (if path' \<in> inProgress t \<and> path' \<notin> inProgress s then 1 else 0)"
  proof (cases rule: await_parent_cases)
    case begun
    then show ?thesis using parent assms(3) by (auto simp: task_ok_def)
  qed (use parent assms(3) in \<open>simp_all add: task_ok_def\<close>)
  then show "inProgress s \<subseteq> inProgress t" and "umaIdStore t = umaIdStore s" and "\<forall>T \<in># new. task_ok t T"
    and "holders path' new = (if path' \<in> inProgress t \<and> path' \<notin> inProgress s then 1 else 0)"
    by blast+
qed

lemma progress_token:
  assumes "progress_ok p" and "site_ok site" and "tasks p = add_mset (Task path (Tokening url known)) M"
    and "await_parent site path (client p) = (new, s)"
    and "client q = s" and "tasks q = add_mset (Task path (Sending known)) (new + M)"
  shows "progress_ok q"
proof -
  have own: "task_ok (client p) (Task path (Tokening url known))" using assms(1,3) by (simp add: progress_ok_def)
  then have path: "path \<noteq> PAT_EVENT" by (simp add: task_ok_def)
  note new = await_parent_progress [OF assms(4,2) path]
  have ok: "task_ok s T" if "task_ok (client p) T" for T
    by (rule task_ok_cong [OF that]) (use new in auto)
  have "task_ok s (Task path (Sending known))" using ok [OF own] by (simp add: task_ok_def)
  moreover have "\<forall>T \<in># M. task_ok s T" using assms(1,3) ok by (simp add: progress_ok_def)
  moreover have "holders path' (tasks q) = (if path' \<in> inProgress s then 1 else 0)" if "path' \<noteq> PAT_EVENT" for path'
  proof -
    have "holders path' (tasks p) = (if path' \<in> inProgress (client p) then 1 else 0)"
      using assms(1) that by (simp add: progress_ok_def)
    with assms(3,6) new(1) new(4) [of path'] show ?thesis by (auto split: if_splits)
  qed
  ultimately show ?thesis using new(3) assms(5,6) by (auto simp: progress_ok_def)
qed

lemma progress_response:
  assumes "progress_ok p" and "tasks p = add_mset (Task path (Sending known)) M"
    and "register_response path known resp (client p) = (Inr u, s)"
    and "client q = s" and "tasks q = add_mset (Task path Done) (emit path M)"
  shows "progress_ok q"
proof -
  note run = register_response_run [OF assms(3)]
  have own: "task_ok (client p) (Task path (Sending known))" using assms(1,2) by (simp add: progress_ok_def)
  then have path: "path \<noteq> PAT_EVENT" and known: "known = known_id path (client p)" by (simp_all add: task_ok_def)
  note store = register_response_ids [OF assms(3) known]
  have count: "holders path' (tasks p) = (if path' \<in> inProgress (client p) then 1 else 0)" if "path' \<noteq> PAT_EVENT" for path'
    using assms(1) that by (simp add: progress_ok_def)
  from count [OF path] assms(2) have alone: "holders path M = 0" by (auto split: if_splits)
  have "task_ok s (wake path T)" if "T \<in># M" for T
  proof (rule task_ok_emit)
    show "task_ok (client p) T" using assms(1,2) that by (simp add: progress_ok_def)
    show "task_path T = path \<longrightarrow> \<not> holding (task_stage T)" using holders_pos [OF that] alone by auto
  qed (use run store in blast)+
  then have "\<forall>T \<in># emit path M. task_ok s T" by (auto simp: emit_def)
  moreover have "task_ok s (Task path Done)" using path store by (simp add: task_ok_def)
  moreover have "holders path' (tasks q) = (if path' \<in> inProgress s then 1 else 0)" if "path' \<noteq> PAT_EVENT" for path'
    using count [OF that] assms(2,5) run alone by (cases "path' = path") simp_all
  ultimately show ?thesis using assms(4,5) by (simp add: progress_ok_def)
qed

lemma progress_step:
  assumes "registration_step site lib p q" and "site_ok site" and "progress_ok p"
  shows "progress_ok q"
  using assms(1)
proof (cases rule: registration_step.cases)
  case (call path)
  with assms(3) show ?thesis by (auto simp: progress_ok_def task_ok_def)
next
  case (start path M st s)
  then show ?thesis by (intro progress_start [OF assms(3) start(2,3)]) simp_all
next
  case (configured path M endpoint)
  with assms(3) show ?thesis
    by (auto simp: progress_ok_def task_ok_def register_configured_def split: option.splits)
next
  case (token path url known M new s pat)
  then show ?thesis by (intro progress_token [OF assms(3,2) token(2,3)]) simp_all
next
  case (response path known M resp s)
  then show ?thesis by (intro progress_response [OF assms(3) response(2,3)]) simp_all
next
  case (failure path st M)
  with assms(3) show ?thesis by (auto simp: progress_ok_def task_ok_def)
next
  case (other s)
  have "path \<in> inProgress s \<longleftrightarrow> path \<in> inProgress (client p)" if "path \<noteq> PAT_EVENT" for path
    using other(3) that by blast
  with assms(3) other show ?thesis by (auto simp: progress_ok_def intro: task_ok_cong)
qed

lemma register_start_ids: "register_start path s = (st, t) \<Longrightarrow> umaIdStore t = umaIdStore s"
  by (auto simp: register_start_def split: if_splits)

lemma await_parent_ids: "await_parent site path s = (new, t) \<Longrightarrow> umaIdStore t = umaIdStore s"
  by (erule await_parent_cases) simp_all

lemma ids_step:
  assumes "registration_step site lib p q" and "progress_ok p"
  shows "ids_kept (client p) (client q)"
  using assms(1)
proof (cases rule: registration_step.cases)
  case (response path known M resp s)
  have "known = known_id path (client p)" using assms(2) response(2) by (simp add: progress_ok_def task_ok_def)
  with register_response_ids [OF response(3)] response(1) show ?thesis by simp
qed (auto intro: ids_kept_refl ids_kept_same dest: register_start_ids await_parent_ids)

text \<open>The client before its first call.\<close>

definition fresh_pool :: "'a pool \<Rightarrow> bool" where
  "fresh_pool p \<longleftrightarrow> tasks p = {#} \<and> sent p = [] \<and> inProgress (client p) \<subseteq> {PAT_EVENT}"

lemma progress_reachable:
  assumes "(registration_step site lib)\<^sup>*\<^sup>* p q" and "site_ok site" and "progress_ok p"
  shows "progress_ok q \<and> ids_kept (client p) (client q)"
  using assms(1)
proof (induction rule: rtranclp_induct)
  case base
  from assms(3) show ?case by (simp add: ids_kept_refl)
next
  case (step q r)
  from step(3) have q: "progress_ok q" "ids_kept (client p) (client q)" by blast+
  show ?case
    using progress_step [OF step(2) assms(2) q(1)] ids_kept_trans [OF q(2) ids_step [OF step(2) q(1)]] by blast
qed

lemma fresh_progress: "fresh_pool p \<Longrightarrow> progress_ok p"
  by (auto simp: fresh_pool_def progress_ok_def)

definition sending_for :: "string \<Rightarrow> task \<Rightarrow> bool" where
  "sending_for path T \<longleftrightarrow> task_path T = path \<and> (\<exists>known. task_stage T = Sending known)"

text \<open>
  C5: however many calls of \<open>registerResource\<close> run at once, in whatever order they proceed and whatever
  the authorization server answers, at most one registration request per resource is unanswered;
  a request that creates a registration is only under way for a resource without one; and the
  identifier a resource has once received is never replaced.
\<close>

theorem registration_exclusive:
  assumes "fresh_pool p0" and "site_ok site" and "(registration_step site lib)\<^sup>*\<^sup>* p0 p" and "path \<noteq> PAT_EVENT"
  shows "size (filter_mset (sending_for path) (tasks p)) \<le> 1
    \<and> (Task path (Sending None) \<in># tasks p \<longrightarrow> known_id path (client p) = None)
    \<and> (\<forall>q i. (registration_step site lib)\<^sup>*\<^sup>* p q \<and> known_id path (client p) = Some i
         \<longrightarrow> known_id path (client q) = Some i)"
proof -
  have ok: "progress_ok p" using progress_reachable [OF assms(3,2) fresh_progress [OF assms(1)]] by simp
  have "size (filter_mset (sending_for path) (tasks p)) \<le> holders path (tasks p)"
    unfolding holders_def by (rule size_mset_mono, rule filter_mset_mono_strong) (auto simp: sending_for_def)
  also have "\<dots> \<le> 1" using ok assms(4) by (simp add: progress_ok_def)
  finally have one: "size (filter_mset (sending_for path) (tasks p)) \<le> 1" .
  have "known_id path (client p) = None" if "Task path (Sending None) \<in># tasks p"
    using ok that by (fastforce simp: progress_ok_def task_ok_def)
  moreover have "known_id path (client q) = Some i"
    if "(registration_step site lib)\<^sup>*\<^sup>* p q" "known_id path (client p) = Some i" for q i
    using progress_reachable [OF that(1) assms(2) ok] that(2) by (simp add: ids_kept_def)
  ultimately show ?thesis using one by blast
qed

subsection \<open>Failures\<close>

definition sent_for :: "string \<Rightarrow> 'a pool \<Rightarrow> (string \<times> request) list" where
  "sent_for path p = filter (\<lambda>r. fst r = path) (sent p)"

lemma failed_alone:
  assumes "progress_ok p" and "tasks p = add_mset (Task path st) M" and "holding st" and "Task path Failed \<in># tasks p"
  shows "st = Failed"
proof (rule ccontr)
  assume "st \<noteq> Failed"
  with assms(2,4) have "Task path Failed \<in># M" by auto
  from holders_pos [OF this] have "0 < holders path M" by simp
  moreover have "path \<noteq> PAT_EVENT" using assms(1,2) by (simp add: progress_ok_def task_ok_def)
  with assms(1) have "holders path (tasks p) \<le> 1" by (simp add: progress_ok_def)
  ultimately show False using assms(2,3) by simp
qed

lemma failed_step:
  assumes "registration_step site lib p q" and "progress_ok p" and "Task path Failed \<in># tasks p"
  shows "Task path Failed \<in># tasks q \<and> umaIdStore (client q) path = umaIdStore (client p) path
    \<and> sent_for path q = sent_for path p"
  using assms(1)
proof (cases rule: registration_step.cases)
  case (start path' M st s)
  with assms(3) register_start_ids [OF start(3)] show ?thesis by (auto simp: sent_for_def)
next
  case (token path' url known M new s pat)
  have "path' \<noteq> path" using failed_alone [OF assms(2) token(2)] assms(3) by auto
  with token(1,2) assms(3) await_parent_ids [OF token(3)] show ?thesis by (auto simp: sent_for_def)
next
  case (response path' known M resp s)
  have "known = known_id path' (client p)" using assms(2) response(2) by (simp add: progress_ok_def task_ok_def)
  note ids = register_response_ids [OF response(3) this]
  have other: "path' \<noteq> path" using failed_alone [OF assms(2) response(2)] assms(3) by auto
  with assms(3) response(2) have "Task path Failed \<in># M" by auto
  then have "Task path Failed \<in># emit path' M" by (force simp: emit_def wake_def)
  with ids other show ?thesis unfolding response(1) by (simp add: sent_for_def)
qed (use assms(3) in \<open>auto simp: sent_for_def\<close>)

text \<open>
  a registration that fails blocks its resource until the server restarts: the mark in
  \<open>inProgress\<close> is only taken back after a success, so that every later call for the resource
  waits for an event that no call emits; no request is ever sent for the resource again and its
  identifier stays as it was.
\<close>

theorem failed_registration_blocks:
  assumes "fresh_pool p0" and "site_ok site" and "(registration_step site lib)\<^sup>*\<^sup>* p0 p"
    and "Task path Failed \<in># tasks p" and "(registration_step site lib)\<^sup>*\<^sup>* p q"
  shows "path \<in> inProgress (client q) \<and> umaIdStore (client q) path = umaIdStore (client p) path
    \<and> sent_for path q = sent_for path p"
proof -
  have ok: "progress_ok p" using progress_reachable [OF assms(3,2) fresh_progress [OF assms(1)]] by simp
  from assms(5) have "progress_ok q \<and> Task path Failed \<in># tasks q \<and> umaIdStore (client q) path = umaIdStore (client p) path
    \<and> sent_for path q = sent_for path p"
  proof (induction rule: rtranclp_induct)
    case base
    from ok assms(4) show ?case by simp
  next
    case (step q r)
    then have q: "progress_ok q" "Task path Failed \<in># tasks q" by blast+
    from failed_step [OF step(2) q] progress_step [OF step(2) assms(2) q(1)] step(3) show ?case by simp
  qed
  then have q: "progress_ok q" "Task path Failed \<in># tasks q" "umaIdStore (client q) path = umaIdStore (client p) path"
    "sent_for path q = sent_for path p" by blast+
  have "0 < holders path (tasks q)" using holders_pos [OF q(2)] by simp
  moreover have "path \<noteq> PAT_EVENT" using q(1,2) by (fastforce simp: progress_ok_def task_ok_def)
  ultimately have "path \<in> inProgress (client q)" using q(1) by (auto simp: progress_ok_def split: if_splits)
  with q show ?thesis by blast
qed

subsection \<open>Completion\<close>

text \<open>A call that will still look up the parent, or that has failed.\<close>

definition looking :: "stage \<Rightarrow> bool" where
  "looking st = (case st of Done \<Rightarrow> False | Sending known \<Rightarrow> False | _ \<Rightarrow> True)"

lemma looking_simps [simp]:
  "looking Start" "looking (Listening e)" "looking Configuring" "looking (Tokening url known)"
  "\<not> looking (Sending known)" "\<not> looking Done" "looking Failed"
  by (simp_all add: looking_def)

definition has_looking :: "string \<Rightarrow> task multiset \<Rightarrow> bool" where
  "has_looking path M \<longleftrightarrow> (\<exists>T \<in># M. task_path T = path \<and> looking (task_stage T))"

lemma has_looking_simps [simp]:
  "\<not> has_looking path {#}"
  "has_looking path (add_mset T M) \<longleftrightarrow> task_path T = path \<and> looking (task_stage T) \<or> has_looking path M"
  "has_looking path (M + N) \<longleftrightarrow> has_looking path M \<or> has_looking path N"
  by (auto simp: has_looking_def)

lemma has_looking_emit [simp]: "has_looking path (emit e M) = has_looking path M"
  by (induction M) (auto simp: emit_def wake_def)

text \<open>The registration of a path has been sent with its relation to the parent, if it has one.\<close>

definition related :: "site \<Rightarrow> string \<Rightarrow> 'a pool \<Rightarrow> bool" where
  "related site path p \<longleftrightarrow> (\<exists>req. (path, req) \<in> set (sent p) \<and> (is_root site path
     \<or> (\<exists>i. known_id (parent_of site path) (client p) = Some i \<and> req_body req = description_body site path (Some i))))"

definition relations_ok :: "site \<Rightarrow> 'a pool \<Rightarrow> bool" where
  "relations_ok site p \<longleftrightarrow>
     (\<forall>T \<in># tasks p. related site (task_path T) p \<or> has_looking (task_path T) (tasks p))"

lemma related_step:
  assumes "registration_step site lib p q" and "progress_ok p" and "related site path p"
  shows "related site path q"
proof -
  have "set (sent p) \<subseteq> set (sent q)" using assms(1) by cases auto
  with assms(3) ids_step [OF assms(1,2)] show ?thesis
    unfolding related_def ids_kept_def by blast
qed

lemma relations_transfer:
  assumes "registration_step site lib p q" and "progress_ok p" and "relations_ok site p"
    and "\<And>path. has_looking path (tasks p) \<Longrightarrow> related site path q \<or> has_looking path (tasks q)"
    and "\<And>T. T \<in># tasks q \<Longrightarrow> looking (task_stage T) \<or> (\<exists>T' \<in># tasks p. task_path T' = task_path T)"
  shows "relations_ok site q"
proof -
  have "related site (task_path T) q \<or> has_looking (task_path T) (tasks q)" if T: "T \<in># tasks q" for T
    using assms(5) [OF T]
  proof
    assume "looking (task_stage T)"
    with T show ?thesis by (auto simp: has_looking_def)
  next
    assume "\<exists>T' \<in># tasks p. task_path T' = task_path T"
    with assms(3) have "related site (task_path T) p \<or> has_looking (task_path T) (tasks p)"
      unfolding relations_ok_def by metis
    with assms(4) related_step [OF assms(1,2)] show ?thesis by blast
  qed
  then show ?thesis by (simp add: relations_ok_def)
qed

lemma token_related:
  assumes "await_parent site path (client p) = (new, s)" and "client q = s"
    and "sent q = sent p @ [(path, description_request url known pat
       (description_body site path (parent_relation site path (client p))))]"
  shows "related site path q \<or> has_looking path new"
  using assms(1)
proof (cases rule: await_parent_cases)
  case none
  let ?req = "description_request url known pat (description_body site path (parent_relation site path (client p)))"
  have "is_root site path \<or> (\<exists>i. known_id (parent_of site path) (client q) = Some i
      \<and> req_body ?req = description_body site path (Some i))"
    using none assms(2) by (cases "is_root site path") (auto simp: description_request_def parent_relation_def)
  moreover have "(path, ?req) \<in> set (sent q)" using assms(3) by simp
  ultimately show ?thesis unfolding related_def by blast
qed simp_all

lemma looking_step:
  assumes "registration_step site lib p q" and "has_looking path (tasks p)"
  shows "related site path q \<or> has_looking path (tasks q)"
  using assms(1)
proof (cases rule: registration_step.cases)
  case (start path' M st s)
  then have "looking st" by (auto simp: register_start_def split: if_splits)
  with start assms(2) show ?thesis by auto
next
  case (configured path' M endpoint)
  with assms(2) show ?thesis by (auto simp: register_configured_def split: option.splits)
next
  case (token path' url known M new s pat)
  have "related site path' q \<or> has_looking path' new"
    by (rule token_related [OF token(3)]) (simp_all add: token(1))
  with token(1,2) assms(2) show ?thesis by auto
next
  case (failure path' st M)
  with assms(2) show ?thesis by auto
qed (use assms(2) in auto)

lemma paths_step:
  assumes "registration_step site lib p q" and "T \<in># tasks q"
  shows "looking (task_stage T) \<or> (\<exists>T' \<in># tasks p. task_path T' = task_path T)"
  using assms(1)
proof (cases rule: registration_step.cases)
  case (token path' url known M new s pat)
  have "looking (task_stage T)" if "T \<in># new"
    using token(3) that by (cases rule: await_parent_cases) auto
  with token assms(2) show ?thesis by auto
next
  case (response path' known M resp s)
  with assms(2) show ?thesis by (auto simp: emit_def wake_def split: if_splits)
qed (use assms(2) in auto)

lemma relations_step:
  assumes "registration_step site lib p q" and "progress_ok p" and "relations_ok site p"
  shows "relations_ok site q"
  by (rule relations_transfer [OF assms]) (fact looking_step [OF assms(1)] paths_step [OF assms(1)])+

lemma relations_reachable:
  assumes "(registration_step site lib)\<^sup>*\<^sup>* p q" and "site_ok site" and "progress_ok p" and "relations_ok site p"
  shows "relations_ok site q"
  using assms(1)
proof (induction rule: rtranclp_induct)
  case (step q r)
  have "progress_ok q" using progress_reachable [OF step(1) assms(2,3)] by simp
  with relations_step [OF step(2)] step(3) show ?case by blast
qed (use assms(4) in simp)

text \<open>No call can go on: each has ended or waits for the end of another one.\<close>

definition quiescent :: "'a pool \<Rightarrow> bool" where
  "quiescent p \<longleftrightarrow> (\<forall>T \<in># tasks p. task_stage T = Done \<or> task_stage T = Failed \<or> (\<exists>e. task_stage T = Listening e))"

text \<open>
  C7: no call is forgotten: when no call can go on and none has failed, every call has ended, and
  every resource that was registered has an identifier and was sent, unless it is a root, with the
  relation to the identifier its parent has. No wake-up is lost in any interleaving.
\<close>

theorem registrations_complete:
  assumes "fresh_pool p0" and "site_ok site" and "(registration_step site lib)\<^sup>*\<^sup>* p0 p"
    and "quiescent p" and "\<forall>T \<in># tasks p. task_stage T \<noteq> Failed" and "T \<in># tasks p"
  shows "task_stage T = Done \<and> umaIdStore (client p) (task_path T) \<noteq> None
    \<and> (\<exists>req. (task_path T, req) \<in> set (sent p) \<and> (is_root site (task_path T)
         \<or> (\<exists>i. known_id (parent_of site (task_path T)) (client p) = Some i
              \<and> req_body req = description_body site (task_path T) (Some i))))"
proof -
  have ok: "progress_ok p" using progress_reachable [OF assms(3,2) fresh_progress [OF assms(1)]] by simp
  have ended: "task_stage T = Done" if "T \<in># tasks p" for T
  proof (rule ccontr)
    assume "task_stage T \<noteq> Done"
    with assms(4,5) that obtain e where e: "task_stage T = Listening e" unfolding quiescent_def by blast
    with ok that have "e \<noteq> PAT_EVENT" "e \<in> inProgress (client p)" by (auto simp: progress_ok_def task_ok_def)
    with ok have "0 < holders e (tasks p)" by (simp add: progress_ok_def)
    then obtain U where "U \<in># tasks p" "holding (task_stage U)" using holders_witness by blast
    with assms(4,5) show False unfolding quiescent_def by fastforce
  qed
  have "relations_ok site p"
    by (rule relations_reachable [OF assms(3,2) fresh_progress [OF assms(1)]])
      (use assms(1) in \<open>simp add: fresh_pool_def relations_ok_def\<close>)
  moreover have "\<not> has_looking path (tasks p)" for path
    using ended by (fastforce simp: has_looking_def)
  ultimately have "related site (task_path T) p" using assms(6) by (simp add: relations_ok_def)
  moreover have "umaIdStore (client p) (task_path T) \<noteq> None"
    using ok assms(6) ended by (simp add: progress_ok_def task_ok_def)
  ultimately show ?thesis using ended [OF assms(6)] unfolding related_def by blast
qed

subsection \<open>Deregistration and registration\<close>

text \<open>
  a resource that was deleted cannot be registered again: \<open>deleteResource\<close> leaves the identifier in
  the store, so that a later registration is sent as an update to the address of the registration
  that was removed; any answer but 200, such as the 404 for an unknown registration, makes it fail.
  The same happens when the account moves to another authorization server, where the identifier
  was never registered.
\<close>

theorem deleted_identifier_reused:
  assumes "deleteResource lib fetch path issuer credentials s = (Inr x, t)"
  shows "\<exists>i. known_id path t = Some i
    \<and> register_configured lib path endpoint t = Tokening (rs_joinUrl lib endpoint (encodeURIComponent i)) (Some i)
    \<and> (\<forall>u resp. hr_status resp \<noteq> 200 \<longrightarrow> register_response path (Some i) resp u = (Inl InternalServer, u))
    \<and> req_method (description_request url (Some i) pat body) = ''PUT''"
proof -
  from assms obtain config u i where config: "fetchUmaConfig fetch issuer s = (Inr config, u)"
    and i: "known_id path u = Some i"
    and rest: "await (getPat lib fetch issuer credentials) (\<lambda>pat.
         bind (web_fetch fetch (http_delete
             (rs_joinUrl lib (uc_resource_registration_endpoint config) (encodeURIComponent i)) pat)) (\<lambda>_.
         return (Settled ()))) u = (Inr x, t)"
    by (auto simp: deleteResource_def bind_eq_Inr split: option.splits)
  from rest obtain p v where pat: "getPat lib fetch issuer credentials u = (Inr p, v)"
    and last: "(case p of Settled pat \<Rightarrow> bind (web_fetch fetch (http_delete
             (rs_joinUrl lib (uc_resource_registration_endpoint config) (encodeURIComponent i)) pat)) (\<lambda>_.
         return (Settled ())) | Awaits e \<Rightarrow> return (Awaits e)) v = (Inr x, t)"
    by (auto simp: await_def bind_eq_Inr)
  have "umaIdStore v = umaIdStore u" using pat by (cases rule: getPat_run) auto
  moreover have "umaIdStore t = umaIdStore v"
    using last by (cases p) (auto simp: bind_eq_Inr dest: web_fetch_run)
  ultimately have "known_id path t = Some i" using i by (simp add: known_id_def)
  then show ?thesis
    by (simp add: register_configured_def register_response_def description_request_def)
qed

subsection \<open>Examples\<close>

definition example_site :: site where
  "example_site = \<lparr>is_container = (\<lambda>path. path = ''/''), is_root = (\<lambda>path. path = ''/''), parent_of = (\<lambda>_. ''/'')\<rparr>"

definition example_pool :: "unit pool" where
  "example_pool = \<lparr>client = rs_example, tasks = {#}, sent = []\<rparr>"

lemma example_pool_ok: "fresh_pool example_pool" "site_ok example_site"
  by (simp_all add: fresh_pool_def example_pool_def rs_example_def site_ok_def example_site_def PAT_EVENT_def)

definition marked :: "unit rs_state" where
  "marked = rs_example\<lparr>inProgress := {''/''}\<rparr>"

lemma example_begins:
  "(registration_step example_site lib)\<^sup>*\<^sup>* example_pool (example_pool\<lparr>client := marked, tasks := {#Task ''/'' Configuring#}\<rparr>)"
proof -
  let ?q = "example_pool\<lparr>tasks := add_mset (Task ''/'' Start) (tasks example_pool)\<rparr>"
  have called: "registration_step example_site lib example_pool ?q"
    by (rule call) (simp add: PAT_EVENT_def)
  have "registration_step example_site lib ?q (?q\<lparr>client := marked, tasks := {#Task ''/'' Configuring#}\<rparr>)"
    by (rule start) (simp_all add: example_pool_def register_start_def marked_def rs_example_def)
  then show ?thesis
    using rtranclp.rtrancl_into_rtrancl [OF r_into_rtranclp [of "registration_step example_site lib", OF called]] by simp
qed

definition example_sent :: "(string \<times> request) list" where
  "example_sent = [(''/'', description_request ''resources/'' None ''Bearer pat'' (description_body example_site ''/'' None))]"

lemma example_sends:
  "(registration_step example_site lib)\<^sup>*\<^sup>* example_pool
     (example_pool\<lparr>client := marked, tasks := {#Task ''/'' (Sending None)#}, sent := example_sent\<rparr>)"
proof -
  let ?p = "example_pool\<lparr>client := marked, tasks := {#Task ''/'' Configuring#}\<rparr>"
  have unknown: "register_configured lib ''/'' ''resources/'' marked = Tokening ''resources/'' None"
    by (simp add: register_configured_def known_id_def marked_def rs_example_def)
  have "registration_step example_site lib ?p
      (?p\<lparr>tasks := add_mset (Task ''/'' (register_configured lib ''/'' ''resources/'' (client ?p))) {#}\<rparr>)"
    by (rule configured) simp
  then have "registration_step example_site lib ?p (?p\<lparr>tasks := {#Task ''/'' (Tokening ''resources/'' None)#}\<rparr>)"
    by (simp add: unknown)
  moreover have "registration_step example_site lib (?p\<lparr>tasks := {#Task ''/'' (Tokening ''resources/'' None)#}\<rparr>)
      (?p\<lparr>tasks := {#Task ''/'' (Tokening ''resources/'' None)#}, client := marked,
        tasks := add_mset (Task ''/'' (Sending None)) ({#} + {#}),
        sent := sent example_pool @ [(''/'', description_request ''resources/'' None ''Bearer pat''
           (description_body example_site ''/'' (parent_relation example_site ''/'' marked)))]\<rparr>)"
    using token [of "?p\<lparr>tasks := {#Task ''/'' (Tokening ''resources/'' None)#}\<rparr>" "''/''" "''resources/''" None "{#}"
        example_site "{#}" marked lib "''Bearer pat''"]
    by (simp add: await_parent_def example_site_def)
  ultimately show ?thesis
    using example_begins [of lib] by (simp add: example_sent_def example_pool_def parent_relation_def example_site_def)
qed

lemma example_ends:
  "(registration_step example_site lib)\<^sup>*\<^sup>* example_pool
     (example_pool\<lparr>client := marked\<lparr>umaIdStore := (umaIdStore marked)(''/'' \<mapsto> ''id2''), inProgress := {}\<rparr>,
        tasks := {#Task ''/'' Done#}, sent := example_sent\<rparr>)"
proof -
  let ?p = "example_pool\<lparr>client := marked, tasks := {#Task ''/'' (Sending None)#}, sent := example_sent\<rparr>"
  let ?resp = "\<lparr>hr_status = 201, hr_json = Some (JObj [(''_id'', JStr ''id2'')])\<rparr>"
  have answer: "register_response ''/'' None ?resp marked
      = (Inr (), marked\<lparr>umaIdStore := (umaIdStore marked)(''/'' \<mapsto> ''id2''), inProgress := {}\<rparr>)"
    by (simp add: register_response_def json_of_def bind_def marked_def return_run)
  have "registration_step example_site lib ?p
     (?p\<lparr>client := marked\<lparr>umaIdStore := (umaIdStore marked)(''/'' \<mapsto> ''id2''), inProgress := {}\<rparr>,
        tasks := add_mset (Task ''/'' Done) (emit ''/'' {#})\<rparr>)"
    by (rule response [where known = None and resp = ?resp]) (simp_all add: answer)
  with example_sends [of lib] show ?thesis by (simp add: emit_def example_pool_def)
qed

theorem registration_exclusive_witness:
  "\<exists>p :: unit pool. Task ''/'' (Sending None) \<in># tasks p \<and> known_id ''/'' (client p) = None
     \<and> size (filter_mset (sending_for ''/'') (tasks p)) \<le> 1"
proof -
  have "''/'' \<noteq> PAT_EVENT" by (simp add: PAT_EVENT_def)
  from registration_exclusive [OF example_pool_ok example_sends [of example_rs_library] this] show ?thesis
    by (intro exI [where x = "example_pool\<lparr>client := marked, tasks := {#Task ''/'' (Sending None)#}, sent := example_sent\<rparr>"]) simp
qed

theorem registrations_complete_witness:
  "\<exists>p req. (registration_step example_site example_rs_library)\<^sup>*\<^sup>* example_pool p \<and> (''/'', req) \<in> set (sent p)"
proof -
  let ?p = "example_pool\<lparr>client := marked\<lparr>umaIdStore := (umaIdStore marked)(''/'' \<mapsto> ''id2''), inProgress := {}\<rparr>,
        tasks := {#Task ''/'' Done#}, sent := example_sent\<rparr>"
  have "quiescent ?p" "\<forall>T \<in># tasks ?p. task_stage T \<noteq> Failed" "Task ''/'' Done \<in># tasks ?p"
    by (simp_all add: quiescent_def)
  from registrations_complete [OF example_pool_ok example_ends [of example_rs_library] this] example_ends
  show ?thesis by (metis task.sel(1))
qed

theorem failed_registration_blocks_witness:
  "\<exists>p :: unit pool. Task ''/'' Failed \<in># tasks p \<and> ''/'' \<in> inProgress (client p)"
proof -
  let ?p = "example_pool\<lparr>client := marked, tasks := {#Task ''/'' Configuring#}\<rparr>"
  have "registration_step example_site example_rs_library ?p (?p\<lparr>tasks := add_mset (Task ''/'' Failed) {#}\<rparr>)"
    by (rule failure [where st = Configuring]) simp_all
  with example_begins have run: "(registration_step example_site example_rs_library)\<^sup>*\<^sup>* example_pool
      (?p\<lparr>tasks := {#Task ''/'' Failed#}\<rparr>)" by (rule rtranclp.rtrancl_into_rtrancl)
  have failed: "Task ''/'' Failed \<in># tasks (?p\<lparr>tasks := {#Task ''/'' Failed#}\<rparr>)" by simp
  from failed_registration_blocks [OF example_pool_ok run failed rtranclp.rtrancl_refl] failed show ?thesis by blast
qed

lemma example_deletion: "fst (deleteResource example_rs_library (example_server 201) ''/a'' ''as'' ''Basic a'' rs_example)
    = Inr (Settled ())"
  by code_simp

theorem deleted_identifier_reused_witness:
  "\<exists>i. known_id ''/a'' (snd (deleteResource example_rs_library (example_server 201) ''/a'' ''as'' ''Basic a'' rs_example)) = Some i"
  using deleted_identifier_reused [OF run_fst [OF example_deletion]] by blast

end
