(* ===== verification/ResourceServer.thy ===== *)
theory ResourceServer
  imports UmaClient RegistrationProgress
begin

text \<open>
  The resource server (\<open>packages/css/src/\<close>): from the modes an operation requires to the ticket or
  the decision of the authorizer, and from the access token of a request to the modes it grants.
  The stores of the community server behind the accounts and pods, its identifier and auxiliary
  strategies and the other authorizers are arguments; the client is the theory UmaClient.
\<close>

subsection \<open>Required modes\<close>

text \<open>
  An access map: the modes per path, both in the order they were added (\<open>IdentifierSetMultiMap\<close>).
\<close>

type_synonym access_map = "string list obj"

definition set_add :: "'x \<Rightarrow> 'x list \<Rightarrow> 'x list" where
  "set_add x xs = (if x \<in> set xs then xs else xs @ [x])"

definition amap_add :: "string \<Rightarrow> string list \<Rightarrow> access_map \<Rightarrow> access_map" where
  "amap_add path modes m =
     obj_set path (fold set_add modes (case obj_get m path of None \<Rightarrow> [] | Some old \<Rightarrow> old)) m"

text \<open>
  \<open>ParentCreateExtractor.ts\<close>; the search ends at a resource that exists or at a root, and
  \<open>None\<close> is a search that does not end.
\<close>

partial_function (option) findFirstExistingParent ::
  "site \<Rightarrow> (string \<Rightarrow> bool) \<Rightarrow> string \<Rightarrow> (error + string) option" where
  "findFirstExistingParent site exists path =
     (if exists path then Some (Inr path)
      else if is_root site path then Some (Inl InternalServer)
      else findFirstExistingParent site exists (parent_of site path))"

fun parent_create :: "string \<Rightarrow> site \<Rightarrow> (string \<Rightarrow> bool) \<Rightarrow> access_map \<Rightarrow> access_map \<Rightarrow> (error + access_map) option" where
  "parent_create pe site exists updated [] = Some (Inr updated)"
| "parent_create pe site exists updated ((path, modes) # entries) =
     (if policy_mode pe ''Create'' \<in> set modes
      then (case findFirstExistingParent site exists path of
          None \<Rightarrow> None
        | Some (Inl e) \<Rightarrow> Some (Inl e)
        | Some (Inr parent) \<Rightarrow>
            parent_create pe site exists (amap_add parent [policy_mode pe ''Create''] updated) entries)
      else parent_create pe site exists (amap_add path modes updated) entries)"

definition ParentCreateExtractor :: "string \<Rightarrow> site \<Rightarrow> (string \<Rightarrow> bool) \<Rightarrow> access_map \<Rightarrow> (error + access_map) option" where
  "ParentCreateExtractor pe site exists result = parent_create pe site exists [] result"

text \<open>\<open>AuxiliaryModesExtractor.ts\<close>\<close>

record auxiliary_strategy =
  isAuxiliaryIdentifier :: "string \<Rightarrow> bool"
  usesOwnAuthorization :: "string \<Rightarrow> bool"
  getSubjectIdentifier :: "string \<Rightarrow> string"

definition auxiliary_step :: "auxiliary_strategy \<Rightarrow> string \<Rightarrow> access_map \<Rightarrow> access_map" where
  "auxiliary_step aux key result =
     (if isAuxiliaryIdentifier aux key \<and> \<not> usesOwnAuthorization aux key
      then (case obj_get result key of
          None \<Rightarrow> result
        | Some modes \<Rightarrow> obj_delete key (obj_set (getSubjectIdentifier aux key) modes result))
      else result)"

definition AuxiliaryModesExtractor :: "auxiliary_strategy \<Rightarrow> access_map \<Rightarrow> access_map" where
  "AuxiliaryModesExtractor aux result = fold (auxiliary_step aux) (obj_keys result) result"

subsection \<open>Owners\<close>

text \<open>\<open>util/OwnerUtil.ts\<close> over the pod, account and location stores.\<close>

record css_stores =
  storage_of :: "string \<Rightarrow> error + string"
  pod_at :: "string \<Rightarrow> string option"
  pod_owners :: "string \<Rightarrow> string list option"
  accounts_of :: "string \<Rightarrow> string list"
  authz_server :: "string \<Rightarrow> string option"
  as_token :: "string \<Rightarrow> string option"

definition findOwners :: "css_stores \<Rightarrow> string \<Rightarrow> error + string list" where
  "findOwners css path =
     (case storage_of css path of Inl e \<Rightarrow> Inl e
      | Inr storage \<Rightarrow>
         (case pod_at css storage of None \<Rightarrow> Inl InternalServer
          | Some pod \<Rightarrow> (case pod_owners css pod of None \<Rightarrow> Inl InternalServer | Some owners \<Rightarrow> Inr owners)))"

fun owner_map :: "css_stores \<Rightarrow> access_map \<Rightarrow> string list \<Rightarrow> error + access_map" where
  "owner_map css m [] = Inr m"
| "owner_map css m (path # paths) =
     (case findOwners css path of Inl e \<Rightarrow> Inl e
      | Inr owners \<Rightarrow> owner_map css (fold (\<lambda>owner. amap_add owner [path]) owners m) paths)"

definition findCommonOwner :: "css_stores \<Rightarrow> string list \<Rightarrow> error + string" where
  "findCommonOwner css resources =
     (let resourceSet = remdups resources in
      case owner_map css [] resourceSet of Inl e \<Rightarrow> Inl e
      | Inr ownerMap \<Rightarrow>
         (case map fst (filter (\<lambda>(owner, targets). length targets = length resourceSet) ownerMap) of
            [owner] \<Rightarrow> Inr owner
          | _ \<Rightarrow> Inl InternalServer))"

definition findUmaSettings :: "css_stores \<Rightarrow> string \<Rightarrow> error + (string option \<times> string option)" where
  "findUmaSettings css webId =
     (case accounts_of css webId of
        [account] \<Rightarrow> Inr (authz_server css account, as_token css account)
      | _ \<Rightarrow> Inl InternalServer)"

subsection \<open>Access tokens of requests\<close>

text \<open>
  \<open>authentication/UmaTokenExtractor.ts\<close>. With introspection the first answer that succeeds
  counts, in the order of the issuers.
\<close>

fun valid_issuers :: "css_stores \<Rightarrow> string list \<Rightarrow> error + string list" where
  "valid_issuers css [] = Inr []"
| "valid_issuers css (owner # owners) =
     (case findUmaSettings css owner of Inl e \<Rightarrow> Inl e
      | Inr (issuer, _) \<Rightarrow> (case valid_issuers css owners of Inl e \<Rightarrow> Inl e
          | Inr rest \<Rightarrow> Inr ((case issuer of None \<Rightarrow> [] | Some i \<Rightarrow> [i]) @ rest)))"

fun introspect_all :: "rs_library \<Rightarrow> 'a fetcher \<Rightarrow> string \<Rightarrow> string list \<Rightarrow> ('a rs_state, js list) act" where
  "introspect_all lib fetch tok [] = return []"
| "introspect_all lib fetch tok (issuer # issuers) =
     bind (catch (bind (verifyOpaqueToken lib fetch tok issuer) (\<lambda>claims. return [claims])) (\<lambda>_. return [])) (\<lambda>first.
     bind (introspect_all lib fetch tok issuers) (\<lambda>rest. return (first @ rest)))"

definition token_of_target ::
  "css_stores \<Rightarrow> rs_library \<Rightarrow> 'a fetcher \<Rightarrow> bool \<Rightarrow> string \<Rightarrow> string \<Rightarrow> ('a rs_state, js) act" where
  "token_of_target css lib fetch introspect target tok =
     bind (lift (findOwners css target)) (\<lambda>owners.
     bind (lift (valid_issuers css owners)) (\<lambda>validIssuers.
     if introspect
     then bind (introspect_all lib fetch tok validIssuers) (\<lambda>succeeded.
       case succeeded of [] \<Rightarrow> throw BadRequest | claims # _ \<Rightarrow> return claims)
     else verifyJwtToken lib fetch tok validIssuers))"

definition UmaTokenExtractor ::
  "css_stores \<Rightarrow> rs_library \<Rightarrow> 'a fetcher \<Rightarrow> bool \<Rightarrow> (request \<Rightarrow> error + string) \<Rightarrow> request \<Rightarrow> ('a rs_state, js) act" where
  "UmaTokenExtractor css lib fetch introspect targetExtractor req =
     (case req_authorization req of
        None \<Rightarrow> throw NotImplemented
      | Some a \<Rightarrow>
          if \<not> truthy_str a \<or> \<not> bearer_scheme a then throw NotImplemented
          else if \<not> truthy_str (bearer_token a) then throw BadRequest
          else catch (bind (lift (targetExtractor req)) (\<lambda>target.
              token_of_target css lib fetch introspect target (bearer_token a)))
            (\<lambda>_. throw BadRequest))"

text \<open>
  \<open>authorization/UmaPermissionReader.ts\<close>: the times are seconds, \<open>now\<close> is in milliseconds; a
  missing time and the time 0 are not tested. The result maps each path to its modes, where a
  scope that is unknown leaves an entry under the name \<open>undefined\<close>.
\<close>

definition tested_time :: "js \<Rightarrow> int option" where
  "tested_time v = (case v of JNum n \<Rightarrow> if n = 0 then None else Some (n * 1000) | _ \<Rightarrow> None)"

definition in_window :: "int \<Rightarrow> js \<Rightarrow> bool" where
  "in_window now v \<longleftrightarrow>
     \<not> (case tested_time (js_prop v ''iat'') of None \<Rightarrow> False | Some t \<Rightarrow> t \<ge> now)
     \<and> \<not> (case tested_time (js_prop v ''exp'') of None \<Rightarrow> False | Some t \<Rightarrow> t \<le> now)
     \<and> \<not> (case tested_time (js_prop v ''nbf'') of None \<Rightarrow> False | Some t \<Rightarrow> t > now)"

definition scope_entry :: "string \<Rightarrow> bool \<Rightarrow> string \<Rightarrow> string \<times> bool option" where
  "scope_entry pe valid sc =
     (case toCssMode pe sc of
        Inl _ \<Rightarrow> (''undefined'', None)
      | Inr None \<Rightarrow> (''undefined'', Some valid)
      | Inr (Some mode) \<Rightarrow> (mode, Some valid))"

definition permission_set :: "string \<Rightarrow> int \<Rightarrow> js \<Rightarrow> bool option obj" where
  "permission_set pe now permission =
     fold (\<lambda>sc m. case scope_entry pe (in_window now permission) sc of (mode, value') \<Rightarrow> obj_set mode value' m)
       (js_strings (case js_prop permission ''resource_scopes'' of JArr vs \<Rightarrow> vs | _ \<Rightarrow> [])) []"

definition UmaPermissionReader :: "string \<Rightarrow> int \<Rightarrow> js option \<Rightarrow> error + bool option obj obj" where
  "UmaPermissionReader pe now rpt =
     (case rpt of None \<Rightarrow> Inr []
      | Some claims \<Rightarrow>
          if \<not> in_window now claims then Inr []
          else (case js_prop claims ''permissions'' of
              JUndef \<Rightarrow> Inr []
            | JNull \<Rightarrow> Inr []
            | JArr ps \<Rightarrow> Inr (fold (\<lambda>p. obj_set (decode_string (js_prop p ''resource_id'')) (permission_set pe now p)) ps [])
            | _ \<Rightarrow> Inl PlainError))"

subsection \<open>The authorizer\<close>

text \<open>
  \<open>authorization/UmaAuthorizer.ts\<close>. A decision lets the request pass, or throws an error whose
  metadata may carry a header.
\<close>

datatype decision = Passed | Refused error "string option"

definition ticket_header :: "string \<Rightarrow> string \<Rightarrow> string" where
  "ticket_header issuer ticket =
     ''UMA realm=\"solid\", as_uri=\"'' @ issuer @ ''\", ticket=\"'' @ ticket @ ''\"''"

definition requestTicket ::
  "css_stores \<Rightarrow> rs_library \<Rightarrow> 'a fetcher \<Rightarrow> (wait \<Rightarrow> ('a rs_state, unit) act) \<Rightarrow> access_map \<Rightarrow>
     ('a rs_state, string option progress) act" where
  "requestTicket css lib fetch suspend requestedModes =
     bind (lift (findCommonOwner css (obj_keys requestedModes))) (\<lambda>owner.
     bind (lift (findUmaSettings css owner)) (\<lambda>(issuer, credentials).
     if \<not> truthy_opt issuer \<or> \<not> truthy_opt credentials then throw InternalServer
     else await (catch (fetchTicket lib fetch suspend requestedModes (the issuer) (the credentials))
         (\<lambda>_. throw InternalServer)) (\<lambda>ticket.
       return (Settled (case ticket of None \<Rightarrow> None | Some t \<Rightarrow> Some (ticket_header (the issuer) t))))))"

definition UmaAuthorizer ::
  "css_stores \<Rightarrow> rs_library \<Rightarrow> 'a fetcher \<Rightarrow> (wait \<Rightarrow> ('a rs_state, unit) act) \<Rightarrow> error + unit \<Rightarrow> access_map \<Rightarrow>
     ('a rs_state, decision progress) act" where
  "UmaAuthorizer css lib fetch suspend verdict requestedModes =
     (case verdict of Inr _ \<Rightarrow> return (Settled Passed)
      | Inl e \<Rightarrow>
          if e \<noteq> Unauthorized \<and> e \<noteq> Forbidden then throw e
          else await (requestTicket css lib fetch suspend requestedModes) (\<lambda>authHeader.
            return (Settled (case authHeader of Some h \<Rightarrow> Refused e (Some h) | None \<Rightarrow> Passed))))"

text \<open>\<open>http/output/metadata/UmaTicketMetadataWriter.ts\<close>: the header of the response.\<close>

definition UmaTicketMetadataWriter :: "string option \<Rightarrow> string option \<Rightarrow> string obj \<Rightarrow> string obj" where
  "UmaTicketMetadataWriter statusCode authHeader headers =
     (if (statusCode = Some ''401'' \<or> statusCode = Some ''403'') \<and> truthy_opt authHeader
      then headers @ [(''WWW-Authenticate'', the authHeader)] else headers)"

subsection \<open>Changes of resources\<close>

text \<open>
  \<open>uma/ResourceRegistrar.ts\<close>: the call of the client a created or deleted resource gives rise to,
  with the resource, the issuer and the credentials; errors are only logged.
\<close>

datatype client_call = RegisterResource string string string | DeleteResource string string string

definition findOwner :: "css_stores \<Rightarrow> string \<Rightarrow> error + string option" where
  "findOwner css path =
     (case (case findOwners css path of Inl _ \<Rightarrow> [] | Inr webIds \<Rightarrow> webIds) of
        [] \<Rightarrow> Inr None
      | [owner] \<Rightarrow> Inr (Some owner)
      | _ \<Rightarrow> Inl InternalServer)"

definition registrar_call ::
  "css_stores \<Rightarrow> (string \<Rightarrow> string \<Rightarrow> string \<Rightarrow> client_call) \<Rightarrow> string \<Rightarrow> client_call option" where
  "registrar_call css call_of path =
     (case findOwner css path of
        Inr (Some owner) \<Rightarrow> (case findUmaSettings css owner of
            Inr (Some issuer, Some credentials) \<Rightarrow>
              if truthy_str owner \<and> truthy_str issuer \<and> truthy_str credentials then Some (call_of path issuer credentials) else None
          | _ \<Rightarrow> None)
      | _ \<Rightarrow> None)"

definition ResourceRegistrar_create :: "css_stores \<Rightarrow> string \<Rightarrow> client_call option" where
  "ResourceRegistrar_create css path = registrar_call css RegisterResource path"

definition ResourceRegistrar_delete :: "css_stores \<Rightarrow> string \<Rightarrow> client_call option" where
  "ResourceRegistrar_delete css path = registrar_call css DeleteResource path"

subsection \<open>The pausable fetcher\<close>

text \<open>
  \<open>util/fetch/PausableFetcher.ts\<close>: the requests that wait, and those handed to the wrapped
  fetcher, in order. \<open>process\<close> empties the backlog in one go, as handing over does not wait.
\<close>

record pausable =
  pf_active :: bool
  pf_backlog :: "request list"
  pf_forwarded :: "request list"

fun pf_process :: "request list \<Rightarrow> pausable \<Rightarrow> pausable" where
  "pf_process [] s = s\<lparr>pf_backlog := []\<rparr>"
| "pf_process (r # rs) s =
     (if \<not> pf_active s then s\<lparr>pf_backlog := r # rs\<rparr>
      else pf_process rs (s\<lparr>pf_forwarded := pf_forwarded s @ [r]\<rparr>))"

definition pf_tryProcess :: "pausable \<Rightarrow> pausable" where
  "pf_tryProcess s = (if pf_active s then pf_process (pf_backlog s) s else s)"

definition pf_fetch :: "request \<Rightarrow> pausable \<Rightarrow> pausable" where
  "pf_fetch r s = pf_tryProcess (s\<lparr>pf_backlog := pf_backlog s @ [r]\<rparr>)"

definition pf_changeStatus :: "bool \<Rightarrow> pausable \<Rightarrow> pausable" where
  "pf_changeStatus active s = pf_tryProcess (s\<lparr>pf_active := active\<rparr>)"

datatype pf_event = Fetch request | Status bool

definition pf_run :: "pf_event list \<Rightarrow> pausable \<Rightarrow> pausable" where
  "pf_run events = fold (\<lambda>e. case e of Fetch r \<Rightarrow> pf_fetch r | Status b \<Rightarrow> pf_changeStatus b) events"

subsection \<open>The first existing parent\<close>

lemmas parent_search = findFirstExistingParent.simps

text \<open>The paths the search has passed: \<open>n\<close> times the parent.\<close>

abbreviation ancestor :: "site \<Rightarrow> nat \<Rightarrow> string \<Rightarrow> string" where
  "ancestor site n \<equiv> parent_of site ^^ n"

text \<open>
  C37: the search for the parent that has to allow the creation ends, given that a parent has a
  shorter path than its resource. It yields the nearest resource on the way to the root that
  exists, all resources before it being missing; it is an error exactly when it reaches a root
  that does not exist.
\<close>

theorem parent_search_ends:
  assumes "\<forall>p. \<not> is_root site p \<longrightarrow> length (parent_of site p) < length p"
  shows "\<exists>n r. findFirstExistingParent site exists path = Some r
    \<and> (\<forall>k < n. \<not> exists (ancestor site k path) \<and> \<not> is_root site (ancestor site k path))
    \<and> (if exists (ancestor site n path) then r = Inr (ancestor site n path)
       else r = Inl InternalServer \<and> is_root site (ancestor site n path))"
proof (induction "length path" arbitrary: path rule: less_induct)
  case less
  show ?case
  proof (cases "exists path \<or> is_root site path")
    case True
    then show ?thesis by (intro exI [where x = 0]) (auto simp: parent_search)
  next
    case False
    with assms have "length (parent_of site path) < length path" by simp
    from less [OF this] obtain n r where
      found: "findFirstExistingParent site exists (parent_of site path) = Some r"
      and passed: "\<forall>k < n. \<not> exists (ancestor site k (parent_of site path)) \<and> \<not> is_root site (ancestor site k (parent_of site path))"
      and result: "if exists (ancestor site n (parent_of site path)) then r = Inr (ancestor site n (parent_of site path))
       else r = Inl InternalServer \<and> is_root site (ancestor site n (parent_of site path))" by blast
    have shift: "ancestor site (Suc k) path = ancestor site k (parent_of site path)" for k
      by (simp add: funpow_swap1)
    have "\<forall>k < Suc n. \<not> exists (ancestor site k path) \<and> \<not> is_root site (ancestor site k path)"
      using passed False shift by (metis funpow_0 less_Suc_eq_0_disj)
    moreover have "findFirstExistingParent site exists path = Some r" using found False by (subst parent_search) simp
    ultimately show ?thesis using result shift by (intro exI [where x = "Suc n"] exI [where x = r]) (simp only: simp_thms)
  qed
qed

subsection \<open>Auxiliary resources\<close>

text \<open>
  an auxiliary resource replaces the modes of its subject: where an operation requires modes on a
  resource and on its auxiliary resource, only those of the auxiliary resource are left, under the
  name of the subject, whichever comes first.
\<close>

theorem auxiliary_replaces_subject_modes:
  assumes "isAuxiliaryIdentifier aux a" and "\<not> usesOwnAuthorization aux a" and "getSubjectIdentifier aux a = path"
    and "\<not> isAuxiliaryIdentifier aux path" and "m \<in> {[(path, required), (a, modes)], [(a, modes), (path, required)]}"
  shows "AuxiliaryModesExtractor aux m = [(path, modes)]"
proof -
  have "path \<noteq> a" using assms(1,4) by auto
  with assms show ?thesis by (auto simp: AuxiliaryModesExtractor_def auxiliary_step_def obj_keys_def)
qed

subsection \<open>The pausable fetcher\<close>

lemma pf_process_all:
  "pf_process rs s = (if pf_active s then s\<lparr>pf_backlog := [], pf_forwarded := pf_forwarded s @ rs\<rparr> else s\<lparr>pf_backlog := rs\<rparr>)"
  by (induction rs arbitrary: s) auto

text \<open>
  requests are forwarded in the order they were made, none is lost or doubled, and none waits
  while the fetcher is active.
\<close>

theorem pausable_fifo:
  assumes "pf_active s \<longrightarrow> pf_backlog s = []"
  shows "pf_forwarded (pf_run events s) @ pf_backlog (pf_run events s)
      = pf_forwarded s @ pf_backlog s @ concat (map (\<lambda>e. case e of Fetch r \<Rightarrow> [r] | Status b \<Rightarrow> []) events)
    \<and> (pf_active (pf_run events s) \<longrightarrow> pf_backlog (pf_run events s) = [])"
  using assms
proof (induction events arbitrary: s)
  case Nil
  then show ?case by (simp add: pf_run_def)
next
  case (Cons e events)
  let ?s = "case e of Fetch r \<Rightarrow> pf_fetch r s | Status b \<Rightarrow> pf_changeStatus b s"
  have step: "(pf_active ?s \<longrightarrow> pf_backlog ?s = []) \<and> pf_forwarded ?s @ pf_backlog ?s
      = pf_forwarded s @ pf_backlog s @ (case e of Fetch r \<Rightarrow> [r] | Status b \<Rightarrow> [])"
    by (cases e) (auto simp: pf_fetch_def pf_changeStatus_def pf_tryProcess_def pf_process_all)
  moreover have "pf_run (e # events) s = pf_run events ?s" by (cases e) (simp_all add: pf_run_def)
  ultimately show ?case using Cons.IH [of ?s] by (simp add: append_assoc [symmetric] del: append_assoc)
qed

subsection \<open>The common owner\<close>

lemma set_fold_set_add: "set (fold set_add vs xs) = set vs \<union> set xs"
  by (induction vs arbitrary: xs) (auto simp: set_add_def)

lemma distinct_fold_set_add: "distinct xs \<Longrightarrow> distinct (fold set_add vs xs)"
  by (induction vs arbitrary: xs) (auto simp: set_add_def)

definition targets_of :: "access_map \<Rightarrow> string \<Rightarrow> string list" where
  "targets_of m k = (case obj_get m k of None \<Rightarrow> [] | Some ts \<Rightarrow> ts)"

lemma targets_amap_add:
  "targets_of (amap_add k vs m) j = (if j = k then fold set_add vs (targets_of m k) else targets_of m j)"
  by (simp add: targets_of_def amap_add_def update_conv split: option.split)

lemma obj_ok_amap_add: "obj_ok m \<Longrightarrow> obj_ok (amap_add k vs m)"
  by (simp add: amap_add_def obj_ok_set)

definition map_ok :: "access_map \<Rightarrow> bool" where
  "map_ok m \<longleftrightarrow> obj_ok m \<and> (\<forall>k. distinct (targets_of m k))"

lemma owners_fold:
  "map_ok m \<Longrightarrow> map_ok (fold (\<lambda>owner. amap_add owner [path]) owners m)
    \<and> (\<forall>k. set (targets_of (fold (\<lambda>owner. amap_add owner [path]) owners m) k)
          = set (targets_of m k) \<union> (if k \<in> set owners then {path} else {}))"
proof (induction owners arbitrary: m)
  case (Cons owner owners)
  then have "map_ok (amap_add owner [path] m)"
    by (auto simp: map_ok_def obj_ok_amap_add targets_amap_add set_add_def)
  from Cons.IH [OF this] show ?case by (auto simp: targets_amap_add set_add_def)
qed simp

text \<open>The owners of a path, none when they are not found.\<close>

definition owns :: "css_stores \<Rightarrow> string \<Rightarrow> string \<Rightarrow> bool" where
  "owns css owner path = (\<exists>owners. findOwners css path = Inr owners \<and> owner \<in> set owners)"

lemma owner_map_run:
  "map_ok m \<Longrightarrow> (case owner_map css m paths of
      Inl e \<Rightarrow> \<exists>path \<in> set paths. findOwners css path = Inl e
    | Inr out \<Rightarrow> (\<forall>path \<in> set paths. \<exists>owners. findOwners css path = Inr owners) \<and> map_ok out
        \<and> (\<forall>k. set (targets_of out k) = set (targets_of m k) \<union> {path \<in> set paths. owns css k path}))"
proof (induction paths arbitrary: m)
  case (Cons path paths)
  show ?case
  proof (cases "findOwners css path")
    case (Inr owners)
    note step = owners_fold [OF Cons.prems, of path owners]
    from Cons.IH [OF conjunct1 [OF step]] step show ?thesis
      by (auto simp: Inr owns_def split: sum.splits)
  qed auto
qed simp

lemma distinct_is_singleton: "distinct ys \<Longrightarrow> ys = [k] \<longleftrightarrow> set ys = {k}"
  by (cases ys; cases "tl ys") auto

lemma only_one: "(case ys of [y] \<Rightarrow> Inr y | _ \<Rightarrow> Inl e) = Inr x \<longleftrightarrow> ys = [x]"
  by (auto split: list.splits)

lemma singleton_filter:
  assumes "distinct (map fst xs)"
  shows "map fst (filter P xs) = [k] \<longleftrightarrow> fst ` {x \<in> set xs. P x} = {k}"
proof -
  have "distinct (map fst (filter P xs))" using assms by (rule distinct_map_filter)
  moreover have "set (map fst (filter P xs)) = fst ` {x \<in> set xs. P x}" by auto
  ultimately show ?thesis using distinct_is_singleton by metis
qed

lemma full_owners:
  assumes "map_ok out" and "\<And>k. set (targets_of out k) = {path \<in> set resources. owns css k path}" and "resources \<noteq> []"
  shows "fst ` {x \<in> set out. (\<lambda>(owner, ts). length ts = length (remdups resources)) x}
    = {k. \<forall>path \<in> set resources. owns css k path}"
proof -
  have full: "length (targets_of out k) = length (remdups resources) \<longleftrightarrow> (\<forall>path \<in> set resources. owns css k path)" for k
  proof -
    have "length (targets_of out k) = card {path \<in> set resources. owns css k path}"
      using assms(1,2) by (metis distinct_card map_ok_def)
    moreover have "card {path \<in> set resources. owns css k path} = card (set resources)
        \<longleftrightarrow> {path \<in> set resources. owns css k path} = set resources"
      by (metis (no_types, lifting) List.finite_set card_subset_eq mem_Collect_eq subsetI)
    ultimately show ?thesis by (auto simp: length_remdups_card_conv)
  qed
  have entry: "(k, ts) \<in> set out \<longleftrightarrow> obj_get out k = Some ts" for k ts
    using assms(1) by (simp add: map_ok_def obj_ok_def)
  show "fst ` {x \<in> set out. (\<lambda>(owner, ts). length ts = length (remdups resources)) x}
      = {k. \<forall>path \<in> set resources. owns css k path}"
  proof (intro set_eqI iffI)
    fix k assume "k \<in> fst ` {x \<in> set out. (\<lambda>(owner, ts). length ts = length (remdups resources)) x}"
    then obtain ts where "obj_get out k = Some ts" "length ts = length (remdups resources)" using entry by auto
    with full [of k] show "k \<in> {k. \<forall>path \<in> set resources. owns css k path}" by (simp add: targets_of_def)
  next
    fix k assume "k \<in> {k. \<forall>path \<in> set resources. owns css k path}"
    with full have len: "length (targets_of out k) = length (remdups resources)" by simp
    with assms(3) obtain ts where "obj_get out k = Some ts" by (cases "obj_get out k") (auto simp: targets_of_def)
    with len entry show "k \<in> fst ` {x \<in> set out. (\<lambda>(owner, ts). length ts = length (remdups resources)) x}"
      by (force simp: targets_of_def)
  qed
qed

text \<open>
  the owner the resource server acts for is the only one who owns every requested resource:
  \<open>findCommonOwner\<close> returns it exactly when there is one; without resources, without a common owner
  and with several ones it is an error, as when the owners of a resource are not found.
\<close>

theorem common_owner_exact:
  "findCommonOwner css resources = Inr owner \<longleftrightarrow>
     resources \<noteq> [] \<and> (\<forall>path \<in> set resources. \<exists>owners. findOwners css path = Inr owners)
     \<and> {o'. \<forall>path \<in> set resources. owns css o' path} = {owner}"
proof (cases "owner_map css [] (remdups resources)")
  case (Inl e)
  have ok: "map_ok []" by (simp add: map_ok_def targets_of_def)
  from owner_map_run [OF ok, where css = css and paths = "remdups resources"] Inl
  obtain path where "path \<in> set resources" "findOwners css path = Inl e" by auto
  then have "\<not> (\<forall>path \<in> set resources. \<exists>owners. findOwners css path = Inr owners)" by force
  with Inl show ?thesis by (simp add: findCommonOwner_def Let_def)
next
  case (Inr out)
  have ok: "map_ok []" by (simp add: map_ok_def targets_of_def)
  from owner_map_run [OF ok, where css = css and paths = "remdups resources"] Inr
  have found: "\<forall>path \<in> set resources. \<exists>owners. findOwners css path = Inr owners" and out: "map_ok out"
    and targets: "\<And>k. set (targets_of out k) = {path \<in> set resources. owns css k path}"
    by (auto simp: targets_of_def)
  have keys: "distinct (map fst out)" using out by (simp add: map_ok_def obj_ok_def)
  show ?thesis
  proof (cases "resources = []")
    case True
    with Inr show ?thesis by (simp add: findCommonOwner_def)
  next
    case False
    note owners = full_owners [OF out targets False]
    have "findCommonOwner css resources = Inr owner
        \<longleftrightarrow> map fst (filter (\<lambda>(owner, targets). length targets = length (remdups resources)) out) = [owner]"
      by (simp add: findCommonOwner_def Let_def Inr only_one)
    then show ?thesis unfolding singleton_filter [OF keys] owners using found False by simp
  qed
qed

subsection \<open>The modes a token grants\<close>

definition entry_scopes :: "js \<Rightarrow> string list" where
  "entry_scopes permission = js_strings (case js_prop permission ''resource_scopes'' of JArr vs \<Rightarrow> vs | _ \<Rightarrow> [])"

definition entries_for :: "string \<Rightarrow> js list \<Rightarrow> js list" where
  "entries_for path ps = filter (\<lambda>p. decode_string (js_prop p ''resource_id'') = path) ps"

definition grants :: "bool option obj obj \<Rightarrow> string \<Rightarrow> string \<Rightarrow> bool" where
  "grants r path mode \<longleftrightarrow> (\<exists>modes. obj_get r path = Some modes \<and> obj_get modes mode = Some (Some True))"

lemma obj_get_fold_set:
  "obj_get (fold (\<lambda>p. obj_set (f p) (g p)) ps m) k
     = (if filter (\<lambda>p. f p = k) ps = [] then obj_get m k else Some (g (last (filter (\<lambda>p. f p = k) ps))))"
  by (induction ps arbitrary: m) (auto simp: obj_get_set)

lemma permission_set_get:
  assumes "mode \<noteq> ''undefined''"
  shows "obj_get (permission_set pe now p) mode = Some (Some True)
    \<longleftrightarrow> in_window now p \<and> (\<exists>sc \<in> set (entry_scopes p). toCssMode pe sc = Inr (Some mode))"
proof -
  let ?f = "\<lambda>sc. fst (scope_entry pe (in_window now p) sc)" and ?g = "\<lambda>sc. snd (scope_entry pe (in_window now p) sc)"
  have key: "?f sc = mode \<longleftrightarrow> toCssMode pe sc = Inr (Some mode)" for sc
    using assms by (auto simp: scope_entry_def split: sum.splits option.splits)
  have val: "?g sc = Some (in_window now p)" if "?f sc = mode" for sc
    using that key by (simp add: scope_entry_def)
  have "permission_set pe now p = fold (\<lambda>sc. obj_set (?f sc) (?g sc)) (entry_scopes p) []"
    by (simp add: permission_set_def entry_scopes_def case_prod_beta)
  then have get: "obj_get (permission_set pe now p) mode
      = (if filter (\<lambda>sc. ?f sc = mode) (entry_scopes p) = [] then None else Some (?g (last (filter (\<lambda>sc. ?f sc = mode) (entry_scopes p)))))"
    using obj_get_fold_set [of ?f ?g "entry_scopes p" "[]" mode] by simp
  have "?g (last (filter (\<lambda>sc. ?f sc = mode) (entry_scopes p))) = Some (in_window now p)"
    if "filter (\<lambda>sc. ?f sc = mode) (entry_scopes p) \<noteq> []"
    using val last_in_set [OF that] by auto
  with get key show ?thesis by (auto simp: filter_empty_conv split: if_splits)
qed

text \<open>
  C17: a token grants a mode on a resource exactly when the token is within its own window, and the
  last of its permissions that names the resource is within its window and has the scope of the
  mode. An earlier permission for the same resource does not count, whatever it allows.
\<close>

theorem reader_grants_exactly:
  assumes "UmaPermissionReader pe now (Some claims) = Inr r" and "mode \<noteq> ''undefined''"
  shows "grants r path mode \<longleftrightarrow> in_window now claims
    \<and> (\<exists>ps. js_prop claims ''permissions'' = JArr ps \<and> entries_for path ps \<noteq> []
        \<and> in_window now (last (entries_for path ps))
        \<and> (\<exists>sc \<in> set (entry_scopes (last (entries_for path ps))). toCssMode pe sc = Inr (Some mode)))"
proof (cases "in_window now claims \<and> (\<exists>ps. js_prop claims ''permissions'' = JArr ps)")
  case True
  then obtain ps where ps: "js_prop claims ''permissions'' = JArr ps" by blast
  with True assms(1) have r: "r = fold (\<lambda>p. obj_set (decode_string (js_prop p ''resource_id'')) (permission_set pe now p)) ps []"
    by (simp add: UmaPermissionReader_def)
  have "obj_get r path = (if entries_for path ps = [] then None else Some (permission_set pe now (last (entries_for path ps))))"
    unfolding r entries_for_def by (simp add: obj_get_fold_set)
  with permission_set_get [OF assms(2)] ps True show ?thesis by (simp add: grants_def)
next
  case False
  with assms(1) have "r = []"
    by (cases "js_prop claims ''permissions''") (auto simp: UmaPermissionReader_def split: if_splits)
  with False show ?thesis by (auto simp: grants_def)
qed

subsection \<open>The decision of the authorizer\<close>

lemma requestTicket_run:
  assumes "\<forall>w. keeps ids_kept (suspend w)" and "requestTicket css lib fetch suspend modes s = (Inr (Settled h), t)"
  shows "\<exists>owner issuer credentials x. findCommonOwner css (obj_keys modes) = Inr owner
    \<and> findUmaSettings css owner = Inr (Some issuer, Some credentials) \<and> issuer \<noteq> '''' \<and> credentials \<noteq> ''''
    \<and> fetchTicket lib fetch suspend modes issuer credentials s = (Inr (Settled x), t)
    \<and> h = map_option (ticket_header issuer) x"
proof -
  from assms(2) obtain owner settings where found: "findCommonOwner css (obj_keys modes) = Inr owner"
      "findUmaSettings css owner = Inr settings"
    and rest: "(case settings of (issuer, credentials) \<Rightarrow>
      if \<not> truthy_opt issuer \<or> \<not> truthy_opt credentials then throw InternalServer
      else await (catch (fetchTicket lib fetch suspend modes (the issuer) (the credentials)) (\<lambda>_. throw InternalServer))
        (\<lambda>ticket. return (Settled (case ticket of None \<Rightarrow> None | Some t \<Rightarrow> Some (ticket_header (the issuer) t))))) s
      = (Inr (Settled h), t)"
    by (auto simp: requestTicket_def bind_eq_Inr)
  obtain io co where settings: "settings = (io, co)" by fastforce
  from rest settings have truthy: "truthy_opt io" "truthy_opt co" by (auto split: if_splits)
  then obtain issuer credentials where io: "io = Some issuer" "co = Some credentials" "issuer \<noteq> ''''" "credentials \<noteq> ''''"
    by (cases io; cases co) auto
  with rest settings obtain x where "fetchTicket lib fetch suspend modes issuer credentials s = (Inr (Settled x), t)"
    and "h = (case x of None \<Rightarrow> None | Some t \<Rightarrow> Some (ticket_header (the (Some issuer)) t))"
    by (auto simp: catch_eq_Inr dest!: await_Settled)
  moreover from this(2) have "h = map_option (ticket_header issuer) x" by (cases x) simp_all
  ultimately show ?thesis using found settings io by blast
qed

text \<open>
  C16: the authorizer lets a request pass only when the other authorizer does, or when that one threw
  401 or 403 and the authorization server of the common owner of all resources answered 200 to a
  request that named every resource with all the required modes.
\<close>

theorem authorizer_passes_only:
  assumes "\<forall>w. keeps ids_kept (suspend w)"
    and "UmaAuthorizer css lib fetch suspend verdict modes s = (Inr (Settled Passed), t)"
  shows "verdict = Inr () \<or> (verdict \<in> {Inl Unauthorized, Inl Forbidden}
    \<and> (\<exists>owner issuer credentials config pat body a resp.
        findCommonOwner css (obj_keys modes) = Inr owner
      \<and> findUmaSettings css owner = Inr (Some issuer, Some credentials)
      \<and> fst (fetchUmaConfig fetch issuer s) = Inr config
      \<and> fetch (http_post (uc_permission_endpoint config) ''application/json'' (Some pat) (JArr body)) a
          = (Inr resp, other_side t) \<and> hr_status resp = 200
      \<and> list_all2 (\<lambda>(path, ms) b.
          (\<exists>i. known_id path t = Some i \<and> b = requested_entry (pe_namespace lib) i ms)
          \<and> (\<forall>m \<in> set ms. starts_with (pe_namespace lib) m)) modes body))"
proof (cases verdict)
  case (Inl e)
  with assms(2) have e: "e = Unauthorized \<or> e = Forbidden" by (auto simp: UmaAuthorizer_def split: if_splits)
  with assms(2) Inl have "await (requestTicket css lib fetch suspend modes) (\<lambda>authHeader.
      return (Settled (case authHeader of Some h \<Rightarrow> Refused e (Some h) | None \<Rightarrow> Passed))) s = (Inr (Settled Passed), t)"
    by (auto simp: UmaAuthorizer_def)
  from await_Settled [OF this] have "requestTicket css lib fetch suspend modes s = (Inr (Settled None), t)"
    by (auto split: option.splits)
  from requestTicket_run [OF assms(1) this] obtain owner issuer credentials
    where ticket: "findCommonOwner css (obj_keys modes) = Inr owner"
      "findUmaSettings css owner = Inr (Some issuer, Some credentials)"
      "fetchTicket lib fetch suspend modes issuer credentials s = (Inr (Settled None), t)" by auto
  from fetchTicket_run [OF assms(1) ticket(3)] e Inl ticket(1,2) show ?thesis by simp blast
qed simp

subsection \<open>The tokens that are accepted\<close>

lemma valid_issuers_run:
  "valid_issuers css owners = Inr issuers \<Longrightarrow> issuer \<in> set issuers \<Longrightarrow>
     \<exists>owner \<in> set owners. \<exists>credentials. findUmaSettings css owner = Inr (Some issuer, credentials)"
  by (induction owners arbitrary: issuers) (fastforce split: sum.splits option.splits prod.splits)+

lemma introspect_none:
  assumes "jose_contract lib"
  shows "introspect_all lib fetch tok issuers s = (Inr out, t) \<Longrightarrow> out = []"
proof (induction issuers arbitrary: s out)
  case (Cons issuer issuers)
  have "\<exists>e. fst (verifyOpaqueToken lib fetch tok issuer s) = Inl e" for s
    by (rule opaque_token_rejected [OF assms])
  then have "\<exists>e u. verifyOpaqueToken lib fetch tok issuer s = (Inl e, u)" by (metis prod.collapse)
  then obtain e u where "verifyOpaqueToken lib fetch tok issuer s = (Inl e, u)" by blast
  with Cons show ?case by (auto simp: bind_eq_Inr catch_def bind_Inl)
qed simp

text \<open>
  C19: a request is given the claims of its token only when the token verifies for the issuer of an
  owner of the target; with introspection no request ever is. Every failure is a 400, and a
  request without a bearer token is left to other extractors (501).
\<close>

theorem extractor_accepts_only:
  assumes "jose_contract lib" and "UmaTokenExtractor css lib fetch introspect target req s = (r, t)"
  shows "(\<forall>claims. r = Inr claims \<longrightarrow> \<not> introspect
      \<and> (\<exists>a path owners owner issuer credentials jwks. req_authorization req = Some a \<and> bearer_scheme a
          \<and> target req = Inr path \<and> findOwners css path = Inr owners \<and> owner \<in> set owners
          \<and> findUmaSettings css owner = Inr (Some issuer, credentials) \<and> js_prop claims ''iss'' = JStr issuer
          \<and> jose_verify lib (JStr (bearer_token a)) jwks issuer ''solid'' = Inr claims))
    \<and> (\<forall>e. r = Inl e \<longrightarrow> e \<in> {NotImplemented, BadRequest})"
proof (cases "\<exists>a. req_authorization req = Some a \<and> truthy_str a \<and> bearer_scheme a \<and> truthy_str (bearer_token a)")
  case False
  with assms(2) show ?thesis by (auto simp: UmaTokenExtractor_def split: option.splits if_splits)
next
  case True
  then obtain a where a: "req_authorization req = Some a" "truthy_str a" "bearer_scheme a" "truthy_str (bearer_token a)" by blast
  with assms(2) have run: "catch (bind (lift (target req)) (\<lambda>target.
      token_of_target css lib fetch introspect target (bearer_token a))) (\<lambda>_. throw BadRequest) s = (r, t)"
    by (simp add: UmaTokenExtractor_def)
  then have errors: "\<forall>e. r = Inl e \<longrightarrow> e = BadRequest" by (auto simp: catch_def split: prod.splits sum.splits)
  show ?thesis
  proof (cases r)
    case (Inr claims)
    with run obtain path owners issuers where path: "target req = Inr path" "findOwners css path = Inr owners"
      "valid_issuers css owners = Inr issuers"
      and rest: "(if introspect then bind (introspect_all lib fetch (bearer_token a) issuers) (\<lambda>succeeded.
           case succeeded of [] \<Rightarrow> throw BadRequest | claims # _ \<Rightarrow> return claims)
         else verifyJwtToken lib fetch (bearer_token a) issuers) s = (Inr claims, t)"
      by (auto simp: catch_eq_Inr bind_eq_Inr token_of_target_def)
    from rest introspect_none [OF assms(1)] have no: "\<not> introspect"
      by (auto simp: bind_eq_Inr dest!: introspect_none [OF assms(1)] split: if_splits)
    with rest have "verifyJwtToken lib fetch (bearer_token a) issuers s = (Inr claims, t)" by simp
    from verifyJwtToken_run [OF assms(1) this] obtain issuer jwks where jwt: "issuer \<in> set issuers"
      "js_prop claims ''iss'' = JStr issuer" "jose_verify lib (JStr (bearer_token a)) jwks issuer ''solid'' = Inr claims" by blast
    from valid_issuers_run [OF path(3) jwt(1)] jwt path no a Inr show ?thesis by blast
  qed (use errors in simp)
qed

subsection \<open>Examples\<close>

text \<open>A site whose paths lose their last character towards the root, the empty path.\<close>

definition shrinking_site :: site where
  "shrinking_site = \<lparr>is_container = (\<lambda>_. True), is_root = (\<lambda>p. p = ''''), parent_of = butlast\<rparr>"

theorem parent_search_ends_witness:
  "\<exists>n. findFirstExistingParent shrinking_site (\<lambda>p. p = ''a'') ''abc'' = Some (Inr (ancestor shrinking_site n ''abc''))
     \<or> findFirstExistingParent shrinking_site (\<lambda>p. p = ''a'') ''abc'' = Some (Inl InternalServer)"
proof -
  have "\<forall>p. \<not> is_root shrinking_site p \<longrightarrow> length (parent_of shrinking_site p) < length p"
    by (simp add: shrinking_site_def)
  from parent_search_ends [OF this, of "\<lambda>p. p = ''a''" "''abc''"] show ?thesis by (metis (full_types))
qed

definition acl_strategy :: auxiliary_strategy where
  "acl_strategy = \<lparr>isAuxiliaryIdentifier = (\<lambda>p. p = ''a.meta''), usesOwnAuthorization = (\<lambda>_. False),
     getSubjectIdentifier = (\<lambda>_. ''a'')\<rparr>"

theorem auxiliary_replaces_subject_modes_witness:
  "AuxiliaryModesExtractor acl_strategy [(''a'', [''Write'', ''Delete'']), (''a.meta'', [''Read''])] = [(''a'', [''Read''])]"
  by (rule auxiliary_replaces_subject_modes [where a = "''a.meta''" and required = "[''Write'', ''Delete'']"])
    (simp_all add: acl_strategy_def)

theorem pausable_fifo_witness:
  "\<exists>s. \<not> pf_active s \<and> pf_forwarded (pf_run [Fetch (http_get ''x''), Fetch (http_get ''y''), Status True] s)
     @ pf_backlog (pf_run [Fetch (http_get ''x''), Fetch (http_get ''y''), Status True] s) = [http_get ''x'', http_get ''y'']"
  using pausable_fifo [of "\<lparr>pf_active = False, pf_backlog = [], pf_forwarded = []\<rparr>"
      "[Fetch (http_get ''x''), Fetch (http_get ''y''), Status True]"]
  by (intro exI [where x = "\<lparr>pf_active = False, pf_backlog = [], pf_forwarded = []\<rparr>"]) simp

definition example_stores :: css_stores where
  "example_stores = \<lparr>storage_of = (\<lambda>_. Inr ''pod''), pod_at = (\<lambda>_. Some ''pod1''), pod_owners = (\<lambda>_. Some [''alice'']),
     accounts_of = (\<lambda>_. [''account1'']), authz_server = (\<lambda>_. Some ''as''), as_token = (\<lambda>_. Some ''Basic a'')\<rparr>"

theorem common_owner_exact_witness:
  "findCommonOwner example_stores [''/a'', ''/b''] = Inr ''alice''"
  unfolding common_owner_exact by (auto simp: owns_def findOwners_def example_stores_def)

definition rs_claims :: js where
  "rs_claims = JObj [(''iss'', JStr ''as''), (''permissions'', JArr
     [JObj [(''resource_id'', JStr ''/a''), (''resource_scopes'', JArr [JStr ''urn:example:css:modes:read''])]])]"

lemma example_reads: "\<exists>r. UmaPermissionReader ''pe#'' 1000 (Some rs_claims) = Inr r"
proof -
  have "(case UmaPermissionReader ''pe#'' 1000 (Some rs_claims) of Inr r \<Rightarrow> True | Inl e \<Rightarrow> False)" by code_simp
  then show ?thesis by (simp split: sum.splits)
qed

theorem reader_grants_exactly_witness:
  "\<exists>r. UmaPermissionReader ''pe#'' 1000 (Some rs_claims) = Inr r \<and> grants r ''/a'' ''pe#Read''"
proof -
  obtain r where r: "UmaPermissionReader ''pe#'' 1000 (Some rs_claims) = Inr r" using example_reads by blast
  let ?entry = "JObj [(''resource_id'', JStr ''/a''), (''resource_scopes'', JArr [JStr ''urn:example:css:modes:read''])]"
  have ps: "js_prop rs_claims ''permissions'' = JArr [?entry]" by code_simp
  have "entries_for ''/a'' [?entry] = [?entry]" "in_window 1000 rs_claims" "in_window 1000 ?entry"
    "entry_scopes ?entry = [''urn:example:css:modes:read'']"
    "toCssMode ''pe#'' ''urn:example:css:modes:read'' = Inr (Some ''pe#Read'')" by code_simp+
  then have "grants r ''/a'' ''pe#Read''" using reader_grants_exactly [OF r, of "''pe#Read''" "''/a''"] ps by simp
  with r show ?thesis by blast
qed

text \<open>An authorization server that answers 200 where tickets are requested.\<close>

definition public_server :: "unit fetcher" where
  "public_server req = (if req_url req = ''ticket'' then (\<lambda>a. (Inr \<lparr>hr_status = 200, hr_json = None\<rparr>, a))
     else example_server 201 req)"

lemma example_passes:
  "fst (UmaAuthorizer example_stores example_rs_library public_server (\<lambda>w. return ()) (Inl Forbidden)
     [(''/a'', [''pe#Read''])] rs_example) = Inr (Settled Passed)"
  by code_simp

theorem authorizer_passes_only_witness:
  "\<exists>owner. findCommonOwner example_stores [''/a''] = Inr owner"
proof -
  have "\<forall>w. keeps ids_kept ((\<lambda>w :: wait. return ()) w)" by (auto intro!: keepsI simp: ids_kept_refl)
  from authorizer_passes_only [OF this run_fst [OF example_passes]] show ?thesis by (auto simp: obj_keys_def)
qed

definition bearer_request :: request where
  "bearer_request = (http_get ''/a'')\<lparr>req_authorization := Some ''Bearer t''\<rparr>"

lemma example_extracts:
  "fst (UmaTokenExtractor example_stores example_rs_library (example_server 201) False (\<lambda>req. Inr (req_url req)) bearer_request
      rs_example) = Inr (JObj [(''iss'', JStr ''as''), (''permissions'', JArr [])])"
  by code_simp

theorem extractor_accepts_only_witness:
  "\<exists>issuer credentials owner. findUmaSettings example_stores owner = Inr (Some issuer, credentials)"
  using extractor_accepts_only [OF example_jose run_fst [OF example_extracts]] by blast

end
