(* ===== verification/Contracts.thy ===== *)
theory Contracts
  imports NegotiationFacts
begin

text \<open>
  The negotiator that instantiates contracts, for demonstrations: \<open>dialog/ContractNegotiator.ts\<close>
  with the manager and the storage of contracts (\<open>policies/contracts/\<close>). The contract is also posted
  to a fixed container; the outcome of that request is only logged and it is not modelled.
\<close>

subsection \<open>Contracts\<close>

record contract_permission =
  cp_action :: string
  cp_target :: string

record contract =
  ct_uid :: string
  ct_permissions :: "contract_permission list"

definition contract_assigner :: string where "contract_assigner = ''http://localhost:3000/ruben/profile/card#me''"
definition contract_assignee :: string where "contract_assignee = ''http://localhost:3000/alice/profile/card#me''"

definition encode_contract_permission :: "contract_permission \<Rightarrow> js" where
  "encode_contract_permission p = JObj
     [(''@type'', JStr ''Permission''), (''action'', JStr (cp_action p)), (''target'', JStr (cp_target p)),
      (''assigner'', JStr contract_assigner), (''assignee'', JStr contract_assignee),
      (''constraint'', JArr [JObj [(''@type'', JStr ''Constraint''), (''leftOperand'', JStr ''purpose''),
         (''operator'', JStr ''eq''), (''rightOperand'', JObj [(''@id'', JStr ''http://example.org/bariatric-care'')])]])]"

definition encode_contract :: "contract \<Rightarrow> js" where
  "encode_contract c = JObj
     [(''@context'', JStr ''http://www.w3.org/ns/odrl.jsonld''), (''@type'', JStr ''Agreement''),
      (''uid'', JStr (ct_uid c)),
      (''http://purl.org/dc/terms/description'',
         JStr (''Agreement for HCP X to read Alice'' @ [CHR 39] @ ''s health data for bariatric care.'')),
      (''https://w3id.org/dpv#hasLegalBasis'', JObj [(''@id'', JStr ''https://w3id.org/dpv/legal/eu/gdpr#eu-gdpr:A9-2-a'')]),
      (''permission'', JArr (map encode_contract_permission (ct_permissions c)))]"

text \<open>\<open>ContractStorage\<close>; a stored contract without permissions is a \<open>TypeError\<close>.\<close>

definition storeContract :: "contract \<Rightarrow> contract list \<Rightarrow> contract list" where
  "storeContract c storage = storage @ [c]"

fun matchContract :: "contract list \<Rightarrow> permission \<Rightarrow> js \<Rightarrow> error + contract option" where
  "matchContract [] p assignee = Inr None"
| "matchContract (c # cs) p assignee = (case ct_permissions c of
     [] \<Rightarrow> Inl PlainError
   | first # _ \<Rightarrow>
       if resource_id p \<noteq> cp_target first then matchContract cs p assignee
       else if assignee \<noteq> JStr contract_assignee then matchContract cs p assignee
       else Inr (Some c))"

text \<open>\<open>ContractManager\<close>; a claim is a list of values.\<close>

definition findContract :: "contract list \<Rightarrow> ticket \<Rightarrow> error + contract option" where
  "findContract storage tk =
     (case obj_get (provided tk) WEBID of
        None \<Rightarrow> Inr None
      | Some claims \<Rightarrow> (case permissions tk of
            [p] \<Rightarrow> matchContract storage p (JArr claims)
          | _ \<Rightarrow> Inr None))"

fun contract_entries :: "(string \<times> string) list \<Rightarrow> error + contract_permission list" where
  "contract_entries [] = Inr []"
| "contract_entries ((action, target) # pairs) =
     (case switchODRLandCSSPermission action of Inl e \<Rightarrow> Inl e
      | Inr a \<Rightarrow> (case contract_entries pairs of Inl e \<Rightarrow> Inl e
          | Inr ps \<Rightarrow> Inr (\<lparr>cp_action = a, cp_target = target\<rparr> # ps)))"

definition permission_pairs :: "permission list \<Rightarrow> (string \<times> string) list" where
  "permission_pairs perms = concat (map (\<lambda>p. map (\<lambda>sc. (sc, resource_id p)) (resource_scopes p)) perms)"

definition createContract :: "permission list \<Rightarrow> contract dialog" where
  "createContract perms =
     bind randomUUID (\<lambda>i.
     bind (lift (contract_entries (permission_pairs perms))) (\<lambda>ps.
     return \<lparr>ct_uid = ''urn:uma:pacsoi:agreement:'' @ i, ct_permissions = ps\<rparr>))"

subsection \<open>The negotiator\<close>

definition toContract :: "contract list \<Rightarrow> ticketing \<Rightarrow> ticket \<Rightarrow> (contract, required_claim list) result dialog" where
  "toContract storage strat tk =
     (case findContract storage tk of
        Inr (Some c) \<Rightarrow> return (Success c)
      | _ \<Rightarrow> bind (resolveTicket strat tk) (\<lambda>resolved. case resolved of
            Success granted \<Rightarrow> bind (createContract granted) (\<lambda>c. return (Success c))
          | Failure requirements \<Rightarrow> return (Failure requirements)))"

text \<open>The permissions of a contract, grouped by target.\<close>

fun contract_grants :: "string list obj \<Rightarrow> contract_permission list \<Rightarrow> error + string list obj" where
  "contract_grants m [] = Inr m"
| "contract_grants m (p # ps) =
     (case switchODRLandCSSPermission (cp_action p) of Inl e \<Rightarrow> Inl e
      | Inr sc \<Rightarrow> contract_grants (obj_set (cp_target p)
          ((case obj_get m (cp_target p) of None \<Rightarrow> [] | Some scopes \<Rightarrow> scopes) @ [sc]) m) ps)"

definition toResponse :: "token_ops \<Rightarrow> contract \<Rightarrow> ticket \<Rightarrow> dialog_output dialog" where
  "toResponse factory c tk =
     bind (lift (contract_grants [] (ct_permissions c))) (\<lambda>m.
     bind (serialize factory \<lparr>at_permissions = map (\<lambda>(i, scopes). \<lparr>resource_id = i, resource_scopes = scopes\<rparr>) m,
         at_sub = token_sub (provided tk), at_contract = Some (encode_contract c)\<rparr>) (\<lambda>st.
     return \<lparr>do_access_token = st_token st, do_refresh_token = None, do_token_type = st_tokenType st,
       do_partial = False, do_expires_in = None, do_derivation_resource_id = None\<rparr>))"

fun request_permissions :: "js list \<Rightarrow> error + permission list" where
  "request_permissions [] = Inr []"
| "request_permissions (v # vs) =
     (case processRequestPermission v of Inl e \<Rightarrow> Inl e
      | Inr p \<Rightarrow> (case request_permissions vs of Inl e \<Rightarrow> Inl e | Inr ps \<Rightarrow> Inr (p # ps)))"

definition contract_input :: "dialog_input \<Rightarrow> error + dialog_input" where
  "contract_input input =
     (case (di_permissions input, di_permission input) of
        (None, Some (v # vs)) \<Rightarrow> (case request_permissions (v # vs) of Inl e \<Rightarrow> Inl e
            | Inr ps \<Rightarrow> Inr (input\<lparr>di_permissions := Some ps\<rparr>))
      | _ \<Rightarrow> Inr input)"

definition ContractNegotiator ::
  "verify_fun \<Rightarrow> contract list \<Rightarrow> ticketing \<Rightarrow> token_ops \<Rightarrow> dialog_input \<Rightarrow> dialog_output dialog" where
  "ContractNegotiator verify storage strat factory input =
     bind (lift (contract_input input)) (\<lambda>input.
     bind (getTicket strat input) (\<lambda>tk.
     bind (processCredentials verify strat input tk) (\<lambda>updated.
     bind (toContract storage strat updated) (\<lambda>r. case r of
        Success c \<Rightarrow> toResponse factory c updated
      | Failure requirements \<Rightarrow> denyRequest (tk\<lparr>provided := provided updated\<rparr>) requirements))))"

subsection \<open>What a contract grants\<close>

lemma never_matched: "matchContract storage p (JArr claims) \<noteq> Inr (Some c)"
  by (induction storage) (auto split: list.splits)

text \<open>
  a contract is never found again: the claim is compared as the list it is with the name of an
  assignee, so that no stored contract ever matches and every negotiation creates a new one.
\<close>

theorem contract_never_reused: "findContract storage tk \<noteq> Inr (Some c)"
  using never_matched by (auto simp: findContract_def split: option.splits list.splits)

definition grants_in :: "string list obj \<Rightarrow> (string \<times> string) set" where
  "grants_in m = {(i, sc) | i sc scopes. obj_get m i = Some scopes \<and> sc \<in> set scopes}"

lemma contract_entries_run:
  "contract_entries pairs = Inr ps \<Longrightarrow> obj_ok m \<Longrightarrow> \<exists>m'. contract_grants m ps = Inr m' \<and> obj_ok m'
     \<and> grants_in m' = grants_in m \<union> {(target, action). (action, target) \<in> set pairs}"
proof (induction pairs arbitrary: ps m)
  case (Cons pair pairs)
  obtain action target where pair: "pair = (action, target)" by fastforce
  from Cons.prems(1) obtain a rest where a: "switchODRLandCSSPermission action = Inr a"
    and rest: "contract_entries pairs = Inr rest" and ps: "ps = \<lparr>cp_action = a, cp_target = target\<rparr> # rest"
    by (auto simp: pair split: sum.splits)
  let ?m = "obj_set target ((case obj_get m target of None \<Rightarrow> [] | Some scopes \<Rightarrow> scopes) @ [action]) m"
  have again: "switchODRLandCSSPermission a = Inr action" by (rule switch_involution [OF a])
  have "grants_in ?m = insert (target, action) (grants_in m)"
    by (auto simp: grants_in_def obj_get_set split: option.splits if_splits)
  moreover obtain m' where "contract_grants ?m rest = Inr m'" "obj_ok m'"
    "grants_in m' = grants_in ?m \<union> {(target, action). (action, target) \<in> set pairs}"
    using Cons.IH [OF rest obj_ok_set [OF Cons.prems(2)]] by blast
  moreover have "contract_grants m ps = contract_grants ?m rest" by (simp add: ps again)
  ultimately show ?case by (intro exI [where x = m']) (auto simp: pair)
qed simp

lemma contract_token:
  assumes "createContract granted s = (Inr c, u)" and "toResponse factory c tk u = (Inr out, t)"
  shows "\<exists>ps st. access_of ps = access_of granted \<and> distinct (map resource_id ps)
    \<and> serialize factory \<lparr>at_permissions = ps, at_sub = token_sub (provided tk), at_contract = Some (encode_contract c)\<rparr> u
        = (Inr st, t) \<and> do_access_token out = st_token st"
proof -
  from assms(1) have "contract_entries (permission_pairs granted) = Inr (ct_permissions c)"
    by (auto simp: createContract_def bind_eq_Inr)
  from contract_entries_run [OF this, of "[]"] obtain m where m: "contract_grants [] (ct_permissions c) = Inr m" "obj_ok m"
    "grants_in m = {(target, action). (action, target) \<in> set (permission_pairs granted)}"
    by (auto simp: grants_in_def)
  let ?ps = "map (\<lambda>(i, scopes). \<lparr>resource_id = i, resource_scopes = scopes\<rparr>) m"
  have entry: "(i, scopes) \<in> set m \<longleftrightarrow> obj_get m i = Some scopes" for i scopes
    using m(2) by (simp add: obj_ok_def)
  have "access_of ?ps = grants_in m"
    by (force simp: access_of_def grants_in_def entry [symmetric])
  also have "\<dots> = access_of granted" unfolding m(3) by (auto simp: permission_pairs_def access_of_def)
  finally have access: "access_of ?ps = access_of granted" .
  have ids: "distinct (map resource_id ?ps)"
    using m(2) by (simp add: obj_ok_def comp_def case_prod_beta)
  from assms(2) m(1) obtain st where
    "serialize factory \<lparr>at_permissions = ?ps, at_sub = token_sub (provided tk), at_contract = Some (encode_contract c)\<rparr> u = (Inr st, t)"
    "do_access_token out = st_token st"
    by (auto simp: toResponse_def bind_eq_Inr)
  with access ids show ?thesis by blast
qed

text \<open>
  a token issued under a contract allows exactly what the ticket was resolved to: translating the
  scopes to ODRL actions for the contract and back loses and adds nothing, and permissions for the
  same resource are collected in one entry.
\<close>

theorem contract_token_exact:
  assumes "ContractNegotiator verify storage strat factory input s = (Inr out, t)"
  shows "\<exists>input' tk updated granted u v ps st c. contract_input input = Inr input'
    \<and> resolveTicket strat updated u = (Inr (Success granted), v)
    \<and> (\<exists>s1. getTicket strat input' s = (Inr tk, s1) \<and> processCredentials verify strat input' tk s1 = (Inr updated, u))
    \<and> access_of ps = access_of granted \<and> distinct (map resource_id ps)
    \<and> (\<exists>w. serialize factory \<lparr>at_permissions = ps, at_sub = token_sub (provided updated), at_contract = Some c\<rparr> w = (Inr st, t))
    \<and> do_access_token out = st_token st"
proof -
  have never: "findContract storage tk \<noteq> Inr (Some c)" for tk c
    using never_matched by (auto simp: findContract_def split: option.splits list.splits)
  from assms obtain input' tk s1 updated u r w where input: "contract_input input = Inr input'"
    and tk: "getTicket strat input' s = (Inr tk, s1)" "processCredentials verify strat input' tk s1 = (Inr updated, u)"
    and contract: "toContract storage strat updated u = (Inr r, w)"
    and rest: "(case r of Success c \<Rightarrow> toResponse factory c updated
      | Failure requirements \<Rightarrow> denyRequest (tk\<lparr>provided := provided updated\<rparr>) requirements) w = (Inr out, t)"
    by (auto simp: ContractNegotiator_def bind_eq_Inr)
  from rest obtain c where c: "r = Success c" "toResponse factory c updated w = (Inr out, t)"
    by (cases r) (auto simp: denyRequest_def bind_eq_Inr split: if_splits)
  have "bind (resolveTicket strat updated) (\<lambda>resolved. case resolved of
            Success granted \<Rightarrow> bind (createContract granted) (\<lambda>c. return (Success c))
          | Failure requirements \<Rightarrow> return (Failure requirements)) u = (Inr (Success c), w)"
    using contract c(1) never by (auto simp: toContract_def split: sum.splits option.splits)
  then obtain resolved v where resolved: "resolveTicket strat updated u = (Inr resolved, v)"
    and made: "(case resolved of Success granted \<Rightarrow> bind (createContract granted) (\<lambda>c. return (Success c))
          | Failure requirements \<Rightarrow> return (Failure requirements)) v = (Inr (Success c), w)"
    by (auto simp: bind_eq_Inr)
  from made obtain granted where granted: "resolved = Success granted" "createContract granted v = (Inr c, w)"
    by (cases resolved) (auto simp: bind_eq_Inr)
  from contract_token [OF granted(2) c(2)] resolved granted(1) input tk show ?thesis by blast
qed

subsection \<open>Example\<close>

definition granting :: ticketing where
  "granting = \<lparr>initializeTicket = (\<lambda>ps. return \<lparr>derivedIds = None, permissions = ps, provided = []\<rparr>),
     validateClaims = (\<lambda>tk claims. return tk), resolveTicket = (\<lambda>tk. return (Success (permissions tk)))\<rparr>"

definition contract_request :: dialog_input where
  "contract_request = empty_input\<lparr>di_permissions := Some [\<lparr>resource_id = ''x'',
     resource_scopes = [''urn:example:css:modes:read'']\<rparr>]\<rparr>"

definition plain_factory :: token_ops where
  "plain_factory = \<lparr>serialize = (\<lambda>tok. return \<lparr>st_tokenType = ''Bearer'', st_token = ''t''\<rparr>), deserialize = (\<lambda>_. throw BadRequest)\<rparr>"

lemma contract_run:
  "\<exists>out t. ContractNegotiator (\<lambda>c. throw BadRequest) [] granting plain_factory contract_request s = (Inr out, t)"
proof -
  have scopes: "switchODRLandCSSPermission ''urn:example:css:modes:read'' = Inr ''https://w3id.org/oac#read''"
    "switchODRLandCSSPermission ''https://w3id.org/oac#read'' = Inr ''urn:example:css:modes:read''" by code_simp+
  show ?thesis
    by (simp add: ContractNegotiator_def contract_input_def contract_request_def empty_input_def getTicket_def granting_def
        processCredentials_def claim_token_list_def toContract_def findContract_def createContract_def permission_pairs_def
        bind_def return_run lift_run randomUUID_run scopes toResponse_def plain_factory_def)
qed

theorem contract_token_exact_witness:
  "\<exists>ps granted updated u v. resolveTicket granting updated u = (Inr (Success granted), v) \<and> access_of ps = access_of granted"
proof -
  obtain out t where "ContractNegotiator (\<lambda>c. throw BadRequest) [] granting plain_factory contract_request ticket_state
    = (Inr out, t)" using contract_run by blast
  from contract_token_exact [OF this] show ?thesis by blast
qed

end
