(* ===== verification/HttpServer.thy ===== *)
theory HttpServer
  imports Clients
begin

text \<open>
  The layer between Node.js and the endpoints (\<open>packages/uma/src/util/http/server/\<close>,
  \<open>util/ConvertUtil.ts\<close>): routing, JSON and form bodies, error responses, and the endpoints that
  answer with fixed documents. The template library, content negotiation and the JSON parser are
  arguments; the query strings of the Node.js library are defined, on bytes.
\<close>

subsection \<open>Query strings\<close>

text \<open>\<open>querystring.unescape\<close>: a percent sign without two hexadecimal digits stays.\<close>

definition hex_number :: "char \<Rightarrow> nat option" where
  "hex_number c = (let n = of_char c :: nat in
     if 48 \<le> n \<and> n \<le> 57 then Some (n - 48)
     else if 65 \<le> n \<and> n \<le> 70 then Some (n - 55)
     else if 97 \<le> n \<and> n \<le> 102 then Some (n - 87) else None)"

fun qs_unescape :: "string \<Rightarrow> string" where
  "qs_unescape (c # a # b # s) =
     (case (if c = CHR ''%'' then (hex_number a, hex_number b) else (None, None)) of
        (Some x, Some y) \<Rightarrow> char_of (16 * x + y) # qs_unescape s
      | _ \<Rightarrow> c # qs_unescape (a # b # s))"
| "qs_unescape (c # s) = c # qs_unescape s"
| "qs_unescape [] = []"

definition plus_to_space :: "string \<Rightarrow> string" where
  "plus_to_space s = map (\<lambda>c. if c = CHR ''+'' then CHR '' '' else c) s"

text \<open>The values of a key: a string, or an array when the key occurs more than once.\<close>

definition qs_add :: "string \<times> string \<Rightarrow> js obj \<Rightarrow> js obj" where
  "qs_add = (\<lambda>(k, v) m. case obj_get m k of
      None \<Rightarrow> obj_set k (JStr v) m
    | Some (JArr vs) \<Rightarrow> obj_set k (JArr (vs @ [JStr v])) m
    | Some old \<Rightarrow> obj_set k (JArr [old, JStr v]) m)"

definition qs_pair :: "string \<Rightarrow> string \<times> string" where
  "qs_pair segment =
     (qs_unescape (plus_to_space (takeWhile (\<lambda>c. c \<noteq> CHR ''='') segment)),
      qs_unescape (plus_to_space (tl (dropWhile (\<lambda>c. c \<noteq> CHR ''='') segment))))"

text \<open>\<open>parse\<close> reads at most 1000 pairs.\<close>

definition formToJson :: "string \<Rightarrow> js" where
  "formToJson form =
     JObj (fold qs_add (take 1000 (map qs_pair (filter (\<lambda>w. w \<noteq> []) (split_on (CHR ''&'') form)))) [])"

text \<open>The text of a primitive value.\<close>

definition qs_primitive :: "js \<Rightarrow> string" where
  "qs_primitive v = (case v of JStr s \<Rightarrow> s
     | JNum n \<Rightarrow> (if n < 0 then CHR ''-'' # nat_str (nat (- n)) else nat_str (nat n))
     | JBool b \<Rightarrow> (if b then ''true'' else ''false'')
     | _ \<Rightarrow> '''')"

definition qs_fields :: "string \<times> js \<Rightarrow> string list" where
  "qs_fields = (\<lambda>(k, v). map (\<lambda>x. encodeURIComponent k @ CHR ''='' # encodeURIComponent (qs_primitive x))
     (case v of JArr vs \<Rightarrow> vs | _ \<Rightarrow> [v]))"

definition isPrimitive :: "js \<Rightarrow> bool" where
  "isPrimitive v = (case v of JStr _ \<Rightarrow> True | JNum _ \<Rightarrow> True | JBool _ \<Rightarrow> True | _ \<Rightarrow> False)"

definition form_value :: "js \<Rightarrow> bool" where
  "form_value v = (case v of JArr vs \<Rightarrow> list_all isPrimitive vs | _ \<Rightarrow> isPrimitive v)"

text \<open>Of an array \<open>Object.values\<close> are its elements, and its keys are the indices.\<close>

definition enumerable_props :: "js \<Rightarrow> js obj" where
  "enumerable_props v = (case v of JObj ps \<Rightarrow> ps
     | JArr xs \<Rightarrow> map (\<lambda>(i, x). (nat_str i, x)) (enumerate 0 xs) | _ \<Rightarrow> [])"

definition jsonToForm :: "js \<Rightarrow> error + string" where
  "jsonToForm json =
     (if \<not> is_object json then Inl PlainError
      else if \<not> list_all form_value (map snd (enumerable_props json)) then Inl PlainError
      else Inr (join_with (CHR ''&'') (concat (map qs_fields (enumerable_props json)))))"

subsection \<open>Bodies\<close>

text \<open>
  \<open>JsonFormHttpHandler\<close>: the request body is a buffer (an object, so never falsy, even when it is
  empty), or what it was parsed to; a value that is falsy leaves the buffer in place. The response
  body of a handler is a buffer or any value, a text included.
\<close>

datatype body = Buffer string | Parsed js

record http_library =
  parseContentType :: "string option \<Rightarrow> error + string"
  json_parse :: "string \<Rightarrow> error + js"
  json_stringify :: "js \<Rightarrow> string"
  parseAccept :: "string \<Rightarrow> error + (string \<times> int) list"
  getConversionTarget :: "(string \<times> int) list \<Rightarrow> (string \<times> int) list \<Rightarrow> string option"
  template_match :: "string \<Rightarrow> string \<Rightarrow> string obj option"

definition APPLICATION_JSON :: string where "APPLICATION_JSON = ''application/json''"
definition APPLICATION_LD_JSON :: string where "APPLICATION_LD_JSON = ''application/ld+json''"
definition FORM_URLENCODED :: string where "FORM_URLENCODED = ''application/x-www-form-urlencoded''"

definition parse_body :: "http_library \<Rightarrow> string option \<Rightarrow> string option \<Rightarrow> error + body option" where
  "parse_body lib contentType raw =
     (case raw of None \<Rightarrow> Inr None
      | Some data \<Rightarrow> (case parseContentType lib contentType of Inl e \<Rightarrow> Inl e
        | Inr ty \<Rightarrow>
            (case (if ty = FORM_URLENCODED then Inr (formToJson data)
                   else if ty = APPLICATION_JSON \<or> ty = APPLICATION_LD_JSON then json_parse lib data
                   else Inl UnsupportedMediaType) of
               Inl e \<Rightarrow> Inl e
             | Inr v \<Rightarrow> Inr (Some (if truthy v then Parsed v else Buffer data)))))"

record http_response_out =
  out_status :: nat
  out_headers :: "string obj"
  out_body :: "body option"

text \<open>
  The weights of the content types are in thousandths. With a content type given by the handler a
  text is written as it is, and a value of another kind stays where it was; without a content type
  the value is converted.
\<close>

definition falsy_body :: "body \<Rightarrow> bool" where
  "falsy_body b = (case b of Buffer s \<Rightarrow> False | Parsed v \<Rightarrow> \<not> truthy v)"

definition convert_body :: "http_library \<Rightarrow> string option \<Rightarrow> body \<Rightarrow> error + (string \<times> string)" where
  "convert_body lib accept v =
     (case (case accept of None \<Rightarrow> Inr [] | Some a \<Rightarrow> if truthy_str a then parseAccept lib a else Inr []) of
        Inl e \<Rightarrow> Inl e
      | Inr preferences \<Rightarrow>
         (case getConversionTarget lib [(APPLICATION_JSON, 1000), (FORM_URLENCODED, 900)] preferences of
            None \<Rightarrow> Inl NotImplemented
          | Some ty \<Rightarrow>
              if \<not> truthy_str ty then Inl NotImplemented
              else (let json = (case v of Buffer s \<Rightarrow> JStr s | Parsed j \<Rightarrow> j) in
                if ty = APPLICATION_JSON then Inr (ty, json_stringify lib json)
                else (case jsonToForm json of Inl e \<Rightarrow> Inl e | Inr s \<Rightarrow> Inr (ty, s)))))"

definition JsonFormHttpHandler_response ::
  "http_library \<Rightarrow> string option \<Rightarrow> http_response_out \<Rightarrow> error + http_response_out" where
  "JsonFormHttpHandler_response lib accept resp =
     (case out_body resp of None \<Rightarrow> Inr resp
      | Some b \<Rightarrow>
          if falsy_body b then Inr resp
          else if truthy_opt (obj_get (out_headers resp) ''content-type'')
          then Inr (case b of Parsed (JStr s) \<Rightarrow> resp\<lparr>out_body := Some (Buffer s)\<rparr> | _ \<Rightarrow> resp)
          else (case convert_body lib accept b of Inl e \<Rightarrow> Inl e
            | Inr (ty, data) \<Rightarrow> Inr (resp\<lparr>out_body := Some (Buffer data),
                out_headers := obj_set ''content-type'' ty (out_headers resp)\<rparr>)))"

definition JsonFormHttpHandler ::
  "http_library \<Rightarrow> (body option \<Rightarrow> ('s, http_response_out) act) \<Rightarrow> string option \<Rightarrow> string option \<Rightarrow> string option
     \<Rightarrow> ('s, http_response_out) act" where
  "JsonFormHttpHandler lib handler contentType accept raw =
     bind (lift (parse_body lib contentType raw)) (\<lambda>b.
     bind (handler b) (\<lambda>resp.
     lift (JsonFormHttpHandler_response lib accept resp)))"

subsection \<open>Routing\<close>

text \<open>\<open>RoutedHttpRequestHandler\<close>: \<open>'h\<close> is the type of the handlers.\<close>

record 'h http_route =
  route_path :: string
  route_handler :: 'h
  route_methods :: "string list option"

fun find_route :: "http_library \<Rightarrow> bool \<Rightarrow> 'h http_route list \<Rightarrow> string \<Rightarrow> (string obj \<times> 'h http_route) option" where
  "find_route lib onlyMatchTail [] path = None"
| "find_route lib onlyMatchTail (route # routes) path =
     (case template_match lib ((if onlyMatchTail then ''{_prefix}'' else '''') @ route_path route) path of
        Some parameters \<Rightarrow> Some (parameters, route)
      | None \<Rightarrow> find_route lib onlyMatchTail routes path)"

definition Routed_canHandle ::
  "http_library \<Rightarrow> bool \<Rightarrow> 'h http_route list \<Rightarrow> string \<Rightarrow> string \<Rightarrow> error + string obj \<times> 'h http_route" where
  "Routed_canHandle lib onlyMatchTail routes method path =
     (case find_route lib onlyMatchTail routes path of
        None \<Rightarrow> Inl NotImplemented
      | Some (parameters, route) \<Rightarrow>
          if (case route_methods route of None \<Rightarrow> False | Some methods \<Rightarrow> method \<notin> set methods)
          then Inl MethodNotAllowed else Inr (parameters, route))"

definition merge_parameters :: "string obj \<Rightarrow> string obj \<Rightarrow> string obj" where
  "merge_parameters old new = fold (\<lambda>(k, v). obj_set k v) new old"

definition RoutedHttpRequestHandler ::
  "http_library \<Rightarrow> bool \<Rightarrow> (request \<Rightarrow> ('s, 'r) act) http_route list \<Rightarrow> (request \<Rightarrow> string) \<Rightarrow> request \<Rightarrow> ('s, 'r) act" where
  "RoutedHttpRequestHandler lib onlyMatchTail routes pathname req =
     bind (lift (Routed_canHandle lib onlyMatchTail routes (req_method req) (pathname req))) (\<lambda>(parameters, route).
       route_handler route (req\<lparr>req_parameters := merge_parameters (req_parameters req) parameters\<rparr>))"

subsection \<open>Errors\<close>

text \<open>The status codes the error classes carry; a plain \<open>Error\<close> has none.\<close>

definition statusCode :: "error \<Rightarrow> nat option" where
  "statusCode e = (case e of BadRequest \<Rightarrow> Some 400 | Unauthorized \<Rightarrow> Some 401 | Forbidden \<Rightarrow> Some 403
     | NotFound \<Rightarrow> Some 404 | MethodNotAllowed \<Rightarrow> Some 405 | Conflict \<Rightarrow> Some 409 | UnsupportedMediaType \<Rightarrow> Some 415
     | InternalServer \<Rightarrow> Some 500 | NotImplemented \<Rightarrow> Some 501 | PlainError \<Rightarrow> None | NeedInfo i claims \<Rightarrow> Some 403)"

definition statusCodes :: "(nat \<times> string) list" where
  "statusCodes =
    [(400, ''Bad Request''), (401, ''Unauthorized''), (402, ''Payment Required''), (403, ''Forbidden''),
     (404, ''Not Found''), (405, ''Method Not Allowed''), (406, ''Not Acceptable''),
     (407, ''Proxy Authentication Required''), (408, ''Request Timeout''), (409, ''Conflict''), (410, ''Gone''),
     (411, ''Length Required''), (412, ''Precondition Failed''), (413, ''Payload Too Large''),
     (414, ''URI Too Long''), (415, ''Unsupported Media Type''), (416, ''Range Not Satisfiable''),
     (417, ''Expectation Failed''), (418, ''I'' @ [CHR 39] @ ''m a teapot''), (421, ''Misdirected Request''),
     (422, ''Unprocessable Entity''), (423, ''Locked''), (424, ''Failed Dependency''), (425, ''Too Early''),
     (426, ''Upgrade Required''), (428, ''Precondition required''), (429, ''Too Many Requests''),
     (431, ''Request Header Fields Too Large''), (451, ''Unavailable For Legal Reasons''),
     (500, ''Internal Server Error''), (501, ''Not Implemented''), (502, ''Bad Gateway''),
     (503, ''Service Unavailable''), (504, ''Gateway Timeout''), (505, ''HTTP Version Not Supported''),
     (506, ''Variant Also Negotiates''), (507, ''Insufficient Storage''), (508, ''Loop detected''),
     (510, ''Not Extended''), (511, ''Network Authentication Required'')]"

text \<open>The properties of an object that are \<open>undefined\<close> do not appear in its JSON.\<close>

definition js_field :: "string \<Rightarrow> js option \<Rightarrow> js obj" where
  "js_field k v = (case v of None \<Rightarrow> [] | Some x \<Rightarrow> [(k, x)])"

definition encode_claim :: "required_claim \<Rightarrow> js" where
  "encode_claim c = JObj
     (js_field ''claim_token_format'' (map_option JStr (rc_claim_token_format c))
      @ js_field ''claim_type'' (map_option JStr (rc_claim_type c))
      @ js_field ''friendly_name'' (map_option JStr (rc_friendly_name c))
      @ js_field ''issuer'' (map_option JStr (rc_issuer c))
      @ js_field ''name'' (map_option JStr (rc_name c))
      @ js_field ''derivation_resource_id'' (map_option JStr (rc_derivation_resource_id c))
      @ js_field ''resource_scopes'' (map_option (\<lambda>ss. JArr (map JStr ss)) (rc_resource_scopes c)))"

definition error_type :: "error \<Rightarrow> js option" where
  "error_type e = (case e of NeedInfo i claims \<Rightarrow> Some (JStr ''request_denied'') | _ \<Rightarrow> None)"

definition additionalParams :: "error \<Rightarrow> js obj" where
  "additionalParams e = (case e of NeedInfo i claims \<Rightarrow> [(''required_claims'', JArr (map encode_claim claims))] | _ \<Rightarrow> [])"

definition response_status :: "error \<Rightarrow> nat" where
  "response_status e = (case statusCode e of
      None \<Rightarrow> 500
    | Some code \<Rightarrow> if map_of statusCodes code = None then 500 else code)"

definition error_body :: "(error \<Rightarrow> string) \<Rightarrow> error \<Rightarrow> js" where
  "error_body message e = JObj
     ([(''status'', JNum (int (response_status e))),
       (''description'', JStr (the (map_of statusCodes (response_status e))))]
      @ js_field ''error'' (error_type e) @ [(''message'', JStr (message e))] @ additionalParams e)"

definition JsonHttpErrorHandler ::
  "http_library \<Rightarrow> (error \<Rightarrow> string) \<Rightarrow> ('s, http_response_out) act \<Rightarrow> ('s, http_response_out) act" where
  "JsonHttpErrorHandler lib message handler = catch handler (\<lambda>e. return
     \<lparr>out_status = response_status e, out_headers = [(''content-type'', ''application/json'')],
      out_body = Some (Buffer (json_stringify lib (error_body message e)))\<rparr>)"

subsection \<open>The streams\<close>

text \<open>
  \<open>NodeHttpRequestResponseHandler\<close>: whether the headers announce a body, which of the requests are
  refused, and the length header of the response (in bytes). The address comes from the target
  extractor of the community server; a value that is neither a text nor a buffer has no length.
\<close>

definition hasInputBody :: "string option \<Rightarrow> string option \<Rightarrow> string option \<Rightarrow> bool" where
  "hasInputBody contentLength contentType transferEncoding \<longleftrightarrow>
     (truthy_opt contentLength
        \<and> \<not> (list_all (\<lambda>c. c = CHR ''0'') (the contentLength) \<and> \<not> truthy_opt contentType))
     \<or> truthy_opt transferEncoding"

definition with_length :: "http_response_out \<Rightarrow> string \<Rightarrow> http_response_out" where
  "with_length resp data =
     resp\<lparr>out_headers := obj_set ''content-length'' (nat_str (length data)) (out_headers resp)\<rparr>"

definition NodeHttpRequestResponseHandler ::
  "('s, string) act \<Rightarrow> (string \<Rightarrow> string option \<Rightarrow> ('s, http_response_out) act) \<Rightarrow> string option \<Rightarrow> string obj \<Rightarrow> string
     \<Rightarrow> ('s, http_response_out) act" where
  "NodeHttpRequestResponseHandler target httpHandler method headers stream =
     (if \<not> truthy_opt method then throw BadRequest
      else bind target (\<lambda>url.
       let contentType = obj_get headers ''content-type'';
           hasBody = hasInputBody (obj_get headers ''content-length'') contentType (obj_get headers ''transfer-encoding'') in
      if hasBody \<and> \<not> truthy_opt contentType then throw BadRequest
      else bind (httpHandler url (if hasBody then Some stream else None)) (\<lambda>resp.
        case out_body resp of
          None \<Rightarrow> return resp
        | Some (Buffer data) \<Rightarrow> return (with_length resp data)
        | Some (Parsed v) \<Rightarrow> (if \<not> truthy v then return resp
            else (case v of JStr data \<Rightarrow> return (with_length resp data) | _ \<Rightarrow> throw PlainError)))))"

subsection \<open>Fixed documents\<close>

definition ConfigRequestHandler :: "(string \<Rightarrow> string \<Rightarrow> string) \<Rightarrow> string list \<Rightarrow> string \<Rightarrow> http_response_out" where
  "ConfigRequestHandler join algorithms baseUrl = \<lparr>out_status = 200, out_headers = [],
     out_body = Some (Parsed (JObj
      [(''jwks_uri'', JStr (join baseUrl ''keys'')),
       (''token_endpoint'', JStr (join baseUrl ''token'')),
       (''grant_types_supported'', JArr [JStr ''urn:ietf:params:oauth:grant-type:uma-ticket'']),
       (''issuer'', JStr baseUrl),
       (''permission_endpoint'', JStr (join baseUrl ''ticket'')),
       (''introspection_endpoint'', JStr (join baseUrl ''introspect'')),
       (''resource_registration_endpoint'', JStr (join baseUrl ''resources/'')),
       (''uma_profiles_supported'', JArr [JStr ''http://openid.net/specs/openid-connect-core-1_0.html#IDToken'']),
       (''dpop_signing_alg_values_supported'', JArr (map JStr algorithms)),
       (''response_types_supported'', JArr [JStr ''token'']),
       (''registration_endpoint'', JStr (join baseUrl ''reg/''))]))\<rparr>"

definition JwksRequestHandler :: "js \<Rightarrow> http_response_out" where
  "JwksRequestHandler key = \<lparr>out_status = 200, out_headers = [],
     out_body = Some (Parsed (JObj [(''keys'', JArr [key])]))\<rparr>"

definition ContractRequestHandler :: http_response_out where
  "ContractRequestHandler = \<lparr>out_status = 200, out_headers = [(''content-type'', ''application/trig'')],
     out_body = Some (Parsed (JStr ''<this> <is> \"the contract endpoint\".''))\<rparr>"

definition VCRequestVerificationHandler :: http_response_out where
  "VCRequestVerificationHandler = \<lparr>out_status = 200, out_headers = [(''content-type'', ''application/trig'')],
     out_body = Some (Parsed (JStr ''<this> <is> \"the vc endpoint\".''))\<rparr>"

definition DefaultRequestHandler :: http_response_out where
  "DefaultRequestHandler = \<lparr>out_status = 404, out_headers = [],
     out_body = Some (Parsed (JObj [(''status'', JNum 404), (''error'', JStr ''Not Found'')]))\<rparr>"

subsection \<open>Forms and their objects\<close>

lemma hex_number_digit: "n < 16 \<Longrightarrow> hex_number (hex_digit n) = Some n"
  by (auto simp: hex_number_def hex_digit_def Let_def)

lemma unescape_plain: "c \<noteq> CHR ''%'' \<Longrightarrow> qs_unescape (c # s) = c # qs_unescape s"
  by (cases s; cases "tl s") auto

lemma byte_digits: "of_char c div 16 < (16 :: nat) \<and> of_char c mod 16 < (16 :: nat)
    \<and> char_of (16 * (of_char c div 16) + of_char c mod 16 :: nat) = c"
proof -
  have "(of_char c :: nat) < 256" by (rule nat_of_char_less_256)
  then have "(of_char c :: nat) div 16 < 16" by (simp add: div_less_iff_less_mult)
  moreover have "(16 * (of_char c div 16) + of_char c mod 16 :: nat) = of_char c" by simp
  ultimately show ?thesis by simp
qed

lemma unescape_escape: "qs_unescape (encodeURIComponent s) = s"
proof (induction s)
  case Nil
  then show ?case by (simp add: encodeURIComponent_def)
next
  case (Cons c s)
  show ?case
  proof (cases "uri_unreserved c")
    case True
    then have "c \<noteq> CHR ''%''" by (auto simp: uri_unreserved_def is_alpha_def is_digit_def Let_def)
    with True Cons show ?thesis by (simp add: encodeURIComponent_Cons unescape_plain)
  next
    case False
    with Cons byte_digits [of c] show ?thesis
      by (simp add: encodeURIComponent_Cons hex_number_digit)
  qed
qed

text \<open>The characters that separate the parts of a form do not occur in an encoded part.\<close>

lemma hex_digit_plain: "n < 16 \<Longrightarrow> hex_digit n \<notin> {CHR ''&'', CHR ''='', CHR ''+'', CHR '':''}"
proof -
  have "\<forall>n \<in> set [0..<16]. hex_digit n \<notin> {CHR ''&'', CHR ''='', CHR ''+'', CHR '':''}" by code_simp
  then show "n < 16 \<Longrightarrow> hex_digit n \<notin> {CHR ''&'', CHR ''='', CHR ''+'', CHR '':''}" by simp
qed

lemma encoded_plain: "set (encodeURIComponent s) \<inter> {CHR ''&'', CHR ''='', CHR ''+'', CHR '':''} = {}"
proof (induction s)
  case (Cons c s)
  have "uri_unreserved c \<Longrightarrow> c \<notin> {CHR ''&'', CHR ''='', CHR ''+'', CHR '':''}"
    by (auto simp: uri_unreserved_def is_alpha_def is_digit_def Let_def)
  moreover have "hex_digit (of_char c div 16) \<notin> {CHR ''&'', CHR ''='', CHR ''+'', CHR '':''}"
    "hex_digit (of_char c mod 16) \<notin> {CHR ''&'', CHR ''='', CHR ''+'', CHR '':''}"
    by (rule hex_digit_plain, use byte_digits [of c] in blast)+
  ultimately have "set (if uri_unreserved c then [c]
      else [CHR ''%'', hex_digit (of_char c div 16), hex_digit (of_char c mod 16)]) \<inter> {CHR ''&'', CHR ''='', CHR ''+'', CHR '':''} = {}"
    by auto
  with Cons show ?case unfolding encodeURIComponent_Cons set_append by blast
qed (simp add: encodeURIComponent_def)

lemma plus_plain: "CHR ''+'' \<notin> set s \<Longrightarrow> plus_to_space s = s"
  by (auto simp: plus_to_space_def intro: map_idI)

lemma pair_of_field: "qs_pair (encodeURIComponent k @ CHR ''='' # encodeURIComponent v) = (k, v)"
proof -
  have no: "c \<noteq> CHR ''=''" if "c \<in> set (encodeURIComponent k)" for c using encoded_plain [of k] that by blast
  have "takeWhile (\<lambda>c. c \<noteq> CHR ''='') (encodeURIComponent k @ CHR ''='' # encodeURIComponent v) = encodeURIComponent k"
    by (subst takeWhile_append2) (use no in auto)
  moreover have "dropWhile (\<lambda>c. c \<noteq> CHR ''='') (encodeURIComponent k @ CHR ''='' # encodeURIComponent v)
      = CHR ''='' # encodeURIComponent v"
    by (subst dropWhile_append2) (use no in auto)
  moreover have "CHR ''+'' \<notin> set (encodeURIComponent k)" "CHR ''+'' \<notin> set (encodeURIComponent v)"
    using encoded_plain by blast+
  ultimately show ?thesis by (simp add: qs_pair_def plus_plain unescape_escape)
qed

lemma split_join: "\<forall>w \<in> set ws. c \<notin> set w \<Longrightarrow> ws \<noteq> [] \<Longrightarrow> split_on c (join_with c ws) = ws"
proof (induction ws)
  case (Cons w ws)
  then show ?case by (cases ws) (simp_all add: split_no_sep split_append_sep)
qed simp

lemma fold_qs_add:
  "distinct (map fst ps) \<Longrightarrow> fst ` set ps \<inter> fst ` set m = {} \<Longrightarrow>
     fold qs_add ps m = m @ map (map_prod id JStr) ps"
proof (induction ps arbitrary: m)
  case (Cons p ps)
  obtain k v where p: "p = (k, v)" by fastforce
  from Cons.prems have "k \<notin> fst ` set m" by (auto simp: p)
  then have "qs_add p m = m @ [(k, JStr v)]"
    by (simp add: p qs_add_def map_of_eq_None_iff [THEN iffD2]) (induction m; auto)
  with Cons show ?case by (auto simp: p)
qed simp


subsection \<open>Routes\<close>

text \<open>
  the first route whose template matches the path decides alone: its handler runs, with the
  variables of the template among the parameters, when it allows the method, and otherwise the
  request is refused with 405 whatever the routes after it allow. A path without a route is left to
  the next handler (501), and no handler runs.
\<close>

theorem first_route_decides:
  assumes "\<forall>r \<in> set before. template_match lib ((if tail then ''{_prefix}'' else '''') @ route_path r) (pathname req) = None"
  shows "RoutedHttpRequestHandler lib tail before pathname req s = (Inl NotImplemented, s)
    \<and> (template_match lib ((if tail then ''{_prefix}'' else '''') @ route_path route) (pathname req) = Some parameters \<longrightarrow>
       RoutedHttpRequestHandler lib tail (before @ route # after) pathname req s =
         (if \<forall>methods. route_methods route = Some methods \<longrightarrow> req_method req \<in> set methods
          then route_handler route (req\<lparr>req_parameters := merge_parameters (req_parameters req) parameters\<rparr>) s
          else (Inl MethodNotAllowed, s)))"
proof -
  have "find_route lib tail before (pathname req) = None"
    using assms by (induction before) auto
  moreover have "find_route lib tail (before @ rest) (pathname req) = find_route lib tail rest (pathname req)" for rest
    using assms by (induction before) auto
  ultimately show ?thesis
    by (auto simp: RoutedHttpRequestHandler_def Routed_canHandle_def bind_lift split: option.splits)
qed

subsection \<open>Errors\<close>

text \<open>
  every error of a handler becomes a response: the state stays as the handler left it, the
  status is the one of the error class (500 for an error without one), it is among the described
  ones and is repeated in the JSON body. The body never has the ticket of a \<open>NeedInfoError\<close>, so that
  a client is told the required claims without the ticket to present them with, wherever the
  error is not caught before, as in the refresh of a token.
\<close>

theorem errors_become_responses:
  assumes "handler s = (Inl e, t)"
  shows "\<exists>resp body. JsonHttpErrorHandler lib message handler s = (Inr resp, t)
    \<and> out_status resp = (case statusCode e of None \<Rightarrow> 500 | Some code \<Rightarrow> code)
    \<and> 400 \<le> out_status resp \<and> out_status resp < 600 \<and> map_of statusCodes (out_status resp) \<noteq> None
    \<and> out_body resp = Some (Buffer (json_stringify lib (JObj body)))
    \<and> obj_get body ''status'' = Some (JNum (int (out_status resp)))
    \<and> obj_get body ''ticket'' = None
    \<and> (\<forall>i claims. e = NeedInfo i claims \<longrightarrow> obj_get body ''required_claims'' = Some (JArr (map encode_claim claims)))"
proof -
  obtain body where body: "body = [(''status'', JNum (int (response_status e))),
       (''description'', JStr (the (map_of statusCodes (response_status e))))]
      @ js_field ''error'' (error_type e) @ [(''message'', JStr (message e))] @ additionalParams e" by blast
  obtain resp where resp: "resp = \<lparr>out_status = response_status e, out_headers = [(''content-type'', ''application/json'')],
      out_body = Some (Buffer (json_stringify lib (JObj body)))\<rparr>" by blast
  have status: "response_status e = (case statusCode e of None \<Rightarrow> 500 | Some code \<Rightarrow> code)
      \<and> 400 \<le> response_status e \<and> response_status e < 600 \<and> map_of statusCodes (response_status e) \<noteq> None"
    by (cases e) (simp_all add: response_status_def statusCode_def statusCodes_def)
  have "JsonHttpErrorHandler lib message handler s = (Inr resp, t)"
    using assms by (simp add: JsonHttpErrorHandler_def catch_def error_body_def resp body)
  moreover have "out_status resp = response_status e" by (simp add: resp)
  then have "out_status resp = (case statusCode e of None \<Rightarrow> 500 | Some code \<Rightarrow> code)
      \<and> 400 \<le> out_status resp \<and> out_status resp < 600 \<and> map_of statusCodes (out_status resp) \<noteq> None"
    using status by metis
  moreover have "out_body resp = Some (Buffer (json_stringify lib (JObj body)))"
    "obj_get body ''status'' = Some (JNum (int (out_status resp)))" by (simp_all add: resp body)
  moreover have "obj_get body ''ticket'' = None"
    "\<forall>i claims. e = NeedInfo i claims \<longrightarrow> obj_get body ''required_claims'' = Some (JArr (map encode_claim claims))"
    unfolding body by (cases e; simp add: js_field_def error_type_def additionalParams_def)+
  ultimately show ?thesis by blast
qed

subsection \<open>Bodies of requests\<close>

text \<open>
  only JSON and forms reach the endpoints: a request with a body of another type is refused with
  415 before a handler sees it, and what a handler gets as parsed body is the form or the JSON value
  of the bytes sent. A JSON value that is falsy (such as \<open>null\<close>) is passed on unparsed.
\<close>

theorem body_parsed:
  assumes "parse_body lib contentType (Some raw) = Inr (Some (Parsed v))"
  shows "truthy v \<and> (\<exists>ty. parseContentType lib contentType = Inr ty
    \<and> (ty = FORM_URLENCODED \<and> v = formToJson raw
       \<or> ty \<in> {APPLICATION_JSON, APPLICATION_LD_JSON} \<and> json_parse lib raw = Inr v))"
  using assms by (auto simp: parse_body_def split: if_splits sum.splits)

subsection \<open>Examples\<close>

definition example_http :: http_library where
  "example_http = \<lparr>parseContentType = (\<lambda>c. Inr (the c)), json_parse = (\<lambda>s. Inr (JStr s)), json_stringify = (\<lambda>_. ''json''),
     parseAccept = (\<lambda>_. Inr []), getConversionTarget = (\<lambda>_ _. Some APPLICATION_JSON),
     template_match = (\<lambda>template path. if template = path then Some [] else None)\<rparr>"


definition put_request :: request where
  "put_request = \<lparr>req_method = ''PUT'', req_url = ''/a'', req_body = JUndef, req_authorization = None,
     req_content_type = None, req_parameters = []\<rparr>"

theorem first_route_decides_witness:
  "\<exists>s. RoutedHttpRequestHandler example_http False
      [\<lparr>route_path = ''/a'', route_handler = (\<lambda>req. return ''a''), route_methods = Some [''GET'']\<rparr>]
      req_url (put_request) (s :: unit) = (Inl MethodNotAllowed, s)"
proof -
  let ?route = "\<lparr>route_path = ''/a'', route_handler = (\<lambda>req. return ''a''), route_methods = Some [''GET'']\<rparr>
    :: (request \<Rightarrow> (unit, string) act) http_route"
  show ?thesis
    using first_route_decides [where before = "[]" and lib = example_http and tail = False and pathname = req_url
        and req = put_request and route = ?route and parameters = "[]" and s = "()" and after = "[]"]
    by (simp add: example_http_def put_request_def)
qed

theorem errors_become_responses_witness:
  "\<exists>resp. JsonHttpErrorHandler example_http (\<lambda>_. '''') (throw NotFound) () = (Inr resp, ()) \<and> out_status resp = 404"
  using errors_become_responses [of "throw NotFound" "()" NotFound "()" example_http "\<lambda>_. ''''"]
  by (auto simp: statusCode_def)

theorem body_parsed_witness:
  "\<exists>ty. parseContentType example_http (Some APPLICATION_JSON) = Inr ty"
proof -
  have "parse_body example_http (Some APPLICATION_JSON) (Some ''x'') = Inr (Some (Parsed (JStr ''x'')))" by code_simp
  from body_parsed [OF this] show ?thesis by blast
qed

end
