(* ===== verification/Protocol.thy ===== *)
theory Protocol
  imports ResourceServer HttpServer
begin

text \<open>
  The two servers together: what the client of the resource server sends and accepts against what
  the endpoints of the authorization server accept and send. The definitions are the JSON of the
  messages between them.
\<close>

subsection \<open>Discovery\<close>

definition config_answer :: "(string \<Rightarrow> string \<Rightarrow> string) \<Rightarrow> string list \<Rightarrow> string \<Rightarrow> http_response" where
  "config_answer join algorithms baseUrl =
     (let resp = ConfigRequestHandler join algorithms baseUrl in
      \<lparr>hr_status = out_status resp, hr_json = (case out_body resp of Some (Parsed v) \<Rightarrow> Some v | _ \<Rightarrow> None)\<rparr>)"

text \<open>
  C25: the document of the configuration endpoint is one the client accepts: a client that asks for it
  gets the addresses of the endpoints under the base URL of the server, with the base URL as the
  issuer, and uses them without asking again for five minutes.
\<close>

theorem discovery_accepted:
  assumes "fetch (http_get (issuer @ UMA_DISCOVERY)) (other_side s) = (Inr (config_answer join algorithms baseUrl), a)"
    and "\<forall>c e. configCache s issuer = Some (c, e) \<longrightarrow> e \<le> rs_clock s"
  shows "\<exists>c t. fetchUmaConfig fetch issuer s = (Inr c, t) \<and> uc_issuer c = baseUrl
    \<and> uc_jwks_uri c = join baseUrl ''keys'' \<and> uc_token_endpoint c = JStr (join baseUrl ''token'')
    \<and> uc_permission_endpoint c = join baseUrl ''ticket''
    \<and> uc_introspection_endpoint c = join baseUrl ''introspect''
    \<and> uc_resource_registration_endpoint c = join baseUrl ''resources/''
    \<and> uc_registration_endpoint c = JStr (join baseUrl ''reg/'')
    \<and> configCache t issuer = Some (c, rs_clock s + 300000)"
proof -
  obtain doc where doc: "out_body (ConfigRequestHandler join algorithms baseUrl) = Some (Parsed doc)"
    "doc = (case out_body (ConfigRequestHandler join algorithms baseUrl) of Some (Parsed v) \<Rightarrow> v | _ \<Rightarrow> JUndef)"
    by (simp add: ConfigRequestHandler_def)
  have answer: "config_answer join algorithms baseUrl = \<lparr>hr_status = 200, hr_json = Some doc\<rparr>"
    using doc(1) by (simp add: config_answer_def) (simp add: ConfigRequestHandler_def)
  have present: "is_object doc" "\<not> list_ex (\<lambda>k. k \<notin> fst ` set (own_props doc)) REQUIRED_METADATA"
    "\<not> list_ex (\<lambda>k. \<not> is_string (js_prop doc k)) REQUIRED_METADATA"
    unfolding doc(2) by (simp_all add: ConfigRequestHandler_def is_object_def own_props_def REQUIRED_METADATA_def is_string_def)
  have "fetchUmaConfig fetch issuer s = requestUmaConfig fetch issuer s"
    using assms(2) by (auto simp: fetchUmaConfig_def)
  also have "\<dots> = (Inr (typed_config doc), s\<lparr>other_side := a,
      configCache := (configCache s)(issuer \<mapsto> (typed_config doc, rs_clock s + 300000))\<rparr>)"
    using assms(1) present by (simp add: requestUmaConfig_def web_fetch_def bind_def json_of_def answer return_run)
  finally have run: "fetchUmaConfig fetch issuer s = (Inr (typed_config doc), s\<lparr>other_side := a,
      configCache := (configCache s)(issuer \<mapsto> (typed_config doc, rs_clock s + 300000))\<rparr>)" .
  have "typed_config doc = \<lparr>uc_jwks_uri = join baseUrl ''keys'', uc_issuer = baseUrl,
      uc_permission_endpoint = join baseUrl ''ticket'', uc_introspection_endpoint = join baseUrl ''introspect'',
      uc_resource_registration_endpoint = join baseUrl ''resources/'', uc_token_endpoint = JStr (join baseUrl ''token''),
      uc_registration_endpoint = JStr (join baseUrl ''reg/'')\<rparr>"
    unfolding doc(2) by (simp add: ConfigRequestHandler_def typed_config_def decode_string_def)
  with run show ?thesis by auto
qed

subsection \<open>Tickets\<close>

definition mode_scopes :: "string \<Rightarrow> string list \<Rightarrow> string list" where
  "mode_scopes pe modes = List.map_filter (\<lambda>m. case toUmaScope pe m of Inr sc \<Rightarrow> sc | Inl e \<Rightarrow> None) modes"


subsection \<open>Registrations\<close>

text \<open>The answer of the registration endpoint, as the client reads it.\<close>

definition registered_answer :: "registration_body response \<Rightarrow> http_response" where
  "registered_answer resp = \<lparr>hr_status = status resp, hr_json = (case content resp of
      Registered i url \<Rightarrow> Some (JObj [(''_id'', JStr i), (''user_access_policy_uri'', JStr ''TODO: implement policy UI'')])
    | Updated i \<Rightarrow> Some (JObj [(''_id'', JStr i), (''user_access_policy_uri'', JStr ''TODO: implement policy UI'')])
    | _ \<Rightarrow> None)\<rparr>"

lemma description_typed: "reType (description_body site path parentId) ResourceDescription"
  by (cases parentId)
    (auto simp: description_body_def ResourceDescription_def relations_pattern_def is_object_def registered_scopes_def
      contains_property_def own_props_def)

lemma description_name: "rd_name (decode_description (description_body site path parentId)) = Some path
    \<and> set (rd_resource_scopes (decode_description (description_body site path parentId))) = set MODES"
  by (simp add: decode_description_def description_body_def registered_scopes_def MODES_def insert_commute)


subsection \<open>Examples\<close>

definition example_answers :: "unit fetcher" where
  "example_answers req = return (config_answer concat_url [''ES256''] ''https://as'')"

theorem discovery_accepted_witness:
  "\<exists>c t. fetchUmaConfig example_answers ''https://as'' rs_example = (Inr c, t)
     \<and> uc_permission_endpoint c = ''https://as/ticket''"
  using discovery_accepted [of example_answers "''https://as''" rs_example concat_url "[''ES256'']" "''https://as''" "()"]
  by (auto simp: example_answers_def return_run rs_example_def concat_url_def)


definition example_registration :: request where
  "example_registration = \<lparr>req_method = ''POST'', req_url = ''https://as/resources/'',
     req_body = description_body example_site ''/x'' None, req_authorization = None,
     req_content_type = Some ''application/json'', req_parameters = []\<rparr>"


end
