(* ===== verification/Accounts.thy ===== *)
theory Accounts
  imports ResourceServer HttpServer
begin

text \<open>
  The accounts of the resource server (\<open>packages/css/src/identity/\<close>, \<open>init/\<close>): the settings that
  link an account to its authorization server, the credentials generated for seeded accounts, and
  the update of all registrations of an account when its credentials change. The account, password,
  pod and resource stores of the community server, the validation of yup and base64 are arguments.
\<close>

subsection \<open>Account settings\<close>

definition ACCOUNT_SETTINGS_AUTHZ_SERVER :: string where "ACCOUNT_SETTINGS_AUTHZ_SERVER = ''authzServer''"
definition ACCOUNT_SETTINGS_AS_TOKEN :: string where "ACCOUNT_SETTINGS_AS_TOKEN = ''asToken''"
definition ACCOUNT_SETTINGS_KEYS :: string where "ACCOUNT_SETTINGS_KEYS = ''keys''"

lemma settings_distinct [simp]:
  "ACCOUNT_SETTINGS_AUTHZ_SERVER \<noteq> ACCOUNT_SETTINGS_AS_TOKEN" "ACCOUNT_SETTINGS_AS_TOKEN \<noteq> ACCOUNT_SETTINGS_AUTHZ_SERVER"
  by (simp_all add: ACCOUNT_SETTINGS_AUTHZ_SERVER_def ACCOUNT_SETTINGS_AS_TOKEN_def)

text \<open>What \<open>AccountStore\<close> promises of the settings of an account; a missing setting is \<open>undefined\<close>.\<close>

locale settings_store =
  fixes get :: "'m \<Rightarrow> string \<Rightarrow> string \<Rightarrow> js"
    and update :: "'m \<Rightarrow> string \<Rightarrow> string \<Rightarrow> js \<Rightarrow> 'm"
  assumes get_update: "get (update m a k v) a' k' = (if a' = a \<and> k' = k then v else get m a' k')"
begin

lemma get_update_same [simp]: "get (update m a k v) a k = v"
  by (simp add: get_update)

lemma get_update_account: "a' \<noteq> a \<Longrightarrow> get (update m a k v) a' k' = get m a' k'"
  by (simp add: get_update)

lemma get_update_key: "k' \<noteq> k \<Longrightarrow> get (update m a k v) a' k' = get m a' k'"
  by (simp add: get_update)

end

record 'a account_state =
  account_settings :: "string \<Rightarrow> string \<Rightarrow> js"
  umaClient :: "'a rs_state"

definition getSetting :: "'a account_state \<Rightarrow> string \<Rightarrow> string \<Rightarrow> js" where
  "getSetting s account k = account_settings s account k"

definition updateSetting :: "'a account_state \<Rightarrow> string \<Rightarrow> string \<Rightarrow> js \<Rightarrow> 'a account_state" where
  "updateSetting s account k v = s\<lparr>account_settings := (account_settings s)
     (account := (account_settings s account)(k := v))\<rparr>"

interpretation account: settings_store getSetting updateSetting
  by unfold_locales (simp add: getSetting_def updateSetting_def)

definition with_client :: "('a rs_state, 'x) act \<Rightarrow> ('a account_state, 'x) act" where
  "with_client m = (\<lambda>s. case m (umaClient s) of (r, c) \<Rightarrow> (r, s\<lparr>umaClient := c\<rparr>))"

lemma with_client_run:
  "with_client m s = (r, t) \<Longrightarrow> \<exists>c. m (umaClient s) = (r, c) \<and> t = s\<lparr>umaClient := c\<rparr>"
  by (auto simp: with_client_def split: prod.splits)

lemma getSetting_client [simp]: "getSetting (s\<lparr>umaClient := c\<rparr>) = getSetting s"
  by (intro ext) (simp add: getSetting_def)

subsection \<open>Credentials of an account\<close>

text \<open>
  An update of the registration of one resource and, for a container, of what it contains.
  \<open>updateSettings\<close> starts one for every pod and does not wait for them: they are its result here.
\<close>

record update =
  up_resource :: string
  up_issuer :: string
  up_credentials :: string
  up_previous :: "(string \<times> string) option"

definition basic_header :: "(string \<Rightarrow> string) \<Rightarrow> string \<Rightarrow> string \<Rightarrow> string" where
  "basic_header base64 i secret = ''Basic '' @ base64 (encodeURIComponent i @ CHR '':'' # encodeURIComponent secret)"

definition previous_settings :: "js \<Rightarrow> js \<Rightarrow> (string \<times> string) option" where
  "previous_settings server credentials =
     (if truthy server \<and> truthy credentials then Some (decode_string server, decode_string credentials) else None)"

definition pod_update :: "string \<Rightarrow> string \<Rightarrow> (string \<times> string) option \<Rightarrow> string \<Rightarrow> update" where
  "pod_update issuer credentials previous pod =
     \<lparr>up_resource = pod, up_issuer = issuer, up_credentials = credentials, up_previous = previous\<rparr>"

definition updateSettings ::
  "(string \<Rightarrow> string) \<Rightarrow> (string \<Rightarrow> error + string list) \<Rightarrow> string \<Rightarrow> string \<Rightarrow> string \<Rightarrow> string
     \<Rightarrow> ('a account_state, update list) act" where
  "updateSettings base64 findPods accountId i secret issuer =
     bind (gets (\<lambda>s. previous_settings (getSetting s accountId ACCOUNT_SETTINGS_AUTHZ_SERVER)
                                       (getSetting s accountId ACCOUNT_SETTINGS_AS_TOKEN))) (\<lambda>previous.
     let credentials = basic_header base64 i secret in
     bind (modify (\<lambda>s. updateSetting s accountId ACCOUNT_SETTINGS_AS_TOKEN (JStr credentials))) (\<lambda>_.
     bind (modify (\<lambda>s. updateSetting s accountId ACCOUNT_SETTINGS_AUTHZ_SERVER (JStr issuer))) (\<lambda>_.
     bind (lift (findPods accountId)) (\<lambda>pods.
     return (map (pod_update issuer credentials previous) pods)))))"

text \<open>
  \<open>interaction/PatUpdateHandler.ts\<close>: \<open>validate\<close> is the schema of the three trimmed, required
  strings, \<open>assertAccountId\<close> refuses a request without an account.
\<close>

definition PatUpdateHandler ::
  "(string option \<Rightarrow> error + string) \<Rightarrow> (js \<Rightarrow> error + string \<times> string \<times> string) \<Rightarrow> (string \<Rightarrow> string)
     \<Rightarrow> (string \<Rightarrow> error + string list) \<Rightarrow> string option \<Rightarrow> js \<Rightarrow> ('a account_state, js \<times> update list) act" where
  "PatUpdateHandler assertAccountId validate base64 findPods accountId json =
     bind (lift (assertAccountId accountId)) (\<lambda>account.
     bind (lift (validate json)) (\<lambda>(i, secret, issuer).
     bind (updateSettings base64 findPods account i secret issuer) (\<lambda>updates.
     return (JObj [], updates))))"

subsection \<open>Seeded accounts\<close>

text \<open>
  \<open>PatSeedRegistrar.ts\<close>: \<open>entries\<close> are the pairs of a WebID and its account. The loop keeps the
  WebID it used per account, and stops at the first error.
\<close>

definition seed_entry ::
  "rs_library \<Rightarrow> 'a fetcher \<Rightarrow> string \<Rightarrow> (string \<Rightarrow> string) \<Rightarrow> (string \<Rightarrow> error + string list)
     \<Rightarrow> string obj \<times> update list \<Rightarrow> string \<times> string \<Rightarrow> ('a account_state, string obj \<times> update list) act" where
  "seed_entry lib fetch baseUrl base64 findPods = (\<lambda>(accountMap, started) (webId, accountId).
     if truthy_opt (obj_get accountMap accountId) then return (accountMap, started)
     else bind (gets (\<lambda>s. getSetting s accountId ACCOUNT_SETTINGS_AS_TOKEN)) (\<lambda>tok.
       if truthy tok then return (accountMap, started)
       else bind (gets (\<lambda>s. getSetting s accountId ACCOUNT_SETTINGS_AUTHZ_SERVER)) (\<lambda>issuer.
         if \<not> truthy issuer then return (accountMap, started)
         else bind (with_client (generateClientCredentials lib fetch baseUrl webId (decode_string issuer))) (\<lambda>(i, secret).
           bind (updateSettings base64 findPods accountId (js_text lib i) (js_text lib secret) (decode_string issuer)) (\<lambda>updates.
           return (obj_set accountId webId accountMap, started @ updates))))))"

definition PatSeedRegistrar_initialize ::
  "rs_library \<Rightarrow> 'a fetcher \<Rightarrow> string \<Rightarrow> (string \<Rightarrow> string) \<Rightarrow> (string \<Rightarrow> error + string list) \<Rightarrow> (string \<times> string) list
     \<Rightarrow> ('a account_state, update list) act" where
  "PatSeedRegistrar_initialize lib fetch baseUrl base64 findPods entries =
     bind (fold_act (seed_entry lib fetch baseUrl base64 findPods) ([], []) entries) (\<lambda>(accountMap, started).
     return started)"

definition PatSeedRegistrar_changeStatus ::
  "rs_library \<Rightarrow> 'a fetcher \<Rightarrow> string \<Rightarrow> (string \<Rightarrow> string) \<Rightarrow> (string \<Rightarrow> error + string list) \<Rightarrow> (string \<times> string) list
     \<Rightarrow> bool \<Rightarrow> ('a account_state, update list) act" where
  "PatSeedRegistrar_changeStatus lib fetch baseUrl base64 findPods entries active =
     (if active then PatSeedRegistrar_initialize lib fetch baseUrl base64 findPods entries else return [])"

subsection \<open>What the registrar of seeded accounts does\<close>

definition needs_credentials :: "'a account_state \<Rightarrow> string \<Rightarrow> bool" where
  "needs_credentials s a \<longleftrightarrow> \<not> truthy (getSetting s a ACCOUNT_SETTINGS_AS_TOKEN)
     \<and> truthy (getSetting s a ACCOUNT_SETTINGS_AUTHZ_SERVER)"

definition issuer_of :: "'a account_state \<Rightarrow> string \<Rightarrow> string" where
  "issuer_of s a = decode_string (getSetting s a ACCOUNT_SETTINGS_AUTHZ_SERVER)"

definition credentials_of :: "'a account_state \<Rightarrow> string \<Rightarrow> string" where
  "credentials_of s a = decode_string (getSetting s a ACCOUNT_SETTINGS_AS_TOKEN)"

definition pods_of :: "(string \<Rightarrow> error + string list) \<Rightarrow> string \<Rightarrow> string list" where
  "pods_of findPods a = (case findPods a of Inl e \<Rightarrow> [] | Inr pods \<Rightarrow> pods)"

lemma updateSettings_Inr:
  assumes "updateSettings base64 findPods a i secret issuer s = (Inr us, t)"
  shows "findPods a = Inr (pods_of findPods a)"
    and "us = map (pod_update issuer (basic_header base64 i secret)
        (previous_settings (getSetting s a ACCOUNT_SETTINGS_AUTHZ_SERVER) (getSetting s a ACCOUNT_SETTINGS_AS_TOKEN)))
        (pods_of findPods a)"
    and "getSetting t a' k = (if a' = a \<and> k = ACCOUNT_SETTINGS_AS_TOKEN then JStr (basic_header base64 i secret)
        else if a' = a \<and> k = ACCOUNT_SETTINGS_AUTHZ_SERVER then JStr issuer else getSetting s a' k)"
    and "umaClient t = umaClient s"
proof -
  from assms obtain pods where pods: "findPods a = Inr pods"
    and us: "us = map (pod_update issuer (basic_header base64 i secret)
        (previous_settings (getSetting s a ACCOUNT_SETTINGS_AUTHZ_SERVER) (getSetting s a ACCOUNT_SETTINGS_AS_TOKEN))) pods"
    and t: "t = updateSetting (updateSetting s a ACCOUNT_SETTINGS_AS_TOKEN (JStr (basic_header base64 i secret)))
      a ACCOUNT_SETTINGS_AUTHZ_SERVER (JStr issuer)"
    by (auto simp: updateSettings_def Let_def bind_eq_Inr)
  then show "findPods a = Inr (pods_of findPods a)"
    and "us = map (pod_update issuer (basic_header base64 i secret)
        (previous_settings (getSetting s a ACCOUNT_SETTINGS_AUTHZ_SERVER) (getSetting s a ACCOUNT_SETTINGS_AS_TOKEN)))
        (pods_of findPods a)" by (simp_all add: pods_of_def)
  from t show "getSetting t a' k = (if a' = a \<and> k = ACCOUNT_SETTINGS_AS_TOKEN then JStr (basic_header base64 i secret)
      else if a' = a \<and> k = ACCOUNT_SETTINGS_AUTHZ_SERVER then JStr issuer else getSetting s a' k)"
    by (simp add: account.get_update)
  from t show "umaClient t = umaClient s" by (simp add: updateSetting_def)
qed

lemma seed_entry_run:
  assumes "seed_entry lib fetch baseUrl base64 findPods (m, l) (w, a) s = (Inr (m', l'), t)"
    and "\<forall>b. truthy_opt (obj_get m b) \<longrightarrow> truthy (getSetting s b ACCOUNT_SETTINGS_AS_TOKEN)"
  obtains (skipped) "\<not> needs_credentials s a" "m' = m" "l' = l" "t = s"
  | (seeded) i secret where "needs_credentials s a" "m' = obj_set a w m"
      "l' = l @ map (pod_update (issuer_of s a) (credentials_of t a) None) (pods_of findPods a)"
      "getSetting t a ACCOUNT_SETTINGS_AS_TOKEN = JStr (basic_header base64 i secret)"
      "getSetting t a ACCOUNT_SETTINGS_AUTHZ_SERVER = JStr (issuer_of s a)"
      "\<And>b. b \<noteq> a \<Longrightarrow> getSetting t b = getSetting s b"
proof (cases "needs_credentials s a")
  case False
  with assms show ?thesis
    by (intro skipped) (auto simp: seed_entry_def needs_credentials_def split: if_splits)
next
  case True
  let ?iss = "issuer_of s a"
  from True assms(2) have "\<not> truthy_opt (obj_get m a)" by (auto simp: needs_credentials_def)
  with True assms(1) obtain i secret u us where
    client: "with_client (generateClientCredentials lib fetch baseUrl w ?iss) s = (Inr (i, secret), u)"
    and settings: "updateSettings base64 findPods a (js_text lib i) (js_text lib secret) ?iss u = (Inr us, t)"
    and res: "m' = obj_set a w m" "l' = l @ us"
    by (auto simp: seed_entry_def needs_credentials_def issuer_of_def bind_eq_Inr)
  from with_client_run [OF client] have "getSetting u = getSetting s" by auto
  with updateSettings_Inr [OF settings] True res show ?thesis
    by (intro seeded) (auto simp: previous_settings_def needs_credentials_def credentials_of_def decode_string_def)
qed

definition seeded_as :: "(string \<Rightarrow> string) \<Rightarrow> (string \<Rightarrow> error + string list) \<Rightarrow> 'a account_state \<Rightarrow> 'a account_state
    \<Rightarrow> string list \<Rightarrow> update list \<Rightarrow> bool" where
  "seeded_as base64 findPods s t accounts started \<longleftrightarrow> distinct accounts
     \<and> started = concat (map (\<lambda>a. map (pod_update (issuer_of s a) (credentials_of t a) None) (pods_of findPods a)) accounts)
     \<and> (\<forall>a \<in> set accounts. (\<exists>i secret. getSetting t a ACCOUNT_SETTINGS_AS_TOKEN = JStr (basic_header base64 i secret))
          \<and> getSetting t a ACCOUNT_SETTINGS_AUTHZ_SERVER = JStr (issuer_of s a))
     \<and> (\<forall>a. a \<notin> set accounts \<longrightarrow> getSetting t a = getSetting s a)"

lemma seeded_as_Cons:
  assumes "seeded_as base64 findPods u t accounts started" and "a \<notin> set accounts"
    and "getSetting u a ACCOUNT_SETTINGS_AS_TOKEN = JStr (basic_header base64 i secret)"
    and "getSetting u a ACCOUNT_SETTINGS_AUTHZ_SERVER = JStr (issuer_of s a)"
    and "\<And>b. b \<noteq> a \<Longrightarrow> getSetting u b = getSetting s b"
  shows "seeded_as base64 findPods s t (a # accounts)
    (map (pod_update (issuer_of s a) (credentials_of u a) None) (pods_of findPods a) @ started)"
proof -
  have same: "getSetting t a = getSetting u a" using assms(1,2) by (simp add: seeded_as_def)
  have iss: "issuer_of u b = issuer_of s b" if "b \<in> set accounts" for b
    using assms(2,5) that by (metis issuer_of_def)
  have maps: "map (\<lambda>b. map (pod_update (issuer_of u b) (credentials_of t b) None) (pods_of findPods b)) accounts
      = map (\<lambda>b. map (pod_update (issuer_of s b) (credentials_of t b) None) (pods_of findPods b)) accounts"
    by (rule map_cong) (simp_all add: iss)
  have "credentials_of u a = credentials_of t a" by (simp add: credentials_of_def same)
  with assms same iss show ?thesis
    unfolding seeded_as_def by (simp add: maps) blast
qed

lemma seed_entries_run:
  assumes "fold_act (seed_entry lib fetch baseUrl base64 findPods) (m, l) entries s = (Inr (m', l'), t)"
    and "\<forall>b. truthy_opt (obj_get m b) \<longrightarrow> truthy (getSetting s b ACCOUNT_SETTINGS_AS_TOKEN)"
  shows "\<exists>accounts started. l' = l @ started \<and> set accounts = {a \<in> snd ` set entries. needs_credentials s a}
    \<and> seeded_as base64 findPods s t accounts started"
  using assms
proof (induction entries arbitrary: m l s)
  case Nil
  then show ?case by (intro exI [where x = "[]"]) (auto simp: seeded_as_def)
next
  case (Cons entry entries)
  obtain w a where entry: "entry = (w, a)" by fastforce
  from Cons.prems(1) obtain m1 l1 u where
    first: "seed_entry lib fetch baseUrl base64 findPods (m, l) (w, a) s = (Inr (m1, l1), u)"
    and rest: "fold_act (seed_entry lib fetch baseUrl base64 findPods) (m1, l1) entries u = (Inr (m', l'), t)"
    by (auto simp: entry bind_eq_Inr)
  from first Cons.prems(2) show ?case
  proof (cases rule: seed_entry_run)
    case skipped
    from Cons.IH [OF rest [unfolded skipped] Cons.prems(2)] skipped(1) show ?thesis
      by (auto simp: entry)
  next
    case (seeded i secret)
    have token: "truthy (getSetting u a ACCOUNT_SETTINGS_AS_TOKEN)" by (simp add: seeded(4) basic_header_def)
    have "\<forall>b. truthy_opt (obj_get m1 b) \<longrightarrow> truthy (getSetting u b ACCOUNT_SETTINGS_AS_TOKEN)"
      using Cons.prems(2) seeded(2,6) token by (metis obj_get_set)
    from Cons.IH [OF rest this] obtain accounts started where l': "l' = l1 @ started"
      and accounts: "set accounts = {a \<in> snd ` set entries. needs_credentials u a}"
      and ok: "seeded_as base64 findPods u t accounts started" by blast
    have a: "a \<notin> set accounts" using token accounts by (simp add: needs_credentials_def)
    have others: "needs_credentials u b = needs_credentials s b" if "b \<noteq> a" for b
      using seeded(6) [OF that] by (simp add: needs_credentials_def)
    have "needs_credentials s b \<longleftrightarrow> b = a \<or> needs_credentials u b" for b
      using seeded(1) others by (cases "b = a") auto
    with accounts have "set (a # accounts) = {b \<in> snd ` set (entry # entries). needs_credentials s b}"
      by (auto simp: entry)
    moreover note seeded_as_Cons [OF ok a seeded(4-6)]
    ultimately show ?thesis using l' seeded(3)
      by (intro exI [where x = "a # accounts"] exI conjI) (simp_all add: append_assoc)
  qed
qed

text \<open>
  when the registration of the seeded accounts succeeds, exactly the accounts with a WebID and an
  issuer but without credentials have got credentials, once each, however many WebIDs an account
  has; their issuer and the settings of all other accounts stay, and one update starts for every
  pod of these accounts, with the new credentials and without a previous registration to remove.
\<close>

theorem seeded_accounts_get_credentials:
  assumes "PatSeedRegistrar_initialize lib fetch baseUrl base64 findPods entries s = (Inr started, t)"
  shows "\<exists>accounts. distinct accounts \<and> set accounts = {a \<in> snd ` set entries. needs_credentials s a}
    \<and> started = concat (map (\<lambda>a. map (pod_update (issuer_of s a) (credentials_of t a) None) (pods_of findPods a)) accounts)
    \<and> (\<forall>a \<in> set accounts. (\<exists>i secret. getSetting t a ACCOUNT_SETTINGS_AS_TOKEN = JStr (basic_header base64 i secret))
         \<and> getSetting t a ACCOUNT_SETTINGS_AUTHZ_SERVER = JStr (issuer_of s a))
    \<and> (\<forall>a. a \<notin> set accounts \<longrightarrow> getSetting t a = getSetting s a)"
proof -
  from assms obtain m where
    "fold_act (seed_entry lib fetch baseUrl base64 findPods) ([], []) entries s = (Inr (m, started), t)"
    by (auto simp: PatSeedRegistrar_initialize_def bind_eq_Inr)
  from seed_entries_run [OF this] show ?thesis by (auto simp: seeded_as_def)
qed

subsection \<open>Credentials are accepted\<close>

lemma encoded_no_colon: "CHR '':'' \<notin> set (encodeURIComponent s)"
  using encoded_plain [of s] by blast

lemma basic_header_read:
  assumes "base64_text ba (base64 (encodeURIComponent i @ CHR '':'' # encodeURIComponent secret))
      = encodeURIComponent i @ CHR '':'' # encodeURIComponent secret"
    and "CHR '' '' \<notin> set (base64 (encodeURIComponent i @ CHR '':'' # encodeURIComponent secret))"
    and "\<forall>x. decodeURIComponent w (encodeURIComponent x) = Some x"
  shows "basic_credentials w ba (basic_header base64 i secret) = Inr (i, secret)"
proof -
  let ?b = "base64 (encodeURIComponent i @ CHR '':'' # encodeURIComponent secret)"
  have "split_on (CHR '' '') (''Basic'' @ CHR '' '' # ?b) = ''Basic'' # split_on (CHR '' '') ?b"
    by (rule split_append_sep) simp
  then have "split_on (CHR '' '') (basic_header base64 i secret) = [''Basic'', ?b]"
    using split_no_sep [OF assms(2)] by (simp add: basic_header_def)
  then show ?thesis
    using assms(1,3) split_append_sep [OF encoded_no_colon, of i] split_no_sep [OF encoded_no_colon, of secret]
    by (simp add: basic_credentials_def)
qed

text \<open>
  C35: the header the resource server stores for an account is the one the authorization server takes
  for the client it registered: whatever characters the identifier and the secret have, the client
  found by the header is exactly the client they belong to. The hypotheses are that base64 decodes
  what it encodes and has no spaces, and that percent-decoding undoes percent-encoding.
\<close>

theorem stored_credentials_accepted:
  assumes "\<forall>x. base64_text ba (base64 x) = x \<and> CHR '' '' \<notin> set (base64 x)"
    and "\<forall>x. decodeURIComponent w (encodeURIComponent x) = Some x"
    and "is_basic ba (basic_header base64 (cr_clientId c) (cr_clientSecret c))"
    and "clients_ok s" and "c \<in> set (clientTable s)"
  shows "findRegistration w ba (Some (basic_header base64 (cr_clientId c) (cr_clientSecret c))) s = (Inr c, s)"
proof -
  have "\<exists>rs. tbl_find (\<lambda>c'. cr_clientId c' = cr_clientId c \<and> cr_clientSecret c' = cr_clientSecret c) (clientTable s) = c # rs"
    by (rule client_table.find_unique [OF assms(5)])
      (use assms(4,5) in \<open>auto simp: clients_ok_def distinct_map dest: inj_onD\<close>)
  with assms(1-3) show ?thesis
    by (auto simp: findRegistration_def bind_lift basic_header_read)
qed

subsection \<open>Examples\<close>

definition seeded_state :: "unit account_state" where
  "seeded_state = \<lparr>account_settings = (\<lambda>a k. if k = ACCOUNT_SETTINGS_AUTHZ_SERVER \<and> a = ''acc'' then JStr ''as'' else JUndef),
     umaClient = rs_example\<rparr>"

theorem seeded_accounts_get_credentials_witness:
  "\<exists>i secret. getSetting (snd (PatSeedRegistrar_initialize example_rs_library (example_server 201) ''https://rs'' encodeURIComponent
      (\<lambda>_. Inr [''/pod/'']) [(''w1'', ''acc''), (''w2'', ''acc'')] seeded_state)) ''acc'' ACCOUNT_SETTINGS_AS_TOKEN
    = JStr (basic_header encodeURIComponent i secret)"
proof -
  have "fst (PatSeedRegistrar_initialize example_rs_library (example_server 201) ''https://rs'' encodeURIComponent
      (\<lambda>_. Inr [''/pod/'']) [(''w1'', ''acc''), (''w2'', ''acc'')] seeded_state)
    = Inr [pod_update ''as'' (basic_header encodeURIComponent '''' '''') None ''/pod/'']"
    by code_simp
  from seeded_accounts_get_credentials [OF run_fst [OF this]] obtain accounts where
    "set accounts = {a \<in> snd ` set [(''w1'', ''acc''), (''w2'', ''acc'')]. needs_credentials seeded_state a}"
    and "\<forall>a \<in> set accounts. \<exists>i secret. getSetting (snd (PatSeedRegistrar_initialize example_rs_library (example_server 201)
      ''https://rs'' encodeURIComponent (\<lambda>_. Inr [''/pod/'']) [(''w1'', ''acc''), (''w2'', ''acc'')] seeded_state)) a
      ACCOUNT_SETTINGS_AS_TOKEN = JStr (basic_header encodeURIComponent i secret)" by blast
  moreover have "needs_credentials seeded_state ''acc''" by code_simp
  ultimately show ?thesis by simp
qed

theorem stored_credentials_accepted_witness:
  "findRegistration (example_web\<lparr>decodeURIComponent := \<lambda>x. Some (qs_unescape x)\<rparr>)
      \<lparr>is_basic = starts_with ''Basic '', base64_text = qs_unescape\<rparr>
      (Some (basic_header encodeURIComponent ''rs'' ''secret'')) client_state = (Inr example_client, client_state)"
proof -
  have "CHR '' '' \<notin> set (encodeURIComponent x)" for x
    using encodeURIComponent_no_space [of x] by (auto simp: list_all_iff is_space_def)
  moreover have "clients_ok client_state" by (simp add: clients_ok_def client_state_def example_client_def example_pat_def)
  moreover have "starts_with ''Basic '' (basic_header encodeURIComponent ''rs'' ''secret'')"
    by (simp add: basic_header_def starts_with_def)
  ultimately show ?thesis
    using stored_credentials_accepted [of "\<lparr>is_basic = starts_with ''Basic '', base64_text = qs_unescape\<rparr>" encodeURIComponent
        "example_web\<lparr>decodeURIComponent := \<lambda>x. Some (qs_unescape x)\<rparr>" example_client client_state]
    by (simp add: unescape_escape client_state_def example_client_def)
qed

end
