(* ===== verification/Startup.thy ===== *)
theory Startup
  imports Accounts
begin

text \<open>
  What runs when the resource server starts (\<open>packages/css/src/init/\<close>, \<open>server/middleware/\<close>,
  \<open>util/fetch/\<close>): the accounts of the seed file, the empty container, the listeners that follow
  the state of the server, the waiting times of the retrying fetcher and the key document. The
  stores of the community server and the schema of the seed file are arguments.
\<close>

subsection \<open>Seeded accounts\<close>

record seed_account =
  sa_email :: string
  sa_password :: string
  sa_authz :: "(string \<times> string option) option"
  sa_keys :: "string list option"
  sa_pods :: "(string \<times> js) list"

record 's seed_stores =
  account_create :: "('s, string) act"
  account_update :: "string \<Rightarrow> string \<Rightarrow> js \<Rightarrow> ('s, unit) act"
  password_create :: "string \<Rightarrow> string \<Rightarrow> string \<Rightarrow> ('s, string) act"
  password_confirm :: "string \<Rightarrow> ('s, unit) act"
  pod_create :: "string \<Rightarrow> string \<Rightarrow> js \<Rightarrow> js \<Rightarrow> ('s, unit) act"

text \<open>The counters live outside of the \<open>try\<close> block: what was counted before a failure stays.\<close>

record 's seeding =
  stores :: 's
  accountCount :: nat
  podCount :: nat

definition in_stores :: "('s, 'x) act \<Rightarrow> ('s seeding, 'x) act" where
  "in_stores m = (\<lambda>s. case m (stores s) of (r, t) \<Rightarrow> (r, s\<lparr>stores := t\<rparr>))"

definition seed_authz :: "'s seed_stores \<Rightarrow> string \<Rightarrow> (string \<times> string option) option \<Rightarrow> ('s seeding, unit) act" where
  "seed_authz ops accountId authz = (case authz of None \<Rightarrow> return ()
     | Some (server, credentials) \<Rightarrow>
         bind (in_stores (account_update ops accountId ACCOUNT_SETTINGS_AUTHZ_SERVER (JStr server))) (\<lambda>_.
         if truthy_opt credentials
         then in_stores (account_update ops accountId ACCOUNT_SETTINGS_AS_TOKEN (JStr (the credentials)))
         else return ()))"

definition seed_pod :: "'s seed_stores \<Rightarrow> string \<Rightarrow> unit \<Rightarrow> string \<times> js \<Rightarrow> ('s seeding, unit) act" where
  "seed_pod ops accountId = (\<lambda>_ (name, settings).
     bind (in_stores (pod_create ops accountId name (js_prop settings ''webId'') settings)) (\<lambda>_.
     modify (\<lambda>s. s\<lparr>podCount := podCount s + 1\<rparr>)))"

definition seed_account_steps :: "'s seed_stores \<Rightarrow> seed_account \<Rightarrow> ('s seeding, unit) act" where
  "seed_account_steps ops a =
     bind (in_stores (account_create ops)) (\<lambda>accountId.
     bind (case sa_keys a of None \<Rightarrow> return ()
       | Some keys \<Rightarrow> in_stores (account_update ops accountId ACCOUNT_SETTINGS_KEYS (JArr (map JStr keys)))) (\<lambda>_.
     bind (seed_authz ops accountId (sa_authz a)) (\<lambda>_.
     bind (in_stores (password_create ops (sa_email a) accountId (sa_password a))) (\<lambda>i.
     bind (in_stores (password_confirm ops i)) (\<lambda>_.
     bind (modify (\<lambda>s. s\<lparr>accountCount := accountCount s + 1\<rparr>)) (\<lambda>_.
     fold_act (seed_pod ops accountId) () (sa_pods a)))))))"

definition seed_one :: "'s seed_stores \<Rightarrow> unit \<Rightarrow> seed_account \<Rightarrow> ('s seeding, unit) act" where
  "seed_one ops = (\<lambda>_ a. catch (seed_account_steps ops a) (\<lambda>_. return ()))"

text \<open>\<open>read_config\<close> reads and validates the seed file.\<close>

definition UmaSeededAccountInitializer ::
  "'s seed_stores \<Rightarrow> (string \<Rightarrow> error + seed_account list) \<Rightarrow> string option \<Rightarrow> ('s seeding, unit) act" where
  "UmaSeededAccountInitializer ops read_config configFilePath =
     (if \<not> truthy_opt configFilePath then return ()
      else (case read_config (the configFilePath) of Inl e \<Rightarrow> throw PlainError
        | Inr configuration \<Rightarrow> fold_act (seed_one ops) () configuration))"

subsection \<open>The empty container\<close>

definition EmptyContainerInitializer_id ::
  "(string \<Rightarrow> string \<Rightarrow> string) \<Rightarrow> (string \<Rightarrow> string) \<Rightarrow> string \<Rightarrow> string \<Rightarrow> error + string" where
  "EmptyContainerInitializer_id join ensureTrailingSlash baseUrl container =
     (if container = [] \<or> last container \<noteq> CHR ''/'' then Inl PlainError
      else Inr (ensureTrailingSlash (join baseUrl container)))"

definition EmptyContainerInitializer ::
  "(string \<Rightarrow> ('s, bool) act) \<Rightarrow> (string \<Rightarrow> ('s, unit) act) \<Rightarrow> string \<Rightarrow> ('s, unit) act" where
  "EmptyContainerInitializer hasResource setEmpty containerId =
     bind (hasResource containerId) (\<lambda>exists. if exists then return () else setEmpty containerId)"

subsection \<open>The server and its keys\<close>

text \<open>\<open>StatusDependantServerConfigurator.ts\<close>: the calls an event of the server causes, in order.\<close>

definition event_statuses :: "'t obj \<Rightarrow> 'd list \<Rightarrow> string \<Rightarrow> ('d \<times> 't) list" where
  "event_statuses statusMap dependants event =
     (case obj_get statusMap event of None \<Rightarrow> [] | Some v \<Rightarrow> map (\<lambda>d. (d, v)) dependants)"

definition JwksHandler :: "http_library \<Rightarrow> js obj \<Rightarrow> string \<Rightarrow> http_response_out" where
  "JwksHandler lib key meth = \<lparr>out_status = 200, out_headers = [(''content-type'', ''application/json'')],
     out_body = (if meth = ''HEAD'' then None
       else Some (Buffer (json_stringify lib (JObj [(''keys'', JArr [JObj (obj_set ''kid'' (JStr ''TODO'') key)])]))))\<rparr>"

subsection \<open>Waiting times\<close>

text \<open>
  \<open>RetryingFetcher.ts\<close>: the wait before the retry after an attempt, attempts counted from 0, in
  milliseconds. \<open>timer\<close> is \<open>setTimeout\<close> of Node.js, whose delays are 32-bit: one that is greater
  than 2147483647 or less than 1 becomes 1.
\<close>

definition retryDelay :: "nat \<Rightarrow> nat \<Rightarrow> nat" where
  "retryDelay exponent attempt = exponent ^ attempt * 1000"

definition timer :: "nat \<Rightarrow> nat" where
  "timer delay = (if delay > 2147483647 \<or> delay < 1 then 1 else delay)"

definition retry_waits :: "nat \<Rightarrow> nat \<Rightarrow> nat list" where
  "retry_waits exponent retries = map (\<lambda>attempt. timer (retryDelay exponent attempt)) [0..<retries]"

subsection \<open>What holds at the start\<close>

lemma in_stores_counts:
  "in_stores m s = (r, t) \<Longrightarrow> accountCount t = accountCount s \<and> podCount t = podCount s"
  by (auto simp: in_stores_def split: prod.splits)

text \<open>At most \<open>m\<close> accounts and \<open>n\<close> pods more than before.\<close>

definition counted :: "nat \<Rightarrow> nat \<Rightarrow> 's seeding \<Rightarrow> 's seeding \<Rightarrow> bool" where
  "counted m n s t \<longleftrightarrow> accountCount s \<le> accountCount t \<and> accountCount t \<le> accountCount s + m
     \<and> podCount s \<le> podCount t \<and> podCount t \<le> podCount s + n"

lemma counted_refl: "counted m n s s"
  by (simp add: counted_def)

lemma counted_trans: "counted m n s t \<Longrightarrow> counted m' n' t u \<Longrightarrow> counted (m + m') (n + n') s u"
  by (auto simp: counted_def)

lemma counted_mono: "counted m n s t \<Longrightarrow> m \<le> m' \<Longrightarrow> n \<le> n' \<Longrightarrow> counted m' n' s t"
  by (auto simp: counted_def)

lemma counted_stores: "in_stores m s = (r, t) \<Longrightarrow> counted 0 0 s t"
  by (auto simp: counted_def dest: in_stores_counts)

lemma counted_bind:
  assumes "bind m f s = (r, t)" and "\<And>x u. m s = (x, u) \<Longrightarrow> counted m0 n0 s u"
    and "\<And>x u. f x u = (r, t) \<Longrightarrow> counted m1 n1 u t"
  shows "counted (m0 + m1) (n0 + n1) s t"
  using assms(1)
proof (cases rule: bind_cases)
  case (raised e)
  from counted_mono [OF assms(2) [OF raised(1)]] show ?thesis by simp
next
  case (returned x u)
  from counted_trans [OF assms(2) [OF returned(1)] assms(3) [OF returned(2)]] show ?thesis .
qed

lemma seed_pod_counted: "seed_pod ops i u p s = (r, t) \<Longrightarrow> counted 0 1 s t"
  unfolding seed_pod_def case_prod_beta
  by (drule counted_bind [where ?m0.0 = 0 and ?n0.0 = 0 and ?m1.0 = 0 and ?n1.0 = 1])
    (auto simp: counted_def dest: in_stores_counts)

lemma seed_pods_counted: "fold_act (seed_pod ops i) u ps s = (r, t) \<Longrightarrow> counted 0 (length ps) s t"
proof (induction ps arbitrary: u s)
  case (Cons p ps)
  from Cons.prems have "bind (seed_pod ops i u p) (\<lambda>u'. fold_act (seed_pod ops i) u' ps) s = (r, t)" by simp
  from counted_bind [OF this] seed_pod_counted Cons.IH have "counted (0 + 0) (1 + length ps) s t" by blast
  then show ?case by simp
qed (auto simp: counted_refl)

lemma seed_authz_counted: "seed_authz ops i authz s = (r, t) \<Longrightarrow> counted 0 0 s t"
  unfolding seed_authz_def
  by (auto simp: counted_refl split: option.splits if_splits elim!: bind_cases dest!: counted_stores)
    (auto simp: counted_def)

lemma seed_account_counted:
  assumes "seed_account_steps ops a s = (r, t)"
  shows "counted 1 (length (sa_pods a)) s t"
proof -
  have pods: "bind (modify (\<lambda>s. s\<lparr>accountCount := accountCount s + 1\<rparr>)) (\<lambda>_. fold_act (seed_pod ops i) () (sa_pods a)) u = (r, t)
      \<Longrightarrow> counted (1 + 0) (0 + length (sa_pods a)) u t" for i u
    by (auto simp: counted_def dest!: seed_pods_counted)
  have "counted (0 + (0 + (0 + (0 + (0 + (1 + 0)))))) (0 + (0 + (0 + (0 + (0 + (0 + length (sa_pods a))))))) s t"
    using assms unfolding seed_account_steps_def
    by (elim counted_bind)
      (auto simp: counted_refl counted_def [of "Suc 0"] intro: pods seed_pods_counted
        dest: counted_stores seed_authz_counted split: option.splits)
  then show ?thesis by simp
qed

text \<open>
  seeding never fails once the seed file is read, and a failing account costs only itself: the
  accounts are processed one after the other, each from the state the one before left, whether it
  succeeded or not. The counts that are reported never exceed the accounts and pods of the file.
\<close>

theorem seeding_isolates_failures:
  assumes "truthy_opt path" and "read_config (the path) = Inr configuration"
  shows "\<exists>t. UmaSeededAccountInitializer ops read_config path s = (Inr (), t)
    \<and> t = fold (\<lambda>a u. snd (seed_account_steps ops a u)) configuration s
    \<and> accountCount s \<le> accountCount t \<and> accountCount t \<le> accountCount s + length configuration
    \<and> podCount s \<le> podCount t \<and> podCount t \<le> podCount s + sum_list (map (length \<circ> sa_pods) configuration)"
proof -
  have one: "seed_one ops () a u = (Inr (), snd (seed_account_steps ops a u))" for a u
    by (auto simp: seed_one_def catch_def split: prod.splits sum.splits)
  have run: "fold_act (seed_one ops) () as u = (Inr (), fold (\<lambda>a u. snd (seed_account_steps ops a u)) as u)" for as u
    by (induction as arbitrary: u) (simp_all add: bind_def one return_run)
  have "counted (length as) (sum_list (map (length \<circ> sa_pods) as)) u (fold (\<lambda>a u. snd (seed_account_steps ops a u)) as u)" for as u
  proof (induction as arbitrary: u)
    case (Cons a as)
    from counted_trans [OF seed_account_counted [OF prod.collapse [symmetric]] Cons] show ?case by simp
  qed (simp add: counted_refl)
  with run assms show ?thesis by (simp add: UmaSeededAccountInitializer_def counted_def)
qed


subsection \<open>Example\<close>

text \<open>Stores that refuse the account of one address.\<close>

definition picky_stores :: "nat seed_stores" where
  "picky_stores = \<lparr>account_create = (\<lambda>n. (Inr (nat_str n), Suc n)), account_update = (\<lambda>_ _ _. return ()),
     password_create = (\<lambda>email i _. if email = ''bad'' then throw Conflict else return i),
     password_confirm = (\<lambda>_. return ()), pod_create = (\<lambda>_ _ _ _. return ())\<rparr>"

definition example_seed :: "string \<Rightarrow> seed_account" where
  "example_seed email = \<lparr>sa_email = email, sa_password = ''p'', sa_authz = Some (''https://as'', None),
     sa_keys = None, sa_pods = [(''pod'', JUndef)]\<rparr>"

theorem seeding_isolates_failures_witness:
  "\<exists>t. UmaSeededAccountInitializer picky_stores (\<lambda>_. Inr [example_seed ''bad'', example_seed ''good'']) (Some ''seed.json'')
      \<lparr>stores = 0, accountCount = 0, podCount = 0\<rparr> = (Inr (), t)
    \<and> accountCount t = 1 \<and> podCount t = 1 \<and> stores t = 2"
  using seeding_isolates_failures [of "Some ''seed.json''" "\<lambda>_. Inr [example_seed ''bad'', example_seed ''good'']"
      "[example_seed ''bad'', example_seed ''good'']" picky_stores "\<lparr>stores = 0, accountCount = 0, podCount = 0\<rparr>"]
  by (auto simp: seed_account_steps_def seed_authz_def seed_pod_def in_stores_def picky_stores_def example_seed_def
      bind_def return_run throw_run)

end
