(* ===== verification/AccountUpdates.thy ===== *)
theory AccountUpdates
  imports Accounts
begin

text \<open>
  \<open>PatUpdater.updateRecursive\<close>: the updates of the registrations below the pods of an account. The
  updates run at once on the event loop, beside the registrations of RegistrationProgress, which
  they call; a step relation lets them go on in any order and fail at any await.
\<close>

subsection \<open>Updates in progress\<close>

text \<open>
  An update deregisters the resource at the previous server if there is one, registers it, and for
  a container reads its members and starts an update of each.
\<close>

datatype update_stage = Deregister | Register | Registering | ListMembers | Updated | Broken

datatype update_event =
    Deregistered string string string
  | Registered string string string

record 'a updating =
  pool :: "'a pool"
  updates :: "(update \<times> update_stage) multiset"
  history :: "update_event list"

definition first_stage :: "update \<Rightarrow> update_stage" where
  "first_stage u = (case up_previous u of None \<Rightarrow> Register | Some p \<Rightarrow> Deregister)"

definition member_update :: "update \<Rightarrow> string \<Rightarrow> update" where
  "member_update u member = u\<lparr>up_resource := member\<rparr>"

definition started :: "update list \<Rightarrow> (update \<times> update_stage) multiset" where
  "started us = image_mset (\<lambda>u. (u, first_stage u)) (mset us)"

definition after_registration :: "site \<Rightarrow> update \<Rightarrow> update_stage" where
  "after_registration site u = (if is_container site (up_resource u) then ListMembers else Updated)"

text \<open>
  \<open>members\<close> is what the containers contain, which does not change meanwhile. A deregistration that
  waits for a PAT begins again later; an update that waits for its registration goes on once a call
  for the resource has ended.
\<close>

inductive update_step ::
  "site \<Rightarrow> rs_library \<Rightarrow> 'a fetcher \<Rightarrow> (string \<Rightarrow> string list) \<Rightarrow> 'a updating \<Rightarrow> 'a updating \<Rightarrow> bool"
  for site lib fetch members where
  calls: "registration_step site lib (pool p) q \<Longrightarrow> update_step site lib fetch members p (p\<lparr>pool := q\<rparr>)"
| waits: "updates p = add_mset (u, Deregister) M \<Longrightarrow> up_previous u = Some (issuer, credentials) \<Longrightarrow>
     deleteResource lib fetch (up_resource u) issuer credentials (client (pool p)) = (Inr (Awaits e), s) \<Longrightarrow>
     update_step site lib fetch members p (p\<lparr>pool := (pool p)\<lparr>client := s\<rparr>\<rparr>)"
| deregistered: "updates p = add_mset (u, Deregister) M \<Longrightarrow> up_previous u = Some (issuer, credentials) \<Longrightarrow>
     deleteResource lib fetch (up_resource u) issuer credentials (client (pool p)) = (Inr (Settled ()), s) \<Longrightarrow>
     update_step site lib fetch members p (p\<lparr>pool := (pool p)\<lparr>client := s\<rparr>, updates := add_mset (u, Register) M,
       history := history p @ [Deregistered (up_resource u) issuer credentials]\<rparr>)"
| registers: "updates p = add_mset (u, Register) M \<Longrightarrow> up_resource u \<noteq> PAT_EVENT \<Longrightarrow>
     update_step site lib fetch members p (p\<lparr>pool := (pool p)\<lparr>tasks := add_mset (Task (up_resource u) Start) (tasks (pool p))\<rparr>,
       updates := add_mset (u, Registering) M\<rparr>)"
| registered: "updates p = add_mset (u, Registering) M \<Longrightarrow> Task (up_resource u) Done \<in># tasks (pool p) \<Longrightarrow>
     update_step site lib fetch members p (p\<lparr>updates := add_mset (u, after_registration site u) M,
       history := history p @ [Registered (up_resource u) (up_issuer u) (up_credentials u)]\<rparr>)"
| lists: "updates p = add_mset (u, ListMembers) M \<Longrightarrow>
     update_step site lib fetch members p
       (p\<lparr>updates := add_mset (u, Updated) (started (map (member_update u) (members (up_resource u))) + M)\<rparr>)"
| breaks: "updates p = add_mset (u, st) M \<Longrightarrow> st = Deregister \<or> st = Registering \<or> st = ListMembers \<Longrightarrow>
     update_step site lib fetch members p (p\<lparr>updates := add_mset (u, Broken) M\<rparr>)"

text \<open>The resources below a resource: itself, and what the containers below it contain.\<close>

inductive below :: "site \<Rightarrow> (string \<Rightarrow> string list) \<Rightarrow> string \<Rightarrow> string \<Rightarrow> bool" for site members root where
  self: "below site members root root"
| member: "below site members root r \<Longrightarrow> is_container site r \<Longrightarrow> m \<in> set (members r) \<Longrightarrow> below site members root m"

inductive_cases update_stepE [consumes 1, case_names calls waits deregistered registers registered lists breaks]:
  "update_step site lib fetch members p q"

subsection \<open>Updates only register through the client\<close>

lemma deleteResource_keeps:
  assumes "deleteResource lib fetch path issuer credentials s = (Inr x, t)"
  shows "umaIdStore t = umaIdStore s \<and> inProgress t = inProgress s \<and> known_id path s \<noteq> None"
proof -
  from assms obtain config u i where config: "fetchUmaConfig fetch issuer s = (Inr config, u)"
    and i: "known_id path u = Some i"
    and rest: "await (getPat lib fetch issuer credentials) (\<lambda>pat.
         bind (web_fetch fetch (http_delete
             (rs_joinUrl lib (uc_resource_registration_endpoint config) (encodeURIComponent i)) pat)) (\<lambda>_.
         return (Settled ()))) u = (Inr x, t)"
    by (auto simp: deleteResource_def bind_eq_Inr split: option.splits)
  from rest obtain r v where pat: "getPat lib fetch issuer credentials u = (Inr r, v)"
    and last: "(case r of Settled pat \<Rightarrow> bind (web_fetch fetch (http_delete
             (rs_joinUrl lib (uc_resource_registration_endpoint config) (encodeURIComponent i)) pat)) (\<lambda>_.
         return (Settled ())) | Awaits e \<Rightarrow> return (Awaits e)) v = (Inr x, t)"
    by (auto simp: await_def bind_eq_Inr)
  have "umaIdStore u = umaIdStore s \<and> inProgress u = inProgress s" using config by (cases rule: fetchUmaConfig_run) auto
  moreover have "umaIdStore v = umaIdStore u \<and> inProgress v = inProgress u" using pat by (cases rule: getPat_run) auto
  moreover have "umaIdStore t = umaIdStore v \<and> inProgress t = inProgress v"
    using last by (cases r) (auto simp: bind_eq_Inr dest!: web_fetch_run)
  ultimately show ?thesis using i by (simp add: known_id_def)
qed

lemma update_step_pool:
  assumes "update_step site lib fetch members p q"
  shows "(registration_step site lib)\<^sup>=\<^sup>= (pool p) (pool q)"
  using assms
proof (cases rule: update_stepE)
  case (waits u M issuer credentials e s)
  from deleteResource_keeps [OF waits(4)] show ?thesis by (auto simp: waits(1) intro: other)
next
  case (deregistered u M issuer credentials s)
  from deleteResource_keeps [OF deregistered(4)] show ?thesis by (auto simp: deregistered(1) intro: other)
next
  case (registers u M)
  then show ?thesis by (auto intro: call)
qed auto

lemma update_steps_pool:
  assumes "(update_step site lib fetch members)\<^sup>*\<^sup>* p q"
  shows "(registration_step site lib)\<^sup>*\<^sup>* (pool p) (pool q)"
  using assms
proof (induction rule: rtranclp_induct)
  case (step q r)
  from update_step_pool [OF step(2)] step(3) show ?case by auto
qed simp

text \<open>
  the updates of accounts are runs of the client: whatever the updates do, in any order, the calls
  and the state they leave are reachable by the steps of registrations alone, so that everything
  that holds of registrations in every interleaving holds while accounts are updated.
\<close>

theorem updates_refine_registrations:
  assumes "(update_step site lib fetch members)\<^sup>*\<^sup>* p q"
  shows "(registration_step site lib)\<^sup>*\<^sup>* (pool p) (pool q)"
  by (rule update_steps_pool [OF assms])

subsection \<open>Completion\<close>

text \<open>
  The history has the registration an update makes and, before it, the deregistration at the
  previous server.
\<close>

definition logged :: "update_event list \<Rightarrow> update \<Rightarrow> bool" where
  "logged h u \<longleftrightarrow> (\<exists>before after. h = before @ Registered (up_resource u) (up_issuer u) (up_credentials u) # after
     \<and> (\<forall>issuer credentials. up_previous u = Some (issuer, credentials) \<longrightarrow>
          Deregistered (up_resource u) issuer credentials \<in> set before))"

definition removed :: "update_event list \<Rightarrow> update \<Rightarrow> bool" where
  "removed h u \<longleftrightarrow> (\<forall>issuer credentials. up_previous u = Some (issuer, credentials) \<longrightarrow>
     Deregistered (up_resource u) issuer credentials \<in> set h)"

lemma logged_append: "logged h u \<Longrightarrow> logged (h @ e) u"
  unfolding logged_def by (elim exE conjE) (metis append_Cons append_assoc)

lemma logged_now: "removed h u \<Longrightarrow> logged (h @ [Registered (up_resource u) (up_issuer u) (up_credentials u)]) u"
  unfolding logged_def removed_def by blast

lemma removed_append: "removed h u \<Longrightarrow> removed (h @ e) u"
  by (simp add: removed_def)

definition has_update :: "update \<Rightarrow> (update \<times> update_stage) multiset \<Rightarrow> bool" where
  "has_update u M \<longleftrightarrow> (\<exists>st. (u, st) \<in># M)"

lemma has_update_simps [simp]:
  "\<not> has_update u {#}"
  "has_update u (add_mset (v, st) M) \<longleftrightarrow> u = v \<or> has_update u M"
  "has_update u (M + N) \<longleftrightarrow> has_update u M \<or> has_update u N"
  by (auto simp: has_update_def)

lemma has_update_started [simp]: "has_update u (started us) \<longleftrightarrow> u \<in> set us"
  by (auto simp: has_update_def started_def)

definition update_ok ::
  "site \<Rightarrow> (string \<Rightarrow> string list) \<Rightarrow> 'a updating \<Rightarrow> update \<times> update_stage \<Rightarrow> bool" where
  "update_ok site members p = (\<lambda>(u, st).
     (st \<in> {Register, Registering} \<longrightarrow> removed (history p) u)
     \<and> (st \<in> {ListMembers, Updated} \<longrightarrow> logged (history p) u \<and> Task (up_resource u) Done \<in># tasks (pool p))
     \<and> (st = Updated \<longrightarrow> is_container site (up_resource u) \<longrightarrow>
          (\<forall>m \<in> set (members (up_resource u)). has_update (member_update u m) (updates p))))"

lemma update_ok_mono:
  assumes "update_ok site members p x" and "history q = history p @ e"
    and "\<And>path. Task path Done \<in># tasks (pool p) \<Longrightarrow> Task path Done \<in># tasks (pool q)"
    and "\<And>u. has_update u (updates p) \<Longrightarrow> has_update u (updates q)"
  shows "update_ok site members q x"
  using assms by (cases x) (auto simp: update_ok_def intro: logged_append removed_append)

lemma done_step:
  assumes "registration_step site lib p q" and "Task path Done \<in># tasks p"
  shows "Task path Done \<in># tasks q"
  using assms(1)
proof (cases rule: registration_step.cases)
  case (response path' known M resp s)
  with assms(2) have "Task path Done \<in># M" by auto
  then have "wake path' (Task path Done) \<in># emit path' M" unfolding emit_def by auto
  with response(1) show ?thesis by (simp add: wake_def)
qed (use assms(2) in auto)

lemma update_step_mono:
  assumes "update_step site lib fetch members p q"
  shows "(\<exists>e. history q = history p @ e) \<and> (\<forall>u. has_update u (updates p) \<longrightarrow> has_update u (updates q))
    \<and> (\<forall>path. Task path Done \<in># tasks (pool p) \<longrightarrow> Task path Done \<in># tasks (pool q))"
  using assms
proof (cases rule: update_stepE)
  case (calls q')
  then show ?thesis by (auto dest: done_step)
qed auto

lemma started_ok: "x \<in># started us \<Longrightarrow> update_ok site members p x"
  by (auto simp: started_def update_ok_def first_stage_def removed_def split: option.splits)

lemma update_step_ok:
  assumes "update_step site lib fetch members p q" and "\<forall>x \<in># updates p. update_ok site members p x" and "x \<in># updates q"
  shows "update_ok site members q x"
proof -
  note mono = update_step_mono [OF assms(1)]
  then obtain e where e: "history q = history p @ e" by blast
  have old: "update_ok site members q x" if "x \<in># updates p"
    by (rule update_ok_mono [OF _ e]) (use assms(2) that mono in blast)+
  from assms(1) show ?thesis
  proof (cases rule: update_stepE)
    case (deregistered u M issuer credentials s)
    have "removed (history q) u" by (simp add: deregistered removed_def)
    with deregistered old assms(3) show ?thesis by (auto simp: update_ok_def)
  next
    case (registers u M)
    with assms(2) have "removed (history q) u" by (simp add: update_ok_def)
    with registers old assms(3) show ?thesis by (auto simp: update_ok_def)
  next
    case (registered u M)
    with assms(2) have "removed (history p) u" by (simp add: update_ok_def)
    from logged_now [OF this] registered have new: "logged (history q) u" "Task (up_resource u) Done \<in># tasks (pool q)" by simp_all
    then have "update_ok site members q (u, after_registration site u)"
      by (auto simp: update_ok_def after_registration_def)
    with registered old assms(3) show ?thesis by auto
  next
    case (lists u M)
    with assms(2) have "logged (history q) u" "Task (up_resource u) Done \<in># tasks (pool q)" by (simp_all add: update_ok_def)
    then have "update_ok site members q (u, Updated)" by (simp add: update_ok_def lists(1))
    with lists old assms(3) started_ok show ?thesis by fastforce
  next
    case (breaks u M st)
    with old assms(3) show ?thesis by (auto simp: update_ok_def)
  qed (use old assms(3) in simp_all)
qed

lemma updates_ok:
  assumes "(update_step site lib fetch members)\<^sup>*\<^sup>* \<lparr>pool = p0, updates = started us, history = []\<rparr> p"
  shows "(\<forall>x \<in># updates p. update_ok site members p x) \<and> (\<forall>u \<in> set us. has_update u (updates p))"
  using assms
proof (induction rule: rtranclp_induct)
  case (step p q)
  then show ?case using update_step_ok update_step_mono by blast
qed (simp add: started_ok)

lemma below_updated:
  assumes "below site members (up_resource u) r" and "has_update u (updates p)"
    and "\<forall>x \<in># updates p. update_ok site members p x" and "\<forall>x \<in># updates p. snd x = Updated"
  shows "(member_update u r, Updated) \<in># updates p"
  using assms(1)
proof induction
  case self
  from assms(2,4) show ?case by (auto simp: has_update_def member_update_def)
next
  case (member r m)
  with assms(3) have "has_update (member_update (member_update u r) m) (updates p)"
    by (fastforce simp: update_ok_def member_update_def)
  with assms(4) show ?case by (auto simp: has_update_def member_update_def)
qed


subsection \<open>Example\<close>

text \<open>A pod without members, registered by the run of the registrations example.\<close>

definition example_update :: update where
  "example_update = \<lparr>up_resource = ''/'', up_issuer = ''as'', up_credentials = ''Basic a'', up_previous = None\<rparr>"

definition example_updating :: "unit updating" where
  "example_updating = \<lparr>pool = example_pool, updates = started [example_update], history = []\<rparr>"

lemma calls_steps:
  assumes "(registration_step site lib)\<^sup>*\<^sup>* (pool p) q"
  shows "(update_step site lib fetch members)\<^sup>*\<^sup>* p (p\<lparr>pool := q\<rparr>)"
  using assms
proof (induction rule: rtranclp_induct)
  case (step q r)
  have "update_step site lib fetch members (p\<lparr>pool := q\<rparr>) (p\<lparr>pool := q\<rparr>\<lparr>pool := r\<rparr>)"
    by (rule calls) (simp add: step(2))
  with step(3) show ?case by simp
qed simp

definition example_registered :: "unit pool" where
  "example_registered = example_pool\<lparr>client := marked\<lparr>umaIdStore := (umaIdStore marked)(''/'' \<mapsto> ''id2''), inProgress := {}\<rparr>,
     tasks := {#Task ''/'' Done#}, sent := example_sent\<rparr>"

lemma example_updated:
  "\<exists>p. (update_step example_site example_rs_library (example_server 201) (\<lambda>_. []))\<^sup>*\<^sup>* example_updating p
     \<and> (\<forall>x \<in># updates p. snd x = Updated)"
proof -
  let ?R = "update_step example_site example_rs_library (example_server 201) (\<lambda>_. [])"
  let ?p1 = "example_updating\<lparr>pool := example_registered\<rparr>"
  have "?R\<^sup>*\<^sup>* example_updating ?p1"
    by (rule calls_steps) (use example_ends in \<open>simp add: example_updating_def example_registered_def\<close>)
  moreover obtain p2 where p2: "?R ?p1 p2" "updates p2 = {#(example_update, Registering)#}" "Task ''/'' Done \<in># tasks (pool p2)"
    using registers [where site = example_site and lib = example_rs_library and fetch = "example_server 201" and members = "\<lambda>_. []"
        and p = ?p1 and u = example_update and M = "{#}"]
    by (auto simp: example_updating_def started_def first_stage_def example_update_def PAT_EVENT_def example_registered_def)
  moreover obtain p3 where p3: "?R p2 p3" "updates p3 = {#(example_update, ListMembers)#}"
    using registered [where site = example_site and lib = example_rs_library and fetch = "example_server 201" and members = "\<lambda>_. []"
        and p = p2 and u = example_update and M = "{#}"] p2(2,3)
    by (auto simp: after_registration_def example_update_def example_site_def)
  moreover obtain p4 where p4: "?R p3 p4" "updates p4 = {#(example_update, Updated)#}"
    using lists [where site = example_site and lib = example_rs_library and fetch = "example_server 201" and members = "\<lambda>_. []"
        and p = p3 and u = example_update and M = "{#}"] p3(2) by (auto simp: started_def)
  ultimately have "?R\<^sup>*\<^sup>* example_updating p4" by (meson rtranclp.rtrancl_into_rtrancl)
  with p4(2) show ?thesis by auto
qed


theorem updates_refine_registrations_witness:
  "\<exists>q :: unit pool. (registration_step example_site example_rs_library)\<^sup>*\<^sup>* example_pool q"
  using updates_refine_registrations [of example_site example_rs_library "example_server 201" "\<lambda>_. []"
      example_updating "example_updating"]
  by (auto simp: example_updating_def)

end
