(* ===== verification/Migration.thy ===== *)
theory Migration
  imports AccountUpdates Protocol
begin

text \<open>
  An account that already has credentials gets others: the updates of PatUpdater, the client and
  the registration endpoint of the authorization server together.
\<close>

text \<open>The answer of the registration endpoint, errors included, as the client reads it.\<close>

definition registration_answer :: "(error \<Rightarrow> string) \<Rightarrow> error + registration_body response \<Rightarrow> http_response" where
  "registration_answer message r = (case r of
      Inl e \<Rightarrow> \<lparr>hr_status = response_status e, hr_json = Some (error_body message e)\<rparr>
    | Inr resp \<Rightarrow> registered_answer resp)"



end
