(* ===== verification/OperationLog.thy ===== *)
theory OperationLog
  imports HttpServer
begin

text \<open>
  The log of operations (\<open>packages/uma/src/logging/\<close>) and the endpoint that shows it
  (\<open>routes/Log.ts\<close>): entries are triples in a graph of their own in one store of quads. The names
  of new blank nodes and the TriG writer are arguments.
\<close>

subsection \<open>The store of entries\<close>

record operation_log =
  entries :: store
  blank_nodes :: nat

text \<open>
  A pattern for the graph of a quad: \<open>null\<close>, a term, or a quad, which is a term of the data model
  but is never the graph of an entry.
\<close>

datatype graph_pattern = AnyGraph | InGraph rterm | QuotedQuad quad

fun in_graph :: "graph_pattern \<Rightarrow> quad \<Rightarrow> bool" where
  "in_graph AnyGraph q = True"
| "in_graph (InGraph g) q = (graph q = g)"
| "in_graph (QuotedQuad q') q = False"

definition addLogEntry ::
  "(nat \<Rightarrow> string) \<Rightarrow> (rterm \<times> rterm \<times> rterm) list \<Rightarrow> string option \<Rightarrow> operation_log \<Rightarrow> rterm \<times> operation_log" where
  "addLogEntry blank triples graphName log =
     (let graphTerm = (if truthy_opt graphName then NamedNode (the graphName) else BlankNode (blank (blank_nodes log)));
          quads = map (\<lambda>(s, p, v). Quad s p v graphTerm) triples in
      (graphTerm, log\<lparr>entries := add_quads (entries log) quads,
         blank_nodes := (if truthy_opt graphName then blank_nodes log else Suc (blank_nodes log))\<rparr>))"

definition getLogEntries :: "graph_pattern \<Rightarrow> operation_log \<Rightarrow> quad list" where
  "getLogEntries g log = filter (in_graph g) (entries log)"

text \<open>The \<open>value\<close> of a quad is the empty string; the quads found are kept one per value.\<close>

definition quad_value :: "quad \<Rightarrow> string" where
  "quad_value q = ''''"

definition getLogEntriesByType :: "string \<Rightarrow> operation_log \<Rightarrow> quad list" where
  "getLogEntriesByType ty log =
     (let quads = get_quads (entries log) None (Some rdf_type) (Some (NamedNode ty));
          graph_terms = map snd (fold (\<lambda>item. obj_set (quad_value item) item) quads []) in
      concat (map (\<lambda>term. getLogEntries (QuotedQuad term) log) graph_terms))"

definition serializePolicyInstantiation :: "(rterm \<times> rterm \<times> rterm) list" where
  "serializePolicyInstantiation = [(NamedNode ''urn:example:policy:uuid:0221319319231831'', rdf_type,
     NamedNode ''http://example.org/ns/policies/Policy'')]"

definition LogRequestHandler :: "http_library \<Rightarrow> (quad list \<Rightarrow> string) \<Rightarrow> operation_log \<Rightarrow> http_response_out" where
  "LogRequestHandler lib write_trig log = \<lparr>out_status = 200, out_headers = [(''content-type'', ''application/trig'')],
     out_body = Some (Parsed (JStr (json_stringify lib (JStr (write_trig (getLogEntries AnyGraph log))))))\<rparr>"

subsection \<open>What is found\<close>

text \<open>The entries of \<open>n\<close> grants, as the negotiator writes them.\<close>

definition log_grants :: "(nat \<Rightarrow> string) \<Rightarrow> nat \<Rightarrow> operation_log \<Rightarrow> operation_log" where
  "log_grants blank n log = ((\<lambda>l. snd (addLogEntry blank serializePolicyInstantiation None l)) ^^ n) log"

definition logged_policy :: "rterm \<Rightarrow> quad" where
  "logged_policy g = Quad (NamedNode ''urn:example:policy:uuid:0221319319231831'') rdf_type
     (NamedNode ''http://example.org/ns/policies/Policy'') g"

lemma log_grants_Suc: "log_grants blank (Suc n) log =
    snd (addLogEntry blank serializePolicyInstantiation None (log_grants blank n log))"
  by (simp add: log_grants_def)

lemma log_grant: "snd (addLogEntry blank serializePolicyInstantiation None l) =
    l\<lparr>entries := add_quad (entries l) (logged_policy (BlankNode (blank (blank_nodes l)))), blank_nodes := Suc (blank_nodes l)\<rparr>"
  by (simp add: addLogEntry_def Let_def serializePolicyInstantiation_def logged_policy_def add_quads_def)

lemma log_grants_entries:
  assumes "inj blank"
  shows "blank_nodes (log_grants blank n \<lparr>entries = [], blank_nodes = 0\<rparr>) = n
    \<and> entries (log_grants blank n \<lparr>entries = [], blank_nodes = 0\<rparr>)
       = map (\<lambda>i. logged_policy (BlankNode (blank i))) [0..<n]"
proof (induction n)
  case (Suc n)
  let ?log = "log_grants blank n \<lparr>entries = [], blank_nodes = 0\<rparr>"
  have "logged_policy (BlankNode (blank n)) \<notin> set (entries ?log)"
    using Suc assms by (auto simp: logged_policy_def dest: injD)
  with Suc show ?case by (simp add: log_grants_Suc log_grant add_quad_def)
qed (simp add: log_grants_def)

text \<open>
  every grant is in the log and none is found by its type: after \<open>n\<close> grants the log has \<open>n\<close> entries
  in \<open>n\<close> graphs, the lookup of a graph gives exactly the entry of its grant, and the lookup by type
  gives nothing, because it looks for graphs that are the quads it has found.
\<close>

theorem log_lookup:
  assumes "inj blank" and "log = log_grants blank n \<lparr>entries = [], blank_nodes = 0\<rparr>"
  shows "length (getLogEntries AnyGraph log) = n \<and> distinct (map graph (getLogEntries AnyGraph log))
    \<and> (\<forall>i < n. getLogEntries (InGraph (BlankNode (blank i))) log = [logged_policy (BlankNode (blank i))])
    \<and> getLogEntriesByType ty log = []"
proof -
  have log: "entries log = map (\<lambda>i. logged_policy (BlankNode (blank i))) [0..<n]"
    unfolding assms(2) by (simp add: log_grants_entries [OF assms(1)])
  have graphs: "distinct (map graph (entries log))"
    using assms(1) by (simp add: log distinct_map inj_on_def logged_policy_def comp_def)
  have "getLogEntries (InGraph (BlankNode (blank i))) log = [logged_policy (BlankNode (blank i))]" if "i < n" for i
  proof -
    have "filter (\<lambda>j. blank j = blank i) [0..<n] = filter (\<lambda>j. j = i) [0..<n]"
      using assms(1) by (intro filter_cong) (auto dest: injD)
    also have "\<dots> = [i]" using that by (induction n) auto
    finally show ?thesis
      by (simp add: getLogEntries_def log filter_map comp_def logged_policy_def)
  qed
  with graphs log show ?thesis
    by (simp add: getLogEntries_def getLogEntriesByType_def Let_def)
qed

theorem log_lookup_witness:
  "getLogEntriesByType ''http://example.org/ns/policies/Policy''
     (log_grants (\<lambda>i. replicate i CHR ''b'') 2 \<lparr>entries = [], blank_nodes = 0\<rparr>) = []
   \<and> length (getLogEntries AnyGraph (log_grants (\<lambda>i. replicate i CHR ''b'') 2 \<lparr>entries = [], blank_nodes = 0\<rparr>)) = 2"
proof -
  have "inj (\<lambda>i. replicate i CHR ''b'')" by (auto intro: injI)
  from log_lookup [OF this refl] show ?thesis by blast
qed

end
