(* ===== verification/ClientFlow.thy ===== *)
theory ClientFlow
  imports ResourceServer HttpServer
begin

text \<open>
  The client that asks for a resource (\<open>src/scripts/util/UMA-client.ts\<close>): it reads the challenge of
  the resource server, exchanges the ticket and a claim for a token, and repeats its request. The
  servers it talks to are an argument; base64 and the JSON parser as well.
\<close>

subsection \<open>The challenge\<close>

text \<open>\<open>s.split(', ')\<close>\<close>

fun split_comma :: "string \<Rightarrow> string list" where
  "split_comma [] = [[]]"
| "split_comma (c # s) =
     (if c = CHR '','' \<and> starts_with '' '' s then [] # split_comma (tl s)
      else (case split_comma s of [] \<Rightarrow> [[c]] | w # ws \<Rightarrow> (c # w) # ws))"

definition unquoted :: "string \<Rightarrow> string" where
  "unquoted s = filter (\<lambda>c. c \<noteq> CHR 34) s"

text \<open>The first two parts of a parameter, as \<open>Object.fromEntries\<close> takes them.\<close>

definition header_param :: "string \<Rightarrow> string \<times> string option" where
  "header_param param =
     (let parts = map unquoted (split_on (CHR ''='') param) in
      (hd parts, case tl parts of [] \<Rightarrow> None | v # _ \<Rightarrow> Some v))"

definition header_params :: "string \<Rightarrow> string option obj" where
  "header_params h =
     fold (\<lambda>(k, v). obj_set k v) (map header_param (split_comma (if starts_with ''UMA '' h then drop 4 h else h))) []"

definition param :: "string option obj \<Rightarrow> string \<Rightarrow> string option" where
  "param ps k = (case obj_get ps k of None \<Rightarrow> None | Some v \<Rightarrow> v)"

definition parseAuthenticateHeader :: "string option \<Rightarrow> error + string \<times> string option" where
  "parseAuthenticateHeader header =
     (if \<not> truthy_opt header then Inl PlainError
      else (let ps = header_params (the header) in
        Inr ((case param ps ''as_uri'' of None \<Rightarrow> ''undefined'' | Some u \<Rightarrow> u) @ ''/token'', param ps ''ticket'')))"

definition parseJwt :: "(string \<Rightarrow> string) \<Rightarrow> (string \<Rightarrow> error + js) \<Rightarrow> string \<Rightarrow> error + js" where
  "parseJwt base64_decode parse tok =
     (case split_on (CHR ''.'') tok of _ # payload # _ \<Rightarrow> parse (base64_decode payload) | _ \<Rightarrow> Inl PlainError)"

subsection \<open>The flow\<close>

record flow_response =
  fr_status :: nat
  fr_authenticate :: "string option"
  fr_json :: "js option"

record claim =
  cl_token :: string
  cl_format :: string

definition token_request :: "claim \<Rightarrow> string option \<Rightarrow> js" where
  "token_request c ticket = JObj
     ([(''grant_type'', JStr ''urn:ietf:params:oauth:grant-type:uma-ticket'')]
      @ (case ticket of None \<Rightarrow> [] | Some t \<Rightarrow> [(''ticket'', JStr t)])
      @ [(''claim_token'', JStr (encodeURIComponent (cl_token c))), (''claim_token_format'', JStr (cl_format c))])"

definition with_rpt :: "(js \<Rightarrow> string) \<Rightarrow> js \<Rightarrow> request \<Rightarrow> request" where
  "with_rpt text v req = req\<lparr>req_authorization :=
     Some (text (js_prop v ''token_type'') @ '' '' @ text (js_prop v ''access_token''))\<rparr>"

definition UserManagedAccessFetcher ::
  "(js \<Rightarrow> string) \<Rightarrow> (request \<Rightarrow> ('a, flow_response) act) \<Rightarrow> claim \<Rightarrow> request \<Rightarrow> ('a, flow_response) act" where
  "UserManagedAccessFetcher text fetch c req =
     bind (fetch req) (\<lambda>noTokenResponse.
     if fr_status noTokenResponse > 199 \<and> fr_status noTokenResponse < 300 then return noTokenResponse
     else bind (lift (parseAuthenticateHeader (fr_authenticate noTokenResponse))) (\<lambda>(tokenEndpoint, ticket).
       bind (fetch (http_post tokenEndpoint ''application/json'' None (token_request c ticket))) (\<lambda>asResponse.
       if fr_status asResponse \<noteq> 200 then return asResponse
       else (case fr_json asResponse of None \<Rightarrow> throw PlainError
         | Some v \<Rightarrow> fetch (with_rpt text v req)))))"

subsection \<open>Challenges are understood\<close>

lemma split_comma_word: "CHR '','' \<notin> set w \<Longrightarrow> split_comma w = [w]"
  by (induction w) auto

lemma split_comma_next: "CHR '','' \<notin> set w \<Longrightarrow> split_comma (w @ '', '' @ s) = w # split_comma s"
  by (induction w) (auto simp: starts_with_def)

lemma unquoted_plain: "CHR 34 \<notin> set w \<Longrightarrow> unquoted (CHR 34 # w @ [CHR 34]) = w"
  unfolding unquoted_def by (induction w) auto

definition plain_param :: "string \<Rightarrow> bool" where
  "plain_param s \<longleftrightarrow> CHR '','' \<notin> set s \<and> CHR ''='' \<notin> set s \<and> CHR 34 \<notin> set s"

lemma header_param_quoted:
  assumes "plain_param k" and "plain_param v"
  shows "header_param (k @ ''='' @ CHR 34 # v @ [CHR 34]) = (k, Some v)"
proof -
  have k: "CHR ''='' \<notin> set k" "unquoted k = k"
    using assms(1) by (auto simp: plain_param_def unquoted_def filter_id_conv)
  have "CHR ''='' \<notin> set (CHR 34 # v @ [CHR 34])" using assms(2) by (simp add: plain_param_def)
  then have "split_on (CHR ''='') (k @ CHR ''='' # CHR 34 # v @ [CHR 34]) = [k, CHR 34 # v @ [CHR 34]]"
    using split_append_sep [OF k(1)] split_no_sep by simp
  with k unquoted_plain [of v] assms(2) show ?thesis
    by (simp add: header_param_def plain_param_def)
qed

text \<open>
  C22: the client understands the challenge of the resource server: from the header the authorizer
  writes it reads the token endpoint below the issuer and the ticket as they are, when neither has
  a comma, an equals sign or a quote.
\<close>

theorem challenge_roundtrip:
  assumes "plain_param issuer" and "plain_param ticket"
  shows "parseAuthenticateHeader (Some (ticket_header issuer ticket)) = Inr (issuer @ ''/token'', Some ticket)"
proof -
  let ?q = "\<lambda>v. CHR 34 # v @ [CHR 34]"
  have solid: "plain_param ''solid''" "plain_param ''realm''" "plain_param ''as_uri''" "plain_param ''ticket''"
    by (simp_all add: plain_param_def)
  have no_comma: "CHR '','' \<notin> set (k @ ''='' @ ?q v)" if "plain_param k" "plain_param v" for k v
    using that by (simp add: plain_param_def)
  have layout: "ticket_header issuer ticket = ''UMA '' @ (''realm'' @ ''='' @ ?q ''solid'') @ '', ''
      @ (''as_uri'' @ ''='' @ ?q issuer) @ '', '' @ (''ticket'' @ ''='' @ ?q ticket)"
    by (simp add: ticket_header_def)
  have strip: "(if starts_with ''UMA '' (''UMA '' @ r) then drop 4 (''UMA '' @ r) else ''UMA '' @ r) = r" for r
    by (simp add: starts_with_def)
  have parts: "split_comma ((''realm'' @ ''='' @ ?q ''solid'') @ '', '' @ (''as_uri'' @ ''='' @ ?q issuer) @ '', ''
      @ (''ticket'' @ ''='' @ ?q ticket))
    = [''realm'' @ ''='' @ ?q ''solid'', ''as_uri'' @ ''='' @ ?q issuer, ''ticket'' @ ''='' @ ?q ticket]"
    by (simp only: split_comma_next [OF no_comma [OF solid(2,1)]] split_comma_next [OF no_comma [OF solid(3) assms(1)]]
        split_comma_word [OF no_comma [OF solid(4) assms(2)]])
  have "header_params (ticket_header issuer ticket) =
      obj_set ''ticket'' (Some ticket) (obj_set ''as_uri'' (Some issuer) (obj_set ''realm'' (Some ''solid'') []))"
    unfolding header_params_def layout strip parts
    by (simp only: list.map fold.simps header_param_quoted [OF solid(2,1)] header_param_quoted [OF solid(3) assms(1)]
        header_param_quoted [OF solid(4) assms(2)] case_prod_conv id_apply comp_def)
  then show ?thesis
    by (simp add: parseAuthenticateHeader_def param_def obj_get_set layout)
qed

theorem challenge_roundtrip_witness:
  "parseAuthenticateHeader (Some (ticket_header ''https://as'' ''4a-b2'')) = Inr (''https://as/token'', Some ''4a-b2'')"
  using challenge_roundtrip [of "''https://as''" "''4a-b2''"] by (simp add: plain_param_def)

subsection \<open>Exchanges are understood\<close>



subsection \<open>What the flow discloses\<close>

definition recording :: "(request \<Rightarrow> ('a, 'r) act) \<Rightarrow> request \<Rightarrow> ('a \<times> request list, 'r) act" where
  "recording fetch req = (\<lambda>(a, sends). case fetch req a of (r, b) \<Rightarrow> (r, (b, sends @ [req])))"

lemma recording_run:
  assumes "recording fetch req (a, sends) = (r, t)"
  shows "fetch req a = (r, fst t)" and "snd t = sends @ [req]"
  using assms by (auto simp: recording_def split: prod.splits)

lemma exchange_sends:
  assumes "bind (recording fetch exchange) (\<lambda>asResponse.
      if fr_status asResponse \<noteq> 200 then return asResponse
      else (case fr_json asResponse of None \<Rightarrow> throw PlainError
        | Some v \<Rightarrow> recording fetch (with_rpt text v req))) (a, log) = (r, (b, sends))"
  shows "sends = log @ [exchange] \<or> (\<exists>answer v issued. fetch exchange a = (Inr answer, v) \<and> fr_status answer = 200
    \<and> fr_json answer = Some issued \<and> sends = log @ [exchange, with_rpt text issued req]
    \<and> fetch (with_rpt text issued req) v = (r, b))"
  using assms
proof (cases rule: bind_cases)
  case (raised e)
  from recording_run [OF raised(1)] show ?thesis by simp
next
  case (returned answer v)
  note second = recording_run [OF returned(1)]
  obtain sv sent where v: "v = (sv, sent)" by fastforce
  show ?thesis
  proof (cases "fr_status answer = 200 \<and> fr_json answer \<noteq> None")
    case True
    then obtain issued where issued: "fr_status answer = 200" "fr_json answer = Some issued" by blast
    with returned(2) have "recording fetch (with_rpt text issued req) (sv, sent) = (r, (b, sends))" by (simp add: v)
    from recording_run [OF this] second issued show ?thesis by (simp add: v)
  next
    case False
    with returned(2) second v show ?thesis by (auto split: if_splits option.splits)
  qed
qed

text \<open>
  C24: the client discloses its claim only to the token endpoint the challenge names, only after a
  challenge, and the token it gets only to the resource it asked for: the requests it sends are the
  one it was given; after a refusal with a challenge the exchange; and after a successful exchange
  the first request again with the token that was issued.
\<close>

theorem flow_discloses_only:
  assumes "UserManagedAccessFetcher text (recording fetch) c req (a, []) = (r, (b, sends))"
  shows "sends = [req] \<or> (\<exists>first u endpoint ticket.
      fetch req a = (Inr first, u) \<and> \<not> (199 < fr_status first \<and> fr_status first < 300)
      \<and> parseAuthenticateHeader (fr_authenticate first) = Inr (endpoint, ticket)
      \<and> (let exchange = http_post endpoint ''application/json'' None (token_request c ticket) in
         sends = [req, exchange]
         \<or> (\<exists>answer v issued. fetch exchange u = (Inr answer, v) \<and> fr_status answer = 200 \<and> fr_json answer = Some issued
              \<and> sends = [req, exchange, with_rpt text issued req] \<and> fetch (with_rpt text issued req) v = (r, b))))"
  using assms unfolding UserManagedAccessFetcher_def
proof (cases rule: bind_cases)
  case (raised e)
  from recording_run [OF raised(1)] show ?thesis by simp
next
  case (returned first u)
  note first = recording_run [OF returned(1)]
  show ?thesis
  proof (cases "199 < fr_status first \<and> fr_status first < 300")
    case True
    with returned(2) first show ?thesis by auto
  next
    case False
    show ?thesis
    proof (cases "parseAuthenticateHeader (fr_authenticate first)")
      case (Inl e)
      with False returned(2) first show ?thesis by (auto simp: bind_lift)
    next
      case (Inr challenge)
      obtain endpoint ticket where challenge: "challenge = (endpoint, ticket)" by fastforce
      let ?exchange = "http_post endpoint ''application/json'' None (token_request c ticket)"
      have "bind (recording fetch ?exchange) (\<lambda>asResponse.
          if fr_status asResponse \<noteq> 200 then return asResponse
          else (case fr_json asResponse of None \<Rightarrow> throw PlainError
            | Some v \<Rightarrow> recording fetch (with_rpt text v req))) (fst u, [req]) = (r, (b, sends))"
        using False Inr returned(2) first(2) by (cases u) (auto simp: bind_lift challenge)
      from exchange_sends [OF this] first(1) False Inr challenge show ?thesis
        unfolding Let_def append.simps by blast
    qed
  qed
qed

text \<open>A resource that is challenged, and a token endpoint that answers every exchange.\<close>

definition example_web_flow :: "request \<Rightarrow> (unit, flow_response) act" where
  "example_web_flow req = return
     (if req_url req = ''as/token''
      then \<lparr>fr_status = 200, fr_authenticate = None,
        fr_json = Some (JObj [(''access_token'', JStr ''rpt''), (''token_type'', JStr ''Bearer'')])\<rparr>
      else if req_authorization req = Some ''Bearer rpt'' then \<lparr>fr_status = 200, fr_authenticate = None, fr_json = None\<rparr>
      else \<lparr>fr_status = 401, fr_authenticate = Some (ticket_header ''as'' ''tk''), fr_json = None\<rparr>)"

theorem flow_discloses_only_witness:
  "\<exists>endpoint ticket. parseAuthenticateHeader (Some (ticket_header ''as'' ''tk'')) = Inr (endpoint, ticket)
     \<and> example_web_flow (http_get ''/a'') () = (Inr \<lparr>fr_status = 401, fr_authenticate = Some (ticket_header ''as'' ''tk''), fr_json = None\<rparr>, ())"
proof -
  let ?c = "\<lparr>cl_token = ''https://alice'', cl_format = UNSECURE\<rparr>"
  let ?exchange = "http_post ''as/token'' ''application/json'' None (token_request ?c (Some ''tk''))"
  have run: "UserManagedAccessFetcher decode_string (recording example_web_flow) ?c (http_get ''/a'') ((), [])
    = (Inr \<lparr>fr_status = 200, fr_authenticate = None, fr_json = None\<rparr>,
       ((), [http_get ''/a'', ?exchange, (http_get ''/a'')\<lparr>req_authorization := Some ''Bearer rpt''\<rparr>]))"
    by code_simp
  have first: "example_web_flow (http_get ''/a'') ()
    = (Inr \<lparr>fr_status = 401, fr_authenticate = Some (ticket_header ''as'' ''tk''), fr_json = None\<rparr>, ())"
    by code_simp
  from flow_discloses_only [OF run] obtain u endpoint ticket where "parseAuthenticateHeader (fr_authenticate u) = Inr (endpoint, ticket)"
    and "example_web_flow (http_get ''/a'') () = (Inr u, ())" by auto
  with first show ?thesis by auto
qed

end
