(* ===== verification/RegistrationSettles.thy ===== *)
theory RegistrationSettles
  imports RegistrationProgress "HOL-Library.Product_Lexorder"
begin

text \<open>
  The calls of \<open>registerResource\<close> (\<open>packages/css/src/uma/UmaClient.ts\<close>) call it again, for the same
  resource and for its parent, and wait for events that other calls emit, of which all but one then
  wait again. The theory shows that this comes to an end: the measure of a pool is the number of
  requests its calls can still send, and then the sum of the ranks of their stages, ordered
  lexicographically.
\<close>

subsection \<open>The requests a call can still send\<close>

text \<open>The documented behaviour of \<open>getParentContainer\<close>: the path of a container is a proper prefix.\<close>

definition hierarchical :: "site \<Rightarrow> bool" where
  "hierarchical site \<longleftrightarrow> (\<forall>path. \<not> is_root site path \<longrightarrow> length (parent_of site path) < length path)"

fun credits :: "site \<Rightarrow> (string \<Rightarrow> bool) \<Rightarrow> nat \<Rightarrow> string \<Rightarrow> nat" where
  "credits site known 0 path = 1"
| "credits site known (Suc n) path =
     (if is_root site path \<or> known (parent_of site path) then 1
      else 3 + credits site known n (parent_of site path))"

lemma credits_pos: "0 < credits site known n path"
  by (induction n arbitrary: path) auto

lemma credits_antimono:
  "(\<And>q. known q \<Longrightarrow> known' q) \<Longrightarrow> credits site known' n path \<le> credits site known n path"
  by (induction n arbitrary: path) (auto simp: credits_pos Suc_le_eq intro: trans_le_add2)

lemma credits_Suc: "credits site known n path \<le> credits site known (Suc n) path"
proof (induction n arbitrary: path)
  case (Suc n)
  then show ?case using Suc [of "parent_of site path"] by simp
qed simp

lemma credits_mono: "m \<le> n \<Longrightarrow> credits site known m path \<le> credits site known n path"
  by (rule lift_Suc_mono_le [of "\<lambda>n. credits site known n path"]) (rule credits_Suc)

definition demand :: "site \<Rightarrow> (string \<Rightarrow> bool) \<Rightarrow> string \<Rightarrow> nat" where
  "demand site known path = credits site known (length path) path"

lemma demand_pos: "0 < demand site known path"
  by (simp add: demand_def credits_pos)

lemma demand_antimono: "(\<And>q. known q \<Longrightarrow> known' q) \<Longrightarrow> demand site known' path \<le> demand site known path"
  unfolding demand_def by (rule credits_antimono)

lemma demand_parent_known:
  "hierarchical site \<Longrightarrow> known (parent_of site path) \<Longrightarrow> demand site known path = 1"
  by (cases "length path") (auto simp: demand_def)

lemma demand_parent_unknown:
  assumes "hierarchical site" and "\<not> is_root site path" and "\<not> known (parent_of site path)"
  shows "3 + demand site known (parent_of site path) \<le> demand site known path"
proof -
  from assms(1,2) have shorter: "length (parent_of site path) < length path" by (simp add: hierarchical_def)
  then obtain n where n: "length path = Suc n" by (cases "length path") auto
  with shorter assms(2,3) show ?thesis by (simp add: demand_def credits_mono)
qed

subsection \<open>The measure\<close>

definition known_in :: "'a rs_state \<Rightarrow> string \<Rightarrow> bool" where
  "known_in s path \<longleftrightarrow> known_id path s \<noteq> None"

text \<open>A call that waits for an event goes on once the resource of the event is known.\<close>

definition known_after :: "stage \<Rightarrow> 'a rs_state \<Rightarrow> string \<Rightarrow> bool" where
  "known_after st s path \<longleftrightarrow> st = Listening path \<or> known_in s path"

definition task_demand :: "site \<Rightarrow> 'a rs_state \<Rightarrow> task \<Rightarrow> nat" where
  "task_demand site s T = (case task_stage T of
      Sending known \<Rightarrow> 1 | Done \<Rightarrow> 0 | Failed \<Rightarrow> 0
    | _ \<Rightarrow> demand site (known_after (task_stage T) s) (task_path T))"

definition task_rank :: "task \<Rightarrow> nat" where
  "task_rank T = (case task_stage T of
      Start \<Rightarrow> 4 | Configuring \<Rightarrow> 3 | Tokening url known \<Rightarrow> 2 | Sending known \<Rightarrow> 1 | _ \<Rightarrow> 0)"

definition pool_measure :: "site \<Rightarrow> 'a pool \<Rightarrow> nat \<times> nat" where
  "pool_measure site p = (\<Sum>\<^sub># (image_mset (task_demand site (client p)) (tasks p)),
     \<Sum>\<^sub># (image_mset task_rank (tasks p)))"

lemma known_after_simps [simp]:
  "known_after Start s = known_in s" "known_after Configuring s = known_in s"
  "known_after (Tokening url known) s = known_in s"
  "known_after (Listening e) s = (\<lambda>q. q = e \<or> known_in s q)"
  by (auto simp: known_after_def fun_eq_iff)

lemma task_demand_simps [simp]:
  "task_demand site s (Task path Start) = demand site (known_in s) path"
  "task_demand site s (Task path Configuring) = demand site (known_in s) path"
  "task_demand site s (Task path (Tokening url known)) = demand site (known_in s) path"
  "task_demand site s (Task path (Listening e)) = demand site (\<lambda>q. q = e \<or> known_in s q) path"
  "task_demand site s (Task path (Sending known)) = 1"
  "task_demand site s (Task path Done) = 0" "task_demand site s (Task path Failed) = 0"
  by (simp_all add: task_demand_def)

lemma task_rank_simps [simp]:
  "task_rank (Task path Start) = 4" "task_rank (Task path Configuring) = 3"
  "task_rank (Task path (Tokening url known)) = 2" "task_rank (Task path (Sending known)) = 1"
  "task_rank (Task path (Listening e)) = 0" "task_rank (Task path Done) = 0" "task_rank (Task path Failed) = 0"
  by (simp_all add: task_rank_def)

lemma task_demand_kept:
  assumes "ids_kept s t" shows "task_demand site t T \<le> task_demand site s T"
proof -
  have "known_in t q" if "known_in s q" for q
    using assms that by (auto simp: known_in_def ids_kept_def)
  then show ?thesis
    unfolding task_demand_def by (auto intro!: demand_antimono split: stage.splits)
qed

lemma task_demand_same: "umaIdStore t = umaIdStore s \<Longrightarrow> task_demand site t = task_demand site s"
proof -
  assume "umaIdStore t = umaIdStore s"
  then have "known_after st t = known_after st s" for st
    by (simp add: fun_eq_iff known_after_def known_in_def known_id_def)
  then show ?thesis by (intro ext) (simp add: task_demand_def split: stage.split)
qed

lemma task_demand_woken:
  assumes "ids_kept s t" and "known_in t event"
  shows "task_demand site t (wake event T) \<le> task_demand site s T"
proof (cases "task_stage T = Listening event")
  case True
  have "known_in t q" if "q = event \<or> known_in s q" for q
    using assms that by (auto simp: known_in_def ids_kept_def)
  with True show ?thesis by (cases T) (auto simp: wake_def intro!: demand_antimono)
next
  case False
  with task_demand_kept [OF assms(1)] show ?thesis by (simp add: wake_def)
qed

lemma demands_kept:
  "ids_kept s t \<Longrightarrow>
     \<Sum>\<^sub># (image_mset (task_demand site t) M) \<le> \<Sum>\<^sub># (image_mset (task_demand site s) M)"
  by (rule sum_mset_mono) (rule task_demand_kept)

lemma demands_woken:
  "ids_kept s t \<Longrightarrow> known_in t event \<Longrightarrow>
     \<Sum>\<^sub># (image_mset (task_demand site t) (emit event M)) \<le> \<Sum>\<^sub># (image_mset (task_demand site s) M)"
  by (simp add: emit_def image_mset.compositionality comp_def sum_mset_mono task_demand_woken)

subsection \<open>Every step of a call lowers the measure\<close>

text \<open>No identifier is the empty string, which the client takes for a missing one.\<close>

definition proper_ids :: "'a rs_state \<Rightarrow> bool" where
  "proper_ids s \<longleftrightarrow> (\<forall>path. umaIdStore s path \<noteq> Some '''')"

lemma proper_ids_known: "proper_ids s \<Longrightarrow> umaIdStore s path \<noteq> None \<Longrightarrow> known_in s path"
  by (auto simp: proper_ids_def known_in_def known_id_def truthy_str_def)

text \<open>The step that adds a call.\<close>

definition new_call :: "'a pool \<Rightarrow> 'a pool \<Rightarrow> bool" where
  "new_call p q \<longleftrightarrow> (\<exists>path. tasks q = add_mset (Task path Start) (tasks p))"

lemma start_lowers:
  assumes "tasks p = add_mset (Task path Start) M" and "register_start path (client p) = (st, s)"
    and "client q = s" and "tasks q = add_mset (Task path st) M"
  shows "pool_measure site q < pool_measure site p"
proof -
  have "task_demand site s = task_demand site (client p)"
    by (rule task_demand_same) (rule register_start_ids [OF assms(2)])
  moreover have "demand site (\<lambda>q. q = path \<or> known_in (client p) q) path \<le> demand site (known_in (client p)) path"
    by (rule demand_antimono) simp
  ultimately show ?thesis
    using assms by (auto simp: pool_measure_def register_start_def split: if_splits)
qed

lemma token_lowers:
  assumes "hierarchical site" and "tasks p = add_mset (Task path (Tokening url known)) M"
    and "await_parent site path (client p) = (new, s)"
    and "client q = s" and "tasks q = add_mset (Task path (Sending known)) (new + M)"
  shows "pool_measure site q < pool_measure site p"
proof -
  have same: "task_demand site s = task_demand site (client p)"
    by (rule task_demand_same) (rule await_parent_ids [OF assms(3)])
  let ?parent = "parent_of site path" and ?known = "known_in (client p)"
  have waiting: "demand site (\<lambda>q. q = ?parent \<or> ?known q) path = 1"
    by (rule demand_parent_known [OF assms(1)]) simp
  have unknown: "3 + demand site ?known ?parent \<le> demand site ?known path"
    if "\<not> is_root site path" "known_id ?parent (client p) = None"
    by (rule demand_parent_unknown [OF assms(1) that(1)]) (simp add: known_in_def that)
  from assms(3) show ?thesis
  proof (cases rule: await_parent_cases)
    case none
    then show ?thesis
      using assms demand_pos [of site ?known path] same by (simp add: pool_measure_def Suc_le_eq)
  next
    case busy
    then show ?thesis using assms same waiting unknown by (simp add: pool_measure_def)
  next
    case begun
    then show ?thesis using assms(2,4,5) same waiting unknown by (simp add: pool_measure_def)
  qed
qed

lemma response_lowers:
  assumes "progress_ok p" and "tasks p = add_mset (Task path (Sending known)) M"
    and "register_response path known resp (client p) = (Inr u, s)" and "proper_ids s"
    and "client q = s" and "tasks q = add_mset (Task path Done) (emit path M)"
  shows "pool_measure site q < pool_measure site p"
proof -
  have "known = known_id path (client p)" using assms(1,2) by (simp add: progress_ok_def task_ok_def)
  note ids = register_response_ids [OF assms(3) this]
  have "known_in s path" using proper_ids_known [OF assms(4)] ids by blast
  with demands_woken [of "client p" s path site M] ids assms(2,5,6) show ?thesis
    by (simp add: pool_measure_def)
qed

lemma failure_lowers:
  assumes "tasks p = add_mset (Task path st) M"
    and "st = Configuring \<or> (\<exists>url known. st = Tokening url known) \<or> (\<exists>known. st = Sending known)"
    and "client q = client p" and "tasks q = add_mset (Task path Failed) M"
  shows "pool_measure site q < pool_measure site p"
  using assms demand_pos [of site "known_in (client p)" path] by (auto simp: pool_measure_def)

lemma step_lowers:
  assumes "registration_step site lib p q" and "progress_ok p" and "hierarchical site"
    and "proper_ids (client q)" and "\<not> new_call p q"
  shows "pool_measure site q < pool_measure site p
    \<or> (tasks q = tasks p \<and> sent q = sent p \<and> pool_measure site q = pool_measure site p)"
  using assms(1)
proof (cases rule: registration_step.cases)
  case (call path)
  with assms(5) show ?thesis by (simp add: new_call_def)
next
  case (start path M st s)
  then show ?thesis by (intro disjI1 start_lowers [OF start(2,3)]) simp_all
next
  case (configured path M endpoint)
  then show ?thesis by (simp add: pool_measure_def register_configured_def split: option.splits)
next
  case (token path url known M new s pat)
  then show ?thesis by (intro disjI1 token_lowers [OF assms(3) token(2,3)]) simp_all
next
  case (response path known M resp s)
  then show ?thesis
    using assms(4) by (intro disjI1 response_lowers [OF assms(2) response(2,3)]) simp_all
next
  case (failure path st M)
  then show ?thesis by (intro disjI1 failure_lowers [OF failure(2,3)]) simp_all
next
  case (other s)
  with task_demand_same [OF other(2)] show ?thesis by (simp add: pool_measure_def)
qed

subsection \<open>Runs without new calls\<close>

lemma weakly_decreasing_stops:
  fixes m :: "nat \<Rightarrow> 'b :: wellorder"
  assumes "\<And>i. m (Suc i) < m i \<or> m (Suc i) = m i \<and> same (Suc i) i"
    and "\<And>i. same i i" and "\<And>i j k. same i j \<Longrightarrow> same j k \<Longrightarrow> same i k"
  shows "\<exists>n. \<forall>i \<ge> n. same i n"
proof -
  have "(LEAST x. x \<in> range m) \<in> range m" by (rule LeastI [of _ "m 0"]) simp
  then obtain n where n: "(LEAST x. x \<in> range m) = m n" by blast
  have least: "m n \<le> m i" for i unfolding n [symmetric] by (rule Least_le) simp
  have "m i = m n \<and> same i n" if "n \<le> i" for i
    using that
  proof (induction i rule: dec_induct)
    case (step i)
    then have "m (Suc i) = m i \<and> same (Suc i) i" using assms(1) [of i] least [of "Suc i"] by auto
    with step assms(3) show ?case by metis
  qed (simp add: assms(2))
  then show ?thesis by blast
qed

text \<open>
  the calls of \<open>registerResource\<close> come to rest: in every run in which no call is added from some
  point on, however the calls are interleaved with each other and with other requests and whatever
  the server answers, the calls take finitely many further steps and send finitely many further
  requests. Calls that are woken together and wait again, and a resource that is registered twice
  because its parent was missing, cannot go on forever. The paths of parents are shorter, and no
  identifier is empty.
\<close>

theorem registrations_settle:
  assumes "fresh_pool p0" and "site_ok site" and "hierarchical site"
    and "(registration_step site lib)\<^sup>*\<^sup>* p0 (run 0)" and "\<forall>i. registration_step site lib (run i) (run (Suc i))"
    and "\<forall>i. \<not> new_call (run i) (run (Suc i))" and "\<forall>i. proper_ids (client (run i))"
  shows "\<exists>n. \<forall>i \<ge> n. tasks (run i) = tasks (run n) \<and> sent (run i) = sent (run n)"
proof -
  have "(registration_step site lib)\<^sup>*\<^sup>* p0 (run i)" for i
    by (induction i) (use assms(4,5) in \<open>auto intro: rtranclp.rtrancl_into_rtrancl\<close>)
  then have "progress_ok (run i)" for i
    using progress_reachable [OF _ assms(2) fresh_progress [OF assms(1)]] by blast
  then have "pool_measure site (run (Suc i)) < pool_measure site (run i)
      \<or> pool_measure site (run (Suc i)) = pool_measure site (run i)
        \<and> tasks (run (Suc i)) = tasks (run i) \<and> sent (run (Suc i)) = sent (run i)" for i
    using step_lowers [of site lib "run i" "run (Suc i)"] assms(3,5,6,7) by blast
  note lowers = this
  show ?thesis
    by (rule weakly_decreasing_stops [where m = "\<lambda>i. pool_measure site (run i)"])
      (use lowers in \<open>blast | simp\<close>)+
qed

subsection \<open>Example\<close>

text \<open>One call for the root container, whose request is never answered.\<close>

definition flat_site :: site where
  "flat_site = \<lparr>is_container = (\<lambda>path. path = ''/''), is_root = (\<lambda>path. length path \<le> 1), parent_of = (\<lambda>_. ''/'')\<rparr>"

definition example_run :: "nat \<Rightarrow> unit pool" where
  "example_run i = (if i = 0 then example_pool\<lparr>tasks := {#Task ''/'' Start#}\<rparr>
     else example_pool\<lparr>client := marked, tasks := {#Task ''/'' Configuring#}\<rparr>)"

lemma example_run_steps: "registration_step flat_site lib (example_run i) (example_run (Suc i))"
proof (cases i)
  case 0
  have "registration_step flat_site lib (example_run 0) ((example_run 0)\<lparr>client := marked, tasks := {#Task ''/'' Configuring#}\<rparr>)"
    by (rule start) (simp_all add: example_run_def example_pool_def register_start_def marked_def rs_example_def)
  with 0 show ?thesis by (simp add: example_run_def)
next
  case (Suc n)
  have "registration_step flat_site lib (example_run i) ((example_run i)\<lparr>client := client (example_run i)\<rparr>)"
    by (rule other) simp_all
  then have "registration_step flat_site lib (example_run i) (example_run i)" by simp
  moreover have "example_run (Suc i) = example_run i" using Suc by (simp add: example_run_def)
  ultimately show ?thesis by simp
qed

theorem registrations_settle_witness:
  "\<exists>n. \<forall>i \<ge> n. tasks (example_run i) = tasks (example_run n)"
proof -
  have site: "site_ok flat_site" "hierarchical flat_site"
    by (simp_all add: site_ok_def hierarchical_def flat_site_def PAT_EVENT_def)
  have called: "registration_step flat_site lib example_pool (example_run 0)" for lib
    using call [of "''/''" flat_site lib example_pool] by (simp add: example_run_def example_pool_def PAT_EVENT_def)
  have calls: "\<forall>i. \<not> new_call (example_run i) (example_run (Suc i))"
    by (simp add: new_call_def example_run_def)
  have ids: "\<forall>i. proper_ids (client (example_run i))"
    by (simp add: proper_ids_def example_run_def example_pool_def marked_def rs_example_def)
  have "(registration_step flat_site example_rs_library)\<^sup>*\<^sup>* example_pool (example_run 0)"
    using called [of example_rs_library] by (rule r_into_rtranclp)
  from registrations_settle [OF example_pool_ok(1) site this _ calls ids] example_run_steps show ?thesis by blast
qed

end
