(* ===== verification/AccountSettles.thy ===== *)
theory AccountSettles
  imports AccountUpdates RegistrationSettles
begin

text \<open>
  The updates of an account (\<open>PatUpdater.updateRecursive\<close>) come to rest, together with the calls of
  \<open>registerResource\<close> they make: the measure of the pool of calls (RegistrationSettles) is preceded by
  the number of stages the updates still have before them, those of the members included.
\<close>

subsection \<open>The order of the stages\<close>

fun stage_rank :: "update_stage \<Rightarrow> nat" where
  "stage_rank Deregister = 0"
| "stage_rank Register = 1"
| "stage_rank Registering = 2"
| "stage_rank ListMembers = 3"
| "stage_rank Updated = 4"
| "stage_rank Broken = 5"

instantiation update_stage :: linorder
begin

definition less_eq_update_stage :: "update_stage \<Rightarrow> update_stage \<Rightarrow> bool" where
  "less_eq_update_stage a b \<longleftrightarrow> stage_rank a \<le> stage_rank b"

definition less_update_stage :: "update_stage \<Rightarrow> update_stage \<Rightarrow> bool" where
  "less_update_stage a b \<longleftrightarrow> stage_rank a < stage_rank b"

instance
proof
  fix a b :: update_stage
  show "a \<le> b \<Longrightarrow> b \<le> a \<Longrightarrow> a = b"
    by (cases a; cases b) (simp_all add: less_eq_update_stage_def)
qed (auto simp: less_eq_update_stage_def less_update_stage_def)

end

lemma stages_ordered [simp]:
  "Deregister < Register" "Register < Registering" "Registering < ListMembers" "ListMembers < Updated"
  "st \<le> Broken" "Registering < after_registration site u"
  by (simp_all add: less_update_stage_def less_eq_update_stage_def after_registration_def, cases st, simp_all)

text \<open>No update goes back.\<close>

definition forward :: "(update \<times> update_stage) multiset \<Rightarrow> (update \<times> update_stage) multiset \<Rightarrow> bool" where
  "forward M N \<longleftrightarrow> (\<forall>u st. (u, st) \<in># M \<longrightarrow> (\<exists>st' \<ge> st. (u, st') \<in># N))"

lemma forward_add: "st \<le> st' \<Longrightarrow> forward (add_mset (u, st) M) (add_mset (u, st') (N + M))"
  by (auto simp: forward_def)

lemma update_step_forward:
  assumes "update_step site lib fetch members p q"
  shows "forward (updates p) (updates q)"
  using assms
proof (cases rule: update_stepE)
  case (lists u M)
  then show ?thesis by (simp add: forward_add less_imp_le)
qed (use forward_add [where N = "{#}"] in \<open>auto simp: forward_def less_imp_le\<close>)

subsection \<open>The stages an update has before it\<close>

fun member_load :: "(string \<Rightarrow> string list) \<Rightarrow> nat \<Rightarrow> string \<Rightarrow> nat" where
  "member_load members 0 r = 0"
| "member_load members (Suc n) r = sum_list (map (\<lambda>m. 5 + member_load members n m) (members r))"

text \<open>What the containers contain is a finite tree: the path of a member extends that of its container.\<close>

definition member_tree :: "(string \<Rightarrow> string list) \<Rightarrow> nat \<Rightarrow> bool" where
  "member_tree members b \<longleftrightarrow> (\<forall>r. \<forall>m \<in> set (members r). length r < length m \<and> length m \<le> b)"

definition stage_load :: "(string \<Rightarrow> string list) \<Rightarrow> nat \<Rightarrow> update \<times> update_stage \<Rightarrow> nat" where
  "stage_load members b = (\<lambda>(u, st). if st \<ge> Updated then 0
     else 4 - stage_rank st + member_load members (b - length (up_resource u)) (up_resource u))"

definition updates_load :: "(string \<Rightarrow> string list) \<Rightarrow> nat \<Rightarrow> 'a updating \<Rightarrow> nat" where
  "updates_load members b p = \<Sum>\<^sub># (image_mset (stage_load members b) (updates p))"

lemma member_load_Suc: "member_load members n r \<le> member_load members (Suc n) r"
proof (induction n arbitrary: r)
  case (Suc n)
  then show ?case by (auto intro!: sum_list_mono simp del: member_load.simps(1))
qed simp

lemma member_load_mono: "m \<le> n \<Longrightarrow> member_load members m r \<le> member_load members n r"
  by (rule lift_Suc_mono_le [of "\<lambda>n. member_load members n r"]) (rule member_load_Suc)

lemma first_load: "stage_load members b (u, first_stage u) \<le> 5 + member_load members (b - length (up_resource u)) (up_resource u)"
  by (cases "up_previous u") (simp_all add: stage_load_def first_stage_def)

lemma started_load:
  "\<Sum>\<^sub># (image_mset (stage_load members b) (started us))
     \<le> sum_list (map (\<lambda>u. 5 + member_load members (b - length (up_resource u)) (up_resource u)) us)"
  by (induction us) (auto simp: started_def intro: add_mono first_load)

lemma members_load:
  assumes "member_tree members b"
  shows "\<Sum>\<^sub># (image_mset (stage_load members b) (started (map (member_update u) (members (up_resource u)))))
    \<le> member_load members (b - length (up_resource u)) (up_resource u)"
proof (cases "members (up_resource u)")
  case Nil
  then show ?thesis by (simp add: started_def)
next
  case (Cons m ms)
  let ?r = "up_resource u"
  have "m \<in> set (members ?r)" by (simp add: Cons)
  with assms have "length ?r < length m" "length m \<le> b" unfolding member_tree_def by blast+
  then have n: "b - length ?r = Suc (b - Suc (length ?r))" by simp
  have "\<Sum>\<^sub># (image_mset (stage_load members b) (started (map (member_update u) (members ?r))))
      \<le> sum_list (map (\<lambda>m. 5 + member_load members (b - length m) m) (members ?r))"
    using started_load [of members b "map (member_update u) (members ?r)"] by (simp add: comp_def member_update_def)
  also have "\<dots> \<le> sum_list (map (\<lambda>m. 5 + member_load members (b - Suc (length ?r)) m) (members ?r))"
    using assms by (intro sum_list_mono add_left_mono member_load_mono diff_le_mono2) (simp add: member_tree_def Suc_le_eq)
  finally show ?thesis by (simp add: n)
qed

subsection \<open>Every step lowers the measure\<close>

definition updating_measure :: "site \<Rightarrow> (string \<Rightarrow> string list) \<Rightarrow> nat \<Rightarrow> 'a updating \<Rightarrow> nat \<times> nat \<times> nat" where
  "updating_measure site members b p = (updates_load members b p, pool_measure site (pool p))"

text \<open>A call of \<open>registerResource\<close> that does not come from an update.\<close>

definition outside_call :: "'a updating \<Rightarrow> 'a updating \<Rightarrow> bool" where
  "outside_call p q \<longleftrightarrow> new_call (pool p) (pool q) \<and> updates q = updates p"

definition at_rest :: "'a updating \<Rightarrow> 'a updating \<Rightarrow> bool" where
  "at_rest q p \<longleftrightarrow> updates q = updates p \<and> history q = history p \<and> tasks (pool q) = tasks (pool p)
     \<and> sent (pool q) = sent (pool p)"

lemma load_lowers:
  assumes "updates p = add_mset (u, st) M" and "updates q = add_mset (u, st') M" and "st < st'" and "st < Updated"
  shows "updating_measure site members b q < updating_measure site members b p"
  using assms
  by (cases st; cases st') (simp_all add: updating_measure_def updates_load_def stage_load_def less_prod_def
      less_update_stage_def less_eq_update_stage_def)

lemma update_step_lowers:
  assumes "update_step site lib fetch members p q" and "progress_ok (pool p)" and "hierarchical site"
    and "proper_ids (client (pool q))" and "\<not> outside_call p q" and "member_tree members b"
  shows "updating_measure site members b q < updating_measure site members b p
    \<or> updating_measure site members b q = updating_measure site members b p \<and> at_rest q p"
  using assms(1)
proof (cases rule: update_stepE)
  case (calls q')
  with assms(5) have "\<not> new_call (pool p) q'" by (simp add: outside_call_def)
  from step_lowers [OF calls(2) assms(2,3) _ this] assms(4) show ?thesis
    by (auto simp: calls(1) updating_measure_def updates_load_def at_rest_def)
next
  case (waits u M issuer credentials e s)
  from deleteResource_keeps [OF waits(4)] have "task_demand site s = task_demand site (client (pool p))"
    by (intro task_demand_same) simp
  then show ?thesis by (simp add: waits(1) updating_measure_def updates_load_def pool_measure_def at_rest_def)
next
  case (deregistered u M issuer credentials s)
  then show ?thesis by (intro disjI1 load_lowers [of p u Deregister M q Register]) (simp_all add: less_update_stage_def)
next
  case (registers u M)
  then show ?thesis by (intro disjI1 load_lowers [of p u Register M q Registering]) (simp_all add: less_update_stage_def)
next
  case (registered u M)
  then show ?thesis
    by (intro disjI1 load_lowers [of p u Registering M q "after_registration site u"])
      (simp_all add: less_update_stage_def after_registration_def)
next
  case (lists u M)
  with members_load [OF assms(6), of u] show ?thesis
    by (simp add: updating_measure_def updates_load_def stage_load_def less_update_stage_def less_eq_update_stage_def)
next
  case (breaks u st M)
  then show ?thesis by (intro disjI1 load_lowers [of p u st M q Broken]) (auto simp: less_update_stage_def)
qed

text \<open>
  C8: the updates of an account end: in every run in which nothing else calls \<open>registerResource\<close>, however
  the updates and their calls are interleaved with each other and with other requests, whatever the
  server answers and whichever of them fail, the updates go through finitely many stages, none of
  them goes back, and finitely many calls and requests are made. The containers hold a finite tree,
  the paths of parents are shorter, and no identifier is empty.
\<close>

theorem updates_settle:
  assumes "fresh_pool p0" and "site_ok site" and "hierarchical site" and "member_tree members b"
    and "run 0 = \<lparr>pool = p0, updates = started us, history = []\<rparr>"
    and "\<forall>i. update_step site lib fetch members (run i) (run (Suc i))"
    and "\<forall>i. \<not> outside_call (run i) (run (Suc i))" and "\<forall>i. proper_ids (client (pool (run i)))"
  shows "(\<exists>n. \<forall>i \<ge> n. at_rest (run i) (run n)) \<and> (\<forall>i j. i \<le> j \<longrightarrow> forward (updates (run i)) (updates (run j)))"
proof
  let ?m = "\<lambda>i. updating_measure site members b (run i)"
  have "(update_step site lib fetch members)\<^sup>*\<^sup>* (run 0) (run i)" for i
    by (induction i) (use assms(6) in \<open>auto intro: rtranclp.rtrancl_into_rtrancl\<close>)
  from update_steps_pool [OF this] have "(registration_step site lib)\<^sup>*\<^sup>* p0 (pool (run i))" for i
    by (simp add: assms(5))
  then have "progress_ok (pool (run i))" for i
    using progress_reachable [OF _ assms(2) fresh_progress [OF assms(1)]] by blast
  then have "?m (Suc i) < ?m i \<or> ?m (Suc i) = ?m i \<and> at_rest (run (Suc i)) (run i)" for i
    using update_step_lowers [of site lib fetch members "run i" "run (Suc i)" b] assms(3,4,6,7,8) by blast
  then show "\<exists>n. \<forall>i \<ge> n. at_rest (run i) (run n)"
    by (rule weakly_decreasing_stops [where m = ?m]) (simp_all add: at_rest_def)
next
  have "forward (updates (run i)) (updates (run j))" if "i \<le> j" for i j
    using that
  proof (induction j rule: dec_induct)
    case (step j)
    with update_step_forward [OF assms(6) [rule_format, of j]] show ?case
      unfolding forward_def by (meson order.trans)
  qed (auto simp: forward_def)
  then show "\<forall>i j. i \<le> j \<longrightarrow> forward (updates (run i)) (updates (run j))" by blast
qed

subsection \<open>Example\<close>

text \<open>One update, whose call is never answered.\<close>

definition example_updates :: "nat \<Rightarrow> unit updating" where
  "example_updates i = (if i = 0 then example_updating
     else example_updating\<lparr>pool := example_pool\<lparr>tasks := {#Task ''/'' Start#}\<rparr>, updates := {#(example_update, Registering)#}\<rparr>)"

lemma example_updates_steps:
  "update_step flat_site lib fetch (\<lambda>_. []) (example_updates i) (example_updates (Suc i))"
proof (cases i)
  case 0
  have "update_step flat_site lib fetch (\<lambda>_. []) example_updating
      (example_updating\<lparr>pool := (pool example_updating)\<lparr>tasks := add_mset (Task (up_resource example_update) Start)
          (tasks (pool example_updating))\<rparr>, updates := add_mset (example_update, Registering) {#}\<rparr>)"
    by (rule registers) (simp_all add: example_updating_def started_def example_update_def first_stage_def PAT_EVENT_def)
  with 0 show ?thesis by (simp add: example_updates_def example_updating_def example_update_def example_pool_def)
next
  case (Suc n)
  have "update_step flat_site lib fetch (\<lambda>_. []) (example_updates i)
      ((example_updates i)\<lparr>pool := (pool (example_updates i))\<lparr>client := client (pool (example_updates i))\<rparr>\<rparr>)"
    by (intro calls other) simp_all
  then have "update_step flat_site lib fetch (\<lambda>_. []) (example_updates i) (example_updates i)" by simp
  moreover have "example_updates (Suc i) = example_updates i" using Suc by (simp add: example_updates_def)
  ultimately show ?thesis by simp
qed

theorem updates_settle_witness:
  "\<exists>n. \<forall>i \<ge> n. at_rest (example_updates i) (example_updates n)"
proof -
  have site: "site_ok flat_site" "hierarchical flat_site" "member_tree (\<lambda>_. []) 0"
    by (simp_all add: site_ok_def hierarchical_def flat_site_def PAT_EVENT_def member_tree_def)
  have first: "example_updates 0 = \<lparr>pool = example_pool, updates = started [example_update], history = []\<rparr>"
    by (simp add: example_updates_def example_updating_def)
  have steps: "\<forall>i. update_step flat_site example_rs_library (example_server 201) (\<lambda>_. []) (example_updates i) (example_updates (Suc i))"
    by (simp add: example_updates_steps)
  have calls: "\<forall>i. \<not> outside_call (example_updates i) (example_updates (Suc i))"
    by (simp add: outside_call_def new_call_def example_updates_def example_updating_def started_def first_stage_def example_update_def)
  have ids: "\<forall>i. proper_ids (client (pool (example_updates i)))"
    by (simp add: proper_ids_def example_updates_def example_updating_def example_pool_def rs_example_def)
  from updates_settle [OF example_pool_ok(1) site first steps calls ids] show ?thesis by blast
qed

end
