(* ===== verification/ConcurrentTokens.thy ===== *)
theory ConcurrentTokens
  imports NegotiationFacts TokenEndpoint "HOL-Library.Multiset"
begin

text \<open>
  Requests to the token endpoint that are handled at the same time. \<open>getTicket\<close>
  (\<open>packages/uma/src/dialog/BaseNegotiator.ts\<close>) awaits the answer of the storage before it deletes
  the ticket, and \<open>RefreshTokenHandler\<close> (\<open>packages/uma/src/routes/token/RefreshTokenHandler.ts\<close>) awaits a
  whole negotiation between reading and deleting the refresh token, so that other requests read the
  same entry meanwhile. A request is a task with one stage per await, and a step relation runs any
  number of them in any order. The requests that amend a ticket without redeeming it
  (\<open>AggregatorNegotiator\<close>) are not among them.
\<close>

subsection \<open>Redemption\<close>

datatype 'v redemption =
    Presented string
  | Found string 'v
  | Redeemed string 'v
  | Rejected string

record ('s, 'v) desk =
  desk_state :: 's
  requests :: "'v redemption multiset"

inductive redemption_step ::
  "('s \<Rightarrow> string \<Rightarrow> 'v option) \<Rightarrow> (string \<Rightarrow> 's \<Rightarrow> 's) \<Rightarrow> ('s \<Rightarrow> 's \<Rightarrow> bool) \<Rightarrow> ('s, 'v) desk \<Rightarrow> ('s, 'v) desk \<Rightarrow> bool"
  for look spend others where
  present: "redemption_step look spend others p (p\<lparr>requests := add_mset (Presented k) (requests p)\<rparr>)"
| found: "requests p = add_mset (Presented k) M \<Longrightarrow> look (desk_state p) k = Some v \<Longrightarrow>
     redemption_step look spend others p (p\<lparr>requests := add_mset (Found k v) M\<rparr>)"
| missing: "requests p = add_mset (Presented k) M \<Longrightarrow> look (desk_state p) k = None \<Longrightarrow>
     s = desk_state p \<or> s = spend k (desk_state p) \<Longrightarrow>
     redemption_step look spend others p (p\<lparr>desk_state := s, requests := add_mset (Rejected k) M\<rparr>)"
| redeem: "requests p = add_mset (Found k v) M \<Longrightarrow>
     redemption_step look spend others p
       (p\<lparr>desk_state := spend k (desk_state p), requests := add_mset (Redeemed k v) M\<rparr>)"
| fail: "requests p = add_mset (Found k v) M \<Longrightarrow>
     redemption_step look spend others p (p\<lparr>requests := add_mset (Rejected k) M\<rparr>)"
| other: "others (desk_state p) s \<Longrightarrow> redemption_step look spend others p (p\<lparr>desk_state := s\<rparr>)"

inductive_cases redemption_stepE: "redemption_step look spend others p q"

text \<open>How many requests have redeemed an entry, and how many hold one they have read.\<close>

definition redeemed :: "string \<Rightarrow> 'v redemption multiset \<Rightarrow> nat" where
  "redeemed k M = size (filter_mset (\<lambda>r. case r of Redeemed j v \<Rightarrow> j = k | _ \<Rightarrow> False) M)"

definition in_hand :: "string \<Rightarrow> 'v redemption multiset \<Rightarrow> nat" where
  "in_hand k M = size (filter_mset (\<lambda>r. case r of Found j v \<Rightarrow> j = k | _ \<Rightarrow> False) M)"

lemma redeemed_simps [simp]:
  "redeemed k {#} = 0" "redeemed k (add_mset (Presented j) M) = redeemed k M"
  "redeemed k (add_mset (Found j v) M) = redeemed k M" "redeemed k (add_mset (Rejected j) M) = redeemed k M"
  "redeemed k (add_mset (Redeemed j v) M) = (if j = k then 1 else 0) + redeemed k M"
  by (simp_all add: redeemed_def)

lemma in_hand_simps [simp]:
  "in_hand k {#} = 0" "in_hand k (add_mset (Presented j) M) = in_hand k M"
  "in_hand k (add_mset (Redeemed j v) M) = in_hand k M" "in_hand k (add_mset (Rejected j) M) = in_hand k M"
  "in_hand k (add_mset (Found j v) M) = (if j = k then 1 else 0) + in_hand k M"
  by (simp_all add: in_hand_def)

subsection \<open>Single use\<close>

text \<open>
  What a storage has to promise: a spent entry is gone, nothing else stores an entry under a key that
  will not be drawn again, and such keys stay what they are.
\<close>

locale single_use =
  fixes look :: "'s \<Rightarrow> string \<Rightarrow> 'v option"
    and stocked :: "'s \<Rightarrow> string \<Rightarrow> bool"
    and spend :: "string \<Rightarrow> 's \<Rightarrow> 's"
    and others :: "'s \<Rightarrow> 's \<Rightarrow> bool"
    and settled :: "string \<Rightarrow> 's \<Rightarrow> bool"
  assumes look_stocked: "look s k = Some v \<Longrightarrow> stocked s k"
    and stocked_spend: "stocked (spend k s) j \<Longrightarrow> j \<noteq> k \<and> stocked s j"
    and stocked_others: "others s t \<Longrightarrow> settled k s \<Longrightarrow> stocked t k \<Longrightarrow> stocked s k"
    and settled_spend: "settled k s \<Longrightarrow> settled k (spend j s)"
    and settled_others: "others s t \<Longrightarrow> settled k s \<Longrightarrow> settled k t"
begin

abbreviation step :: "('s, 'v) desk \<Rightarrow> ('s, 'v) desk \<Rightarrow> bool" where
  "step \<equiv> redemption_step look spend others"

definition spent_once_redeemed :: "string \<Rightarrow> ('s, 'v) desk \<Rightarrow> bool" where
  "spent_once_redeemed k p \<longleftrightarrow> settled k (desk_state p)
     \<and> (0 < redeemed k (requests p) \<longrightarrow> \<not> stocked (desk_state p) k)"

lemma spent_once_redeemed_step:
  "step p q \<Longrightarrow> spent_once_redeemed k p \<Longrightarrow> spent_once_redeemed k q"
  by (erule redemption_stepE)
    (auto simp: spent_once_redeemed_def settled_spend settled_others
      dest: stocked_spend stocked_others split: if_splits)

lemma redeemed_step:
  assumes "step p q" and "spent_once_redeemed k p" and "0 < redeemed k (requests p)"
  shows "redeemed k (requests p) \<le> redeemed k (requests q)
    \<and> redeemed k (requests q) + in_hand k (requests q) \<le> redeemed k (requests p) + in_hand k (requests p)"
  using assms
  by (elim redemption_stepE) (auto simp: spent_once_redeemed_def dest: look_stocked)

lemma redeemed_bounded:
  assumes "requests p0 = {#}" and "settled k (desk_state p0)" and "step\<^sup>*\<^sup>* p0 p"
    and "0 < redeemed k (requests p)" and "step\<^sup>*\<^sup>* p q"
  shows "redeemed k (requests p) \<le> redeemed k (requests q)
    \<and> redeemed k (requests q) \<le> redeemed k (requests p) + in_hand k (requests p)"
proof -
  have start: "spent_once_redeemed k p"
    using assms(3)
    by (induction rule: rtranclp_induct)
      (use assms(1,2) in \<open>auto simp: spent_once_redeemed_def [of k p0] intro: spent_once_redeemed_step\<close>)
  have "spent_once_redeemed k q \<and> redeemed k (requests p) \<le> redeemed k (requests q)
      \<and> redeemed k (requests q) + in_hand k (requests q) \<le> redeemed k (requests p) + in_hand k (requests p)"
    using assms(5)
  proof (induction rule: rtranclp_induct)
    case (step q r)
    with redeemed_step [OF step(2), of k] assms(4) spent_once_redeemed_step [OF step(2), of k]
    show ?case by linarith
  qed (use start in simp)
  then show ?thesis by linarith
qed

end

subsection \<open>Tickets and refresh tokens\<close>

definition ticket_found :: "dialog_state \<Rightarrow> string \<Rightarrow> ticket option" where
  "ticket_found s k = kv_get (ticketStore s) k"

definition spend_ticket :: "string \<Rightarrow> dialog_state \<Rightarrow> dialog_state" where
  "spend_ticket k s = s\<lparr>ticketStore := kv_delete (ticketStore s) k\<rparr>"

definition refresh_found :: "dialog_state \<Rightarrow> string \<Rightarrow> refresh_information option" where
  "refresh_found s k = (case ex_get (clock s) (refreshStore s) k of
      None \<Rightarrow> None
    | Some information \<Rightarrow> if clock s > ri_expiration information then None else Some information)"

definition spend_refresh :: "string \<Rightarrow> dialog_state \<Rightarrow> dialog_state" where
  "spend_refresh k s = s\<lparr>refreshStore := ex_delete (refreshStore s) k\<rparr>"

text \<open>What the other requests do to the two storages.\<close>

definition other_requests :: "dialog_state \<Rightarrow> dialog_state \<Rightarrow> bool" where
  "other_requests s t \<longleftrightarrow> adds_drawn ticketStore s t \<and> adds_drawn refreshStore s t
     \<and> drawn s \<le> drawn t \<and> entropy t = entropy s"

definition drawn_before :: "string \<Rightarrow> dialog_state \<Rightarrow> bool" where
  "drawn_before k s \<longleftrightarrow> (\<forall>n \<ge> drawn s. entropy s n \<noteq> k)"

lemma dialog_step_other: "dialog_step s t \<Longrightarrow> other_requests s t"
  by (simp add: dialog_step_def other_requests_def)

lemma drawn_before_other: "other_requests s t \<Longrightarrow> drawn_before k s \<Longrightarrow> drawn_before k t"
  by (auto simp: other_requests_def drawn_before_def)

lemma stored_before_other:
  "other_requests s t \<Longrightarrow> drawn_before k s \<Longrightarrow> ticketStore t k \<noteq> None \<Longrightarrow> ticketStore s k \<noteq> None"
  "other_requests s t \<Longrightarrow> drawn_before k s \<Longrightarrow> refreshStore t k \<noteq> None \<Longrightarrow> refreshStore s k \<noteq> None"
  unfolding other_requests_def adds_drawn_def drawn_before_def by blast+

interpretation tickets: single_use ticket_found "\<lambda>s k. ticketStore s k \<noteq> None" spend_ticket other_requests drawn_before
proof unfold_locales
  show "ticketStore s k \<noteq> None" if "ticket_found s k = Some v" for s k v
    using that by (simp add: ticket_found_def kv_get_def)
  show "j \<noteq> k \<and> ticketStore s j \<noteq> None" if "ticketStore (spend_ticket k s) j \<noteq> None" for s j k
    using that by (auto simp: spend_ticket_def kv_delete_def split: if_splits)
  show "drawn_before k (spend_ticket j s)" if "drawn_before k s" for s j k
    using that by (simp add: spend_ticket_def drawn_before_def)
qed (fact stored_before_other drawn_before_other)+

interpretation refresh_tokens: single_use refresh_found "\<lambda>s k. refreshStore s k \<noteq> None" spend_refresh other_requests drawn_before
proof unfold_locales
  show "refreshStore s k \<noteq> None" if "refresh_found s k = Some v" for s k v
    using that by (auto simp: refresh_found_def ex_get_def split: option.splits)
  show "j \<noteq> k \<and> refreshStore s j \<noteq> None" if "refreshStore (spend_refresh k s) j \<noteq> None" for s j k
    using that by (auto simp: spend_refresh_def ex_delete_def split: if_splits)
  show "drawn_before k (spend_refresh j s)" if "drawn_before k s" for s j k
    using that by (simp add: spend_refresh_def drawn_before_def)
qed (fact stored_before_other drawn_before_other)+

abbreviation ticket_run :: "(dialog_state, ticket) desk \<Rightarrow> (dialog_state, ticket) desk \<Rightarrow> bool" where
  "ticket_run \<equiv> (redemption_step ticket_found spend_ticket other_requests)\<^sup>*\<^sup>*"

abbreviation refresh_desk_run ::
  "(dialog_state, refresh_information) desk \<Rightarrow> (dialog_state, refresh_information) desk \<Rightarrow> bool" where
  "refresh_desk_run \<equiv> (redemption_step refresh_found spend_refresh other_requests)\<^sup>*\<^sup>*"

subsection \<open>The handlers\<close>

text \<open>The ticket endpoint is one of the other requests: it stores its ticket under a drawn identifier.\<close>

lemma ticket_endpoint_other:
  assumes "ticketing_strategy strat rel" and "issue_ticket strat ps s = (r, t)"
  shows "other_requests s t"
proof (rule dialog_step_other, rule keepsD [where R = dialog_step and m = "issue_ticket strat ps"])
  show "issue_ticket strat ps s = (r, t)" by (rule assms)
  have store: "keeps dialog_step (bind randomUUID (\<lambda>i.
      bind (modify (\<lambda>s. s\<lparr>ticketStore := kv_set (ticketStore s) i tk\<rparr>)) (\<lambda>_.
      return \<lparr>status = 201, content = TicketBody i\<rparr>)))" for tk
  proof (rule keepsI)
    fix s and r :: "error + ticket_body response" and t
    assume "bind randomUUID (\<lambda>i. bind (modify (\<lambda>s. s\<lparr>ticketStore := kv_set (ticketStore s) i tk\<rparr>)) (\<lambda>_.
      return \<lparr>status = 201, content = TicketBody i\<rparr>)) s = (r, t)"
    then show "dialog_step s t"
      by (auto simp: dialog_step_def adds_drawn_def kv_set_def fresh_id_def intro: exI [of _ "drawn s"])
  qed
  show "keeps dialog_step (issue_ticket strat ps)"
    unfolding issue_ticket_def
    by (intro step_intros store quiet_is_dialog_step ticketing_strategy.init_quiet [OF assms(1)]
        ticketing_strategy.resolve_quiet [OF assms(1)])
qed

text \<open>Presenting an entry, reading it, what other requests do until it is spent, and what they do then.\<close>

lemma redemption_run:
  assumes "look s k = Some v" and "others s t" and "others (spend k t) u"
  shows "(redemption_step look spend others)\<^sup>*\<^sup>* \<lparr>desk_state = s, requests = M\<rparr>
    \<lparr>desk_state = u, requests = add_mset (Redeemed k v) M\<rparr>"
proof -
  let ?step = "redemption_step look spend others"
  have "?step \<lparr>desk_state = s, requests = M\<rparr> \<lparr>desk_state = s, requests = add_mset (Presented k) M\<rparr>"
    using present [of look spend others "\<lparr>desk_state = s, requests = M\<rparr>" k] by simp
  moreover have "?step \<lparr>desk_state = s, requests = add_mset (Presented k) M\<rparr>
      \<lparr>desk_state = s, requests = add_mset (Found k v) M\<rparr>"
    using found [of "\<lparr>desk_state = s, requests = add_mset (Presented k) M\<rparr>" k M look v spend others] assms(1) by simp
  moreover have "?step \<lparr>desk_state = s, requests = add_mset (Found k v) M\<rparr> \<lparr>desk_state = t, requests = add_mset (Found k v) M\<rparr>"
    using other [of others "\<lparr>desk_state = s, requests = add_mset (Found k v) M\<rparr>" t look spend] assms(2) by simp
  moreover have "?step \<lparr>desk_state = t, requests = add_mset (Found k v) M\<rparr>
      \<lparr>desk_state = spend k t, requests = add_mset (Redeemed k v) M\<rparr>"
    using redeem [of "\<lparr>desk_state = t, requests = add_mset (Found k v) M\<rparr>" k v M look spend others] by simp
  moreover have "?step \<lparr>desk_state = spend k t, requests = add_mset (Redeemed k v) M\<rparr>
      \<lparr>desk_state = u, requests = add_mset (Redeemed k v) M\<rparr>"
    using other [of others "\<lparr>desk_state = spend k t, requests = add_mset (Redeemed k v) M\<rparr>" u look spend] assms(3) by simp
  ultimately show ?thesis by (meson converse_rtranclp_into_rtranclp rtranclp.rtrancl_refl)
qed

lemma other_refl: "other_requests s s"
  by (rule dialog_step_other) (rule dialog_step.refl)

text \<open>
  C15: the handlers of the model, which handle one request at a time, are runs of the step relation: a
  negotiation that names a stored ticket reads it, spends it and goes on, and a successful refresh
  reads the token, negotiates and spends the token.
\<close>

theorem handlers_are_redemptions:
  assumes "verifier verify" and "sound_authorizer auth"
  shows "(truthy_opt (di_ticket input) \<and> ticket_found s (the (di_ticket input)) = Some tk
      \<and> server_negotiate verify (server_strategy cipher auth part) lib prm d input s = (r, t)
      \<longrightarrow> ticket_run \<lparr>desk_state = s, requests = M\<rparr>
           \<lparr>desk_state = t, requests = add_mset (Redeemed (the (di_ticket input)) tk) M\<rparr>)
    \<and> (RefreshTokenHandler (server_negotiate verify (server_strategy cipher auth part) lib prm d) req s = (Inr resp, t)
      \<longrightarrow> (\<exists>rt information. di_refresh_token (decode_input (req_body req)) = Some rt
           \<and> refresh_desk_run \<lparr>desk_state = s, requests = N\<rparr>
               \<lparr>desk_state = t, requests = add_mset (Redeemed rt information) N\<rparr>))"
proof (intro conjI impI; (elim conjE)?)
  let ?strat = "server_strategy cipher auth part"
  note contract = server_negotiation [OF assms(1) server_strategy_contract [OF assms(2)]]
  assume ticket: "truthy_opt (di_ticket input)" "ticket_found s (the (di_ticket input)) = Some tk"
    and run: "server_negotiate verify ?strat lib prm d input s = (r, t)"
  let ?k = "the (di_ticket input)"
  have "getTicket ?strat input s = (Inr tk, spend_ticket ?k s)"
    using ticket by (simp add: getTicket_def ticket_found_def spend_ticket_def return_def)
  with run have "negotiate_ticket verify ?strat (JwtTokenFactory lib prm) (Some (StoredRefreshTokenIssuer d)) input tk
      (spend_ticket ?k s) = (r, t)"
    by (simp add: server_negotiate_def BaseNegotiator_def bind_def)
  then have "dialog_step (spend_ticket ?k s) t"
    by (rule keepsD [OF base_negotiation.negotiate_ticket_step [OF contract]])
  then show "ticket_run \<lparr>desk_state = s, requests = M\<rparr> \<lparr>desk_state = t, requests = add_mset (Redeemed ?k tk) M\<rparr>"
    by (intro redemption_run [where look = ticket_found and s = s and t = s, OF ticket(2) other_refl] dialog_step_other)
next
  let ?neg = "server_negotiate verify (server_strategy cipher auth part) lib prm d"
  assume "RefreshTokenHandler ?neg req s = (Inr resp, t)"
  then obtain rt info out t' where rt: "di_refresh_token (decode_input (req_body req)) = Some rt"
    and info: "ex_get (clock s) (refreshStore s) rt = Some info" "clock s \<le> ri_expiration info"
    and neg: "?neg (refresh_input (ri_permissions info) rt) s = (Inr out, t')"
    and t: "t = t'\<lparr>refreshStore := ex_delete (refreshStore t') rt\<rparr>"
    by (rule refresh_run)
  have "other_requests s t'"
    by (rule dialog_step_other, rule negotiator.step [OF server_negotiator [OF assms(1) server_strategy_contract [OF assms(2)]] neg])
  then have "refresh_desk_run \<lparr>desk_state = s, requests = N\<rparr> \<lparr>desk_state = t, requests = add_mset (Redeemed rt info) N\<rparr>"
    using info by (intro redemption_run [where t = t'])
      (simp_all add: refresh_found_def spend_refresh_def t other_refl)
  with rt show "\<exists>rt information. di_refresh_token (decode_input (req_body req)) = Some rt
     \<and> refresh_desk_run \<lparr>desk_state = s, requests = N\<rparr> \<lparr>desk_state = t, requests = add_mset (Redeemed rt information) N\<rparr>"
    by blast
qed


text \<open>The same for refresh tokens, where the requests are at that point during a whole negotiation.\<close>

theorem refresh_redemptions_bounded:
  assumes "requests p0 = {#}" and "drawn_before k (desk_state p0)" and "refresh_desk_run p0 p"
    and "0 < redeemed k (requests p)" and "refresh_desk_run p q"
  shows "redeemed k (requests p) \<le> redeemed k (requests q)
    \<and> redeemed k (requests q) \<le> redeemed k (requests p) + in_hand k (requests p)"
  by (rule refresh_tokens.redeemed_bounded [OF assms])

subsection \<open>Examples\<close>

definition one_ticket :: "(dialog_state, ticket) desk" where
  "one_ticket = \<lparr>desk_state = ticket_state, requests = {#}\<rparr>"

lemma ticket_state_found: "ticket_found ticket_state ''t1'' = Some example_ticket" "drawn_before ''t1'' ticket_state"
  by (simp_all add: ticket_found_def kv_get_def ticket_state_def drawn_before_def empty_state_def)

lemma one_redemption:
  "ticket_run one_ticket \<lparr>desk_state = spend_ticket ''t1'' ticket_state, requests = {#Redeemed ''t1'' example_ticket#}\<rparr>"
  unfolding one_ticket_def
  by (rule redemption_run [where look = ticket_found and t = ticket_state, OF ticket_state_found(1)])
    (rule other_refl)+

text \<open>After the redemption another request presents the ticket and is rejected.\<close>

definition late_request :: "(dialog_state, ticket) desk" where
  "late_request = \<lparr>desk_state = spend_ticket ''t1'' ticket_state,
     requests = {#Rejected ''t1'', Redeemed ''t1'' example_ticket#}\<rparr>"

lemma late_request_run:
  "ticket_run \<lparr>desk_state = spend_ticket ''t1'' ticket_state, requests = {#Redeemed ''t1'' example_ticket#}\<rparr> late_request"
proof -
  let ?desk = "\<lambda>M. \<lparr>desk_state = spend_ticket ''t1'' ticket_state, requests = M\<rparr>"
  let ?step = "redemption_step ticket_found spend_ticket other_requests"
  have "?step (?desk {#Redeemed ''t1'' example_ticket#}) (?desk {#Presented ''t1'', Redeemed ''t1'' example_ticket#})"
    using redemption_step.present [of ticket_found spend_ticket other_requests "?desk {#Redeemed ''t1'' example_ticket#}" "''t1''"]
    by simp
  moreover have "?step (?desk {#Presented ''t1'', Redeemed ''t1'' example_ticket#}) late_request"
    using missing [of "?desk {#Presented ''t1'', Redeemed ''t1'' example_ticket#}" "''t1''" "{#Redeemed ''t1'' example_ticket#}"
        ticket_found "spend_ticket ''t1'' ticket_state" spend_ticket other_requests]
    by (simp add: late_request_def ticket_found_def spend_ticket_def kv_get_def kv_delete_def)
  ultimately show ?thesis by (meson converse_rtranclp_into_rtranclp rtranclp.rtrancl_refl)
qed


theorem handlers_are_redemptions_witness:
  "ticket_run one_ticket \<lparr>desk_state = snd (example_negotiate AllAuthorizer ticket_input ticket_state),
     requests = {#Redeemed ''t1'' example_ticket#}\<rparr>"
proof -
  have "truthy_opt (di_ticket ticket_input)" "the (di_ticket ticket_input) = ''t1''"
    by (simp_all add: ticket_input_def empty_input_def truthy_opt_def truthy_str_def)
  with handlers_are_redemptions [where input = ticket_input and s = ticket_state and tk = example_ticket and M = "{#}"
      and auth = AllAuthorizer and verify = KeyValueVerifier and cipher = hex_cipher and part = False
      and lib = example_jwt_library and prm = example_params and d = 60,
      OF key_value_verifier.verifier_axioms all_auth.sound_authorizer_axioms, THEN conjunct1]
    ticket_state_found(1)
  show ?thesis
    unfolding example_negotiate_def one_ticket_def by (metis prod.collapse)
qed

text \<open>
  two requests that name the same ticket both get an access token when both read it before either
  deletes it.
\<close>

theorem ticket_redeemed_twice:
  "\<exists>q. ticket_run one_ticket q \<and> redeemed ''t1'' (requests q) = 2
     \<and> fst (negotiate_ticket KeyValueVerifier (server_strategy hex_cipher AllAuthorizer False)
          (JwtTokenFactory example_jwt_library example_params) None ticket_input example_ticket (desk_state q))
        = Inr (example_output\<lparr>do_refresh_token := None\<rparr>)"
proof -
  let ?step = "redemption_step ticket_found spend_ticket other_requests"
  let ?desk = "\<lambda>M. \<lparr>desk_state = ticket_state, requests = M\<rparr>"
  let ?found = "Found ''t1'' example_ticket" and ?redeemed = "Redeemed ''t1'' example_ticket"
  let ?spent = "spend_ticket ''t1'' ticket_state"
  have present: "?step (?desk M) (?desk (add_mset (Presented ''t1'') M))" for M
    using redemption_step.present [of ticket_found spend_ticket other_requests "?desk M" "''t1''"] by simp
  have find: "?step (?desk (add_mset (Presented ''t1'') M)) (?desk (add_mset ?found M))" for M
    using found [of "?desk (add_mset (Presented ''t1'') M)" "''t1''" M] ticket_state_found(1) by simp
  have redeem: "?step \<lparr>desk_state = s, requests = add_mset ?found M\<rparr>
      \<lparr>desk_state = spend_ticket ''t1'' s, requests = add_mset ?redeemed M\<rparr>" for s M
    using redemption_step.redeem [of "\<lparr>desk_state = s, requests = add_mset ?found M\<rparr>" "''t1''" example_ticket M] by simp
  have "ticket_run (?desk {#}) (?desk {#?found, ?found#})"
    using present [of "{#}"] find [of "{#}"] present [of "{#?found#}"] find [of "{#?found#}"]
    by (meson converse_rtranclp_into_rtranclp rtranclp.rtrancl_refl)
  moreover have "?step (?desk {#?found, ?found#}) \<lparr>desk_state = ?spent, requests = {#?redeemed, ?found#}\<rparr>"
    using redeem [of ticket_state "{#?found#}"] by simp
  moreover have "?step \<lparr>desk_state = ?spent, requests = {#?redeemed, ?found#}\<rparr>
      \<lparr>desk_state = spend_ticket ''t1'' ?spent, requests = {#?redeemed, ?redeemed#}\<rparr>"
    using redeem [of ?spent "{#?redeemed#}"] by (simp add: add_mset_commute)
  ultimately have "ticket_run one_ticket \<lparr>desk_state = spend_ticket ''t1'' ?spent, requests = {#?redeemed, ?redeemed#}\<rparr>"
    unfolding one_ticket_def by (meson rtranclp.rtrancl_into_rtrancl)
  moreover have "fst (negotiate_ticket KeyValueVerifier (server_strategy hex_cipher AllAuthorizer False)
      (JwtTokenFactory example_jwt_library example_params) None ticket_input example_ticket (spend_ticket ''t1'' ?spent))
    = Inr (example_output\<lparr>do_refresh_token := None\<rparr>)"
    by code_simp
  ultimately show ?thesis by (intro exI) auto
qed

end
