(* ===== verification/EndToEnd.thy ===== *)
theory EndToEnd
  imports ClientFlow NegotiationFacts SimpleOdrl
begin

text \<open>
  An access token from the policies of the owner to the modes of the resource server: what the
  negotiation of the authorization server (\<open>dialog/BaseNegotiator.ts\<close>, \<open>ticketing/\<close>, \<open>policies/\<close>) puts
  into a token (\<open>tokens/JwtTokenFactory.ts\<close>) against what the resource server takes from it
  (\<open>authentication/UmaTokenExtractor.ts\<close>, \<open>uma/UmaClient.ts\<close>, \<open>authorization/UmaPermissionReader.ts\<close>). Both
  sides are the definitions of their own theories.
\<close>

subsection \<open>The modes of an issued token\<close>

lemma js_strings_map [simp]: "js_strings (map JStr ss) = ss"
  by (induction ss) simp_all

lemma encoded_entry [simp]:
  "decode_string (js_prop (encode_permission p) ''resource_id'') = resource_id p"
  "entry_scopes (encode_permission p) = resource_scopes p"
  "in_window now (encode_permission p)"
  "permission_shape (encode_permission p)"
  by (simp_all add: encode_permission_def decode_string_def entry_scopes_def in_window_def tested_time_def
      permission_shape_def list_all_iff is_string_def)

lemma entries_for_encoded:
  "entries_for path (map encode_permission ps) = map encode_permission (filter (\<lambda>p. resource_id p = path) ps)"
  by (simp add: entries_for_def filter_map o_def)

lemma payload_fields [simp]:
  "js_prop (jwt_payload lib prm now jti tok) ''permissions'' = JArr (map encode_permission (at_permissions tok))"
  "js_prop (jwt_payload lib prm now jti tok) ''iss'' = JStr (jp_issuer prm)"
  "js_prop (jwt_payload lib prm now jti tok) ''iat'' = JNum (now div 1000)"
  "js_prop (jwt_payload lib prm now jti tok) ''exp'' = JNum (expiry_of lib now (jp_expirationTime prm))"
  "js_prop (jwt_payload lib prm now jti tok) ''nbf'' = JUndef"
  by (simp_all add: jwt_payload_def split: option.split)

lemma payload_in_window:
  "now div 1000 * 1000 < later \<Longrightarrow> later < expiry_of lib now (jp_expirationTime prm) * 1000
     \<Longrightarrow> in_window later (jwt_payload lib prm now jti tok)"
  by (simp add: in_window_def tested_time_def)

lemma payload_data:
  "jose_verify rl v jwks issuer ''solid'' = Inr (jwt_payload lib prm now jti tok)
     \<Longrightarrow> verifyTokenData rl v issuer jwks = Inr (jwt_payload lib prm now jti tok)"
  by (simp add: verifyTokenData_def list_all_iff)

text \<open>The last entry for a resource decides.\<close>

definition last_entry :: "string \<Rightarrow> permission list \<Rightarrow> permission option" where
  "last_entry path ps = (let qs = filter (\<lambda>p. resource_id p = path) ps in if qs = [] then None else Some (last qs))"

lemma last_entry_access:
  "last_entry path ps = Some p \<Longrightarrow> sc \<in> set (resource_scopes p) \<Longrightarrow> (path, sc) \<in> access_of ps"
  using last_in_set [of "filter (\<lambda>p. resource_id p = path) ps"]
  by (force simp: last_entry_def access_of_def Let_def split: if_splits)

lemma last_entry_distinct:
  assumes "distinct (map resource_id ps)"
  shows "(\<exists>p. last_entry path ps = Some p \<and> sc \<in> set (resource_scopes p)) \<longleftrightarrow> (path, sc) \<in> access_of ps"
proof
  assume "(path, sc) \<in> access_of ps"
  then obtain p where p: "p \<in> set ps" "resource_id p = path" "sc \<in> set (resource_scopes p)" by (auto simp: access_of_def)
  then have "filter (\<lambda>q. resource_id q = path) ps \<noteq> []" by (auto simp: filter_empty_conv)
  moreover from this have "last (filter (\<lambda>q. resource_id q = path) ps) \<in> {q \<in> set ps. resource_id q = path}"
    using last_in_set by fastforce
  ultimately show "\<exists>p. last_entry path ps = Some p \<and> sc \<in> set (resource_scopes p)"
    using p assms by (auto simp: last_entry_def distinct_map dest: inj_onD)
qed (use last_entry_access in blast)

lemma payload_grants:
  assumes "UmaPermissionReader pe later (Some (jwt_payload lib prm now jti tok)) = Inr r" and "mode \<noteq> ''undefined''"
    and "in_window later (jwt_payload lib prm now jti tok)"
  shows "grants r path mode \<longleftrightarrow>
    (\<exists>p sc. last_entry path (at_permissions tok) = Some p \<and> sc \<in> set (resource_scopes p) \<and> toCssMode pe sc = Inr (Some mode))"
proof -
  let ?ps = "map encode_permission (at_permissions tok)"
  have "r = fold (\<lambda>p. obj_set (decode_string (js_prop p ''resource_id'')) (permission_set pe later p)) ?ps []"
    using assms(1,3) by (simp add: UmaPermissionReader_def)
  then have "obj_get r path = (if entries_for path ?ps = [] then None else Some (permission_set pe later (last (entries_for path ?ps))))"
    by (simp add: obj_get_fold_set entries_for_def)
  then show ?thesis
    using permission_set_get [OF assms(2), of pe later]
    by (auto simp: grants_def entries_for_encoded last_entry_def last_map Let_def)
qed

text \<open>
  C18: a token grants at the resource server what it was issued for. When the signature library gives
  back what was signed, the client of the resource server accepts the token, and in the time
  between its second of issue and its expiry the reader grants a mode on a resource exactly when
  the issued permissions have a scope of that mode for it, provided that they name each resource
  once; if they do not, the last entry decides.
\<close>

theorem issued_token_grants:
  assumes "jwt_serialize lib prm tok s = (Inr st, t)"
    and "jose_verify rl (JStr (st_token st)) jwks (jp_issuer prm) ''solid''
      = Inr (jwt_payload lib prm (clock s) (fresh_id s) tok)"
    and "clock s div 1000 * 1000 < later" and "later < expiry_of lib (clock s) (jp_expirationTime prm) * 1000"
    and "mode \<noteq> ''undefined''"
  shows "\<exists>claims r. verifyTokenData rl (JStr (st_token st)) (jp_issuer prm) jwks = Inr claims
    \<and> UmaPermissionReader pe later (Some claims) = Inr r
    \<and> (grants r path mode \<longleftrightarrow> (\<exists>p sc. last_entry path (at_permissions tok) = Some p
          \<and> sc \<in> set (resource_scopes p) \<and> toCssMode pe sc = Inr (Some mode)))
    \<and> (distinct (map resource_id (at_permissions tok)) \<longrightarrow>
        (grants r path mode \<longleftrightarrow> (\<exists>sc. (path, sc) \<in> access_of (at_permissions tok) \<and> toCssMode pe sc = Inr (Some mode))))"
proof -
  let ?claims = "jwt_payload lib prm (clock s) (fresh_id s) tok"
  note window = payload_in_window [OF assms(3,4)]
  obtain r where r: "UmaPermissionReader pe later (Some ?claims) = Inr r"
    using window by (simp add: UmaPermissionReader_def)
  note grants = payload_grants [OF r assms(5) window, of path]
  show ?thesis
    using payload_data [OF assms(2)] r grants last_entry_distinct [of "at_permissions tok" path] by blast
qed

subsection \<open>The rights of an issued token\<close>

text \<open>The value is one of the claim.\<close>

definition claim_value :: "claimset \<Rightarrow> string \<Rightarrow> js \<Rightarrow> bool" where
  "claim_value claims k v \<longleftrightarrow> (\<exists>vs. obj_get claims k = Some vs \<and> v \<in> set vs)"

lemma add_claims_value:
  "claim_value (add_claims prov claims) k v \<Longrightarrow> claim_value prov k v \<or> (\<exists>vs. (k, vs) \<in> set claims \<and> v \<in> set vs)"
proof (induction claims arbitrary: prov)
  case (Cons kv claims)
  obtain j ws where kv: "kv = (j, ws)" by fastforce
  have "add_claims prov (kv # claims)
      = add_claims (obj_set j ((case obj_get prov j of None \<Rightarrow> [] | Some old \<Rightarrow> old) @ ws) prov) claims"
    by (simp add: add_claims_def kv)
  with Cons.prems Cons.IH have "claim_value (obj_set j ((case obj_get prov j of None \<Rightarrow> [] | Some old \<Rightarrow> old) @ ws) prov) k v
      \<or> (\<exists>vs. (k, vs) \<in> set claims \<and> v \<in> set vs)" by simp
  then show ?case
    by (auto simp: claim_value_def kv obj_get_set split: if_splits option.splits)
qed simp

text \<open>
  Every claim was on the ticket already, or a credential of the request was verified and gave it.
\<close>

definition vouched :: "verify_fun \<Rightarrow> dialog_input \<Rightarrow> ticket \<Rightarrow> claimset \<Rightarrow> bool" where
  "vouched verify input tk claims \<longleftrightarrow> (\<forall>k v. claim_value claims k v \<longrightarrow> claim_value (provided tk) k v
     \<or> (\<exists>tok fmt verified u u' vs. (Some tok, Some fmt) \<in> set (claim_token_list input)
          \<and> verify \<lparr>token = tok, format = fmt\<rparr> u = (Inr verified, u') \<and> (k, vs) \<in> set verified \<and> v \<in> set vs))"

context base_negotiation
begin

lemma processCredentials_vouched:
  assumes "processCredentials verify strat input tk s = (Inr tk', t)"
  shows "vouched verify input tk (provided tk')"
  using assms unfolding processCredentials_def
proof (rule fold_act_inv [where P = "\<lambda>tk' _. vouched verify input tk (provided tk')"])
  show "vouched verify input tk (provided tk)" by (simp add: vouched_def)
next
  fix acc pair s acc' s'
  assume pair: "pair \<in> set (claim_token_list input)" and ih: "vouched verify input tk (provided acc)"
    and step: "process_token verify strat acc pair s = (Inr acc', s')"
  obtain tok fmt claims s1 where c: "pair = (Some tok, Some fmt)" "verify \<lparr>token = tok, format = fmt\<rparr> s = (Inr claims, s1)"
    "validateClaims strat acc claims s1 = (Inr acc', s')"
    using step by (auto simp: process_token_def bind_eq_Inr split: prod.splits if_splits dest!: truthy_optD)
  then have "provided acc' = add_claims (provided acc) claims"
    using validate_ticket [of acc claims s1 acc'] by simp
  with ih c(1,2) pair show "vouched verify input tk (provided acc')"
    unfolding vouched_def by (metis add_claims_value)
qed

lemma negotiated:
  assumes "BaseNegotiator verify strat factory issuer input s = (Inr out, t)"
  obtains tk s1 updated s2 granted s3 s4 st where "getTicket strat input s = (Inr tk, s1)"
    "vouched verify input tk (provided updated)" "resolveTicket strat updated s2 = (Inr (Success granted), s3)"
    "serialize factory \<lparr>at_permissions = granted, at_sub = token_sub (provided updated), at_contract = None\<rparr> s3 = (Inr st, s4)"
    "do_access_token out = st_token st"
    "policies s2 = policies s" "clock s2 = clock s" "clock s3 = clock s"
proof -
  from assms obtain tk s1 updated s2 granted s3 where g: "getTicket strat input s = (Inr tk, s1)"
    and p: "processCredentials verify strat input tk s1 = (Inr updated, s2)"
    and r: "resolveTicket strat updated s2 = (Inr (Success granted), s3)"
    and out: "grant_response factory issuer updated granted s3 = (Inr out, t)"
    by (rule negotiate_run)
  from out obtain st s4 where "serialize factory \<lparr>at_permissions = granted, at_sub = token_sub (provided updated),
      at_contract = None\<rparr> s3 = (Inr st, s4)" "do_access_token out = st_token st"
    by (auto simp: grant_response_def bind_eq_Inr split: option.splits)
  moreover have "dialog_step s s1" by (rule keepsD [OF getTicket_step g])
  moreover have "drops_refresh s1 s2" by (rule keepsD [OF processCredentials_step p])
  moreover have "quiet s2 s3" by (rule keepsD [OF resolve_quiet r])
  ultimately show thesis
    using that [OF g processCredentials_vouched [OF p] r]
    by (simp add: dialog_step_def drops_refresh_fields stored_fields [OF quietD(1)])
qed

end

text \<open>
  The policies justify the scope on the resource, or the fallback of the authorizer granted it
  with the same claims, policies and time.
\<close>

definition entitled ::
  "aead \<Rightarrow> (string \<Rightarrow> int option) \<Rightarrow> (js \<Rightarrow> string \<Rightarrow> js list option) \<Rightarrow> authorizer \<Rightarrow> dialog_state \<Rightarrow> claimset \<Rightarrow>
   string \<Rightarrow> string \<Rightarrow> bool" where
  "entitled cipher dates query_json fallback s claims path sc \<longleftrightarrow>
     (\<exists>i. same_resource (decodeAggregateId cipher) path i
        \<and> (justified dates query_json (clock s) (policies s) claims i sc
           \<or> (\<exists>qs u ps u'. fallback claims (Some (map full qs)) u = (Inr ps, u') \<and> (i, sc) \<in> access_of ps
                \<and> policies u = policies s \<and> clock u = clock s)))"

lemma resolved_entitled:
  assumes "resolveTicket (server_strategy cipher (SimpleOdrlAuthorizer dates query_json fallback) part) tk s
      = (Inr (Success granted), t)"
    and "(path, sc) \<in> access_of granted"
  shows "entitled cipher dates query_json fallback s (provided tk) path sc"
proof -
  let ?auth = "SimpleOdrlAuthorizer dates query_json fallback"
  from assms(1) have "aggregator_resolveTicket (decodeAggregateId cipher) (ImmediateAuthorizerStrategy ?auth part) tk s
      = (Inr (Success granted), t)"
    by (simp add: server_strategy_def AggregatorStrategy_def)
  then obtain decoded ids out where d: "decodeIds (decodeAggregateId cipher) tk = (decoded, ids)"
    and r: "resolveTicket (ImmediateAuthorizerStrategy ?auth part) decoded s = (Inr (Success out), t)"
    and granted: "granted = encode_result ids out"
    by (rule aggregator_resolve_run)
  note same = decodeIds_within [OF d]
  have "access_within (same_resource (decodeAggregateId cipher)) granted out"
    unfolding granted using same by (intro encode_result_within) blast
  with assms(2) obtain i where i: "same_resource (decodeAggregateId cipher) path i" "(i, sc) \<in> access_of out"
    unfolding access_within_def by blast
  from r have "calculatePermissions ?auth decoded s = (Inr out, t)"
    using immediate_resolve_Success by (simp add: ImmediateAuthorizerStrategy_def)
  then obtain raw where raw: "?auth (provided tk) (Some (map full (permissions decoded))) s = (Inr raw, t)"
    and "out = filter (\<lambda>p. resource_scopes p \<noteq> []) raw"
    using same by (auto simp: calculatePermissions_def bind_eq_Inr)
  with i(2) have sc: "(i, sc) \<in> access_of raw" by (auto simp: access_of_def)
  from raw show ?thesis
  proof (cases rule: simple_run_cases)
    case judged
    from eval_query_justified [OF judged(1) sc] i(1) show ?thesis by (auto simp: entitled_def)
  next
    case fallback
    with sc i(1) show ?thesis unfolding entitled_def by blast
  qed
qed

text \<open>A token the negotiation issued, as the payload that was signed.\<close>

lemma issued_payload:
  assumes "verifier verify" and "sound_authorizer fallback"
    and "server_negotiate verify (server_strategy cipher (SimpleOdrlAuthorizer dates query_json fallback) part) lib prm d input s
      = (Inr out, t)"
  obtains tk s1 claims granted jti sub where
    "getTicket (server_strategy cipher (SimpleOdrlAuthorizer dates query_json fallback) part) input s = (Inr tk, s1)"
    "vouched verify input tk claims"
    "do_access_token out = sign_jwt lib (jwt_payload lib prm (clock s) jti \<lparr>at_permissions = granted, at_sub = sub, at_contract = None\<rparr>)"
    "\<forall>(path, sc) \<in> access_of granted. entitled cipher dates query_json fallback s claims path sc"
proof -
  note contract = server_negotiation [OF assms(1) server_strategy_contract [OF simple_odrl_sound [OF assms(2)]]]
  obtain tk s1 updated s2 granted s3 s4 st where
    g: "getTicket (server_strategy cipher (SimpleOdrlAuthorizer dates query_json fallback) part) input s = (Inr tk, s1)"
    and v: "vouched verify input tk (provided updated)"
    and r: "resolveTicket (server_strategy cipher (SimpleOdrlAuthorizer dates query_json fallback) part) updated s2
      = (Inr (Success granted), s3)"
    and ser: "serialize (JwtTokenFactory lib prm)
      \<lparr>at_permissions = granted, at_sub = token_sub (provided updated), at_contract = None\<rparr> s3 = (Inr st, s4)"
    and out: "do_access_token out = st_token st"
    and same: "policies s2 = policies s" "clock s2 = clock s" "clock s3 = clock s"
    by (rule base_negotiation.negotiated [OF contract assms(3) [unfolded server_negotiate_def]])
  have "st_token st = sign_jwt lib (jwt_payload lib prm (clock s) (fresh_id s3)
      \<lparr>at_permissions = granted, at_sub = token_sub (provided updated), at_contract = None\<rparr>)"
    using ser same(3) by (auto simp: JwtTokenFactory_def jwt_serialize_def bind_eq_Inr Let_def)
  moreover have "\<forall>(path, sc) \<in> access_of granted. entitled cipher dates query_json fallback s (provided updated) path sc"
    using resolved_entitled [OF r] same by (auto simp: entitled_def)
  ultimately show thesis using that [OF g v] out by metis
qed


lemma grants_in_window:
  assumes "UmaPermissionReader pe later (Some claims) = Inr r" and "grants r path mode"
  shows "in_window later claims"
proof (rule ccontr)
  assume "\<not> in_window later claims"
  with assms(1) have "r = []" by (simp add: UmaPermissionReader_def)
  with assms(2) show False by (simp add: grants_def)
qed

lemma payload_not_expired:
  "in_window later (jwt_payload lib prm now jti tok) \<Longrightarrow>
     expiry_of lib now (jp_expirationTime prm) = 0 \<or> later < expiry_of lib now (jp_expirationTime prm) * 1000"
  by (auto simp: in_window_def tested_time_def split: if_splits)

text \<open>The JWT the extractor has checked, and the owner who trusts its issuer.\<close>

lemma extracted_jwt:
  assumes "UmaTokenExtractor css rl fetch False target req rs = (Inr claims, rs')"
  obtains a path owners issuers where "req_authorization req = Some a" "target req = Inr path"
    "findOwners css path = Inr owners" "valid_issuers css owners = Inr issuers"
    "verifyJwtToken rl fetch (bearer_token a) issuers rs = (Inr claims, rs')"
proof -
  from assms obtain a where a: "req_authorization req = Some a"
    and "catch (bind (lift (target req)) (\<lambda>target. token_of_target css rl fetch False target (bearer_token a)))
        (\<lambda>_. throw BadRequest) rs = (Inr claims, rs')"
    by (auto simp: UmaTokenExtractor_def split: option.splits if_splits)
  then show thesis
    using that [OF a] by (auto simp: catch_eq_Inr bind_eq_Inr token_of_target_def)
qed

text \<open>
  The claims jose gives back for a token of the authorization server are those it was signed for:
  the signed text is the JSON of the payload, and a token has one payload.
\<close>

definition genuine :: "jwt_library \<Rightarrow> jwt_params \<Rightarrow> rs_library \<Rightarrow> bool" where
  "genuine lib prm rl \<longleftrightarrow> (\<forall>now jti ps sub jwks issuer audience claims.
     (let payload = jwt_payload lib prm now jti \<lparr>at_permissions = ps, at_sub = sub, at_contract = None\<rparr> in
      jose_verify rl (JStr (sign_jwt lib payload)) jwks issuer audience = Inr claims \<longrightarrow> claims = payload))"

text \<open>
  C1: from the policies to the door. When a request comes with a token that the negotiation issued,
  the resource server takes it, and the reader grants a mode on a path, then an owner of the
  requested resource has the issuer as authorization server, the token has not expired, and the
  mode is one of a scope the requester was entitled to at the time of issue: by the policies as
  they were, for claims that were on the ticket or come from credentials the server verified, or
  by the fallback authorizer under the same policies.
\<close>

theorem access_justified:
  assumes "verifier verify" and "sound_authorizer fallback"
    and "server_negotiate verify (server_strategy cipher (SimpleOdrlAuthorizer dates query_json fallback) part) lib prm d input s
      = (Inr out, t)"
    and "genuine lib prm rl" and "jose_contract rl"
    and "UmaTokenExtractor css rl fetch False target req rs = (Inr claims, rs')"
    and "map_option bearer_token (req_authorization req) = Some (do_access_token out)"
    and "UmaPermissionReader pe later (Some claims) = Inr r" and "grants r path mode" and "mode \<noteq> ''undefined''"
  shows "(\<exists>resource owners owner credentials. target req = Inr resource \<and> findOwners css resource = Inr owners
        \<and> owner \<in> set owners \<and> findUmaSettings css owner = Inr (Some (jp_issuer prm), credentials))
    \<and> (expiry_of lib (clock s) (jp_expirationTime prm) = 0
        \<or> later < expiry_of lib (clock s) (jp_expirationTime prm) * 1000)
    \<and> (\<exists>tk s1 evidence sc. getTicket (server_strategy cipher (SimpleOdrlAuthorizer dates query_json fallback) part) input s
          = (Inr tk, s1)
        \<and> vouched verify input tk evidence \<and> toCssMode pe sc = Inr (Some mode)
        \<and> entitled cipher dates query_json fallback s evidence path sc)"
proof -
  obtain tk s1 evidence granted jti sub where
    ticket: "getTicket (server_strategy cipher (SimpleOdrlAuthorizer dates query_json fallback) part) input s = (Inr tk, s1)"
      "vouched verify input tk evidence"
    and tok: "do_access_token out
      = sign_jwt lib (jwt_payload lib prm (clock s) jti \<lparr>at_permissions = granted, at_sub = sub, at_contract = None\<rparr>)"
    and ent: "\<forall>(path, sc) \<in> access_of granted. entitled cipher dates query_json fallback s evidence path sc"
    by (rule issued_payload [OF assms(1-3)]) (rule that)
  let ?payload = "jwt_payload lib prm (clock s) jti \<lparr>at_permissions = granted, at_sub = sub, at_contract = None\<rparr>"
  obtain a resource owners issuers where a: "req_authorization req = Some a"
    and owners: "target req = Inr resource" "findOwners css resource = Inr owners" "valid_issuers css owners = Inr issuers"
    and jwt: "verifyJwtToken rl fetch (bearer_token a) issuers rs = (Inr claims, rs')"
    by (rule extracted_jwt [OF assms(6)])
  from verifyJwtToken_run [OF assms(5) jwt] obtain issuer jwks where issuer: "issuer \<in> set issuers"
    "js_prop claims ''iss'' = JStr issuer" "jose_verify rl (JStr (bearer_token a)) jwks issuer ''solid'' = Inr claims" by blast
  from a assms(7) tok have "bearer_token a = sign_jwt lib ?payload" by simp
  with issuer(3) assms(4) have claims: "claims = ?payload" unfolding genuine_def Let_def by metis
  with issuer(1,2) valid_issuers_run [OF owners(3), of "jp_issuer prm"] obtain owner credentials
    where owner: "owner \<in> set owners" "findUmaSettings css owner = Inr (Some (jp_issuer prm), credentials)" by auto
  have window: "in_window later ?payload" using grants_in_window [OF assms(8,9)] claims by simp
  obtain p sc where "last_entry path granted = Some p" "sc \<in> set (resource_scopes p)" "toCssMode pe sc = Inr (Some mode)"
    using payload_grants [OF assms(8) [unfolded claims] assms(10) window] assms(9) by auto
  with ent last_entry_access have "entitled cipher dates query_json fallback s evidence path sc" by blast
  with ticket owners(1,2) owner payload_not_expired [OF window] \<open>toCssMode pe sc = Inr (Some mode)\<close>
  show ?thesis by blast
qed


subsection \<open>Examples\<close>

definition door_params :: jwt_params where
  "door_params = example_params\<lparr>jp_issuer := ''as''\<rparr>"

definition door_token :: access_token where
  "door_token = \<lparr>at_permissions = [\<lparr>resource_id = ''urn:x'', resource_scopes = [css_mode ''read'']\<rparr>],
     at_sub = Some ''urn:alice'', at_contract = None\<rparr>"

definition door_payload :: js where
  "door_payload = jwt_payload example_jwt_library door_params 0 ''id'' door_token"

text \<open>A library that tells the token of the example from any other.\<close>

definition door_jwt :: jwt_library where
  "door_jwt = example_jwt_library\<lparr>sign_jwt := (\<lambda>v. if v = door_payload then ''good'' else ''bad'')\<rparr>"

definition door_library :: rs_library where
  "door_library = example_rs_library\<lparr>
     jose_decode := (\<lambda>tok. if tok = ''good'' then Inr door_payload else Inl PlainError),
     jose_verify := (\<lambda>v jwks issuer audience. if v = JStr ''good'' \<and> issuer = ''as'' then Inr door_payload else Inl PlainError)\<rparr>"

definition door_state :: dialog_state where
  "door_state = empty_state\<lparr>policies := example_policy (odrl ''permission''), entropy := (\<lambda>n. ''id''),
     ticketStore := [''t1'' \<mapsto> \<lparr>derivedIds = None,
       permissions = [\<lparr>resource_id = ''urn:x'', resource_scopes = [css_mode ''read'', css_mode ''write'']\<rparr>], provided = []\<rparr>]\<rparr>"

definition door_input :: dialog_input where
  "door_input = empty_input\<lparr>di_ticket := Some ''t1'', di_claim_token := Some (SingleToken ''urn:alice''),
     di_claim_token_format := Some WEBID\<rparr>"

abbreviation door_strategy :: ticketing where
  "door_strategy \<equiv> server_strategy hex_cipher (SimpleOdrlAuthorizer (\<lambda>_. None) (\<lambda>_ _. None) NoneAuthorizer) True"

definition door_request :: request where
  "door_request = (http_get ''urn:x'')\<lparr>req_authorization := Some ''Bearer good''\<rparr>"

lemma door_negotiates:
  "case fst (server_negotiate KeyValueVerifier door_strategy door_jwt door_params 60 door_input door_state) of
     Inl e \<Rightarrow> False | Inr out \<Rightarrow> do_access_token out = ''good''"
  by code_simp

lemma door_claims: "js_prop door_payload ''iss'' = JStr ''as''"
  by code_simp

lemma door_genuine: "genuine door_jwt door_params door_library"
proof -
  have "jwt_payload door_jwt = jwt_payload example_jwt_library"
    by (intro ext) (simp add: jwt_payload_def door_jwt_def)
  then show ?thesis
    by (simp add: genuine_def Let_def door_library_def) (simp add: door_jwt_def)
qed

lemma door_jose: "jose_contract door_library"
  by (auto simp: jose_contract_def door_library_def door_claims split: if_splits)

lemma door_extracts:
  "fst (UmaTokenExtractor example_stores door_library (example_server 201) False (\<lambda>req. Inr (req_url req)) door_request rs_example)
    = Inr door_payload"
  by code_simp

lemma door_opens:
  "\<exists>r. UmaPermissionReader ''pe#'' 1000 (Some door_payload) = Inr r \<and> grants r ''urn:x'' ''pe#Read''"
proof -
  have "(case UmaPermissionReader ''pe#'' 1000 (Some door_payload) of Inl e \<Rightarrow> False
    | Inr r \<Rightarrow> (case obj_get r ''urn:x'' of None \<Rightarrow> False | Some modes \<Rightarrow> obj_get modes ''pe#Read'' = Some (Some True)))"
    by code_simp
  then show ?thesis by (auto simp: grants_def split: sum.splits option.splits)
qed

theorem access_justified_witness:
  "\<exists>evidence sc. vouched KeyValueVerifier door_input (the (ticketStore door_state ''t1'')) evidence
     \<and> toCssMode ''pe#'' sc = Inr (Some ''pe#Read'')
     \<and> entitled hex_cipher (\<lambda>_. None) (\<lambda>_ _. None) NoneAuthorizer door_state evidence ''urn:x'' sc"
proof -
  obtain out t where run: "server_negotiate KeyValueVerifier door_strategy door_jwt door_params 60 door_input door_state = (Inr out, t)"
    and out: "do_access_token out = ''good''"
    using door_negotiates by (cases "server_negotiate KeyValueVerifier door_strategy door_jwt door_params 60 door_input door_state")
      (simp split: sum.splits)
  obtain r where r: "UmaPermissionReader ''pe#'' 1000 (Some door_payload) = Inr r" "grants r ''urn:x'' ''pe#Read''"
    using door_opens by blast
  have bearer: "map_option bearer_token (req_authorization door_request) = Some (do_access_token out)"
    unfolding out by code_simp
  have "fst (getTicket door_strategy door_input door_state) = Inr (the (ticketStore door_state ''t1''))" by code_simp
  with access_justified [OF key_value_verifier.verifier_axioms none_auth.sound_authorizer_axioms run door_genuine door_jose
      run_fst [OF door_extracts] bearer r]
  show ?thesis by fastforce
qed

theorem issued_token_grants_witness:
  "\<exists>claims r. verifyTokenData door_library (JStr ''good'') ''as'' ''keys'' = Inr claims
     \<and> UmaPermissionReader ''pe#'' 1000 (Some claims) = Inr r \<and> grants r ''urn:x'' ''pe#Read''"
proof -
  have "fst (jwt_serialize door_jwt door_params door_token door_state) = Inr \<lparr>st_tokenType = ''Bearer'', st_token = ''good''\<rparr>"
    by code_simp
  moreover have "jose_verify door_library (JStr ''good'') ''keys'' (jp_issuer door_params) ''solid''
      = Inr (jwt_payload door_jwt door_params (clock door_state) (fresh_id door_state) door_token)"
    by code_simp
  moreover have "clock door_state div 1000 * 1000 < 1000"
    "1000 < expiry_of door_jwt (clock door_state) (jp_expirationTime door_params) * 1000" by code_simp+
  moreover have "last_entry ''urn:x'' (at_permissions door_token)
      = Some \<lparr>resource_id = ''urn:x'', resource_scopes = [css_mode ''read'']\<rparr>"
    "toCssMode ''pe#'' (css_mode ''read'') = Inr (Some ''pe#Read'')" "jp_issuer door_params = ''as''" by code_simp+
  ultimately show ?thesis
    using issued_token_grants [of door_jwt door_params door_token door_state "\<lparr>st_tokenType = ''Bearer'', st_token = ''good''\<rparr>" _
        door_library "''keys''" 1000 "''pe#Read''" "''pe#''" "''urn:x''", OF run_fst]
    by fastforce
qed

end
